theory Spec2Isabelle
  imports Complex_Main "HOL-Library.Log_Nat"
begin

section \<open>Tables\<close>

text \<open>
  A pandas DataFrame is modelled as its column labels and its rows. A cell is a number, a
  piece of text, or the missing marker NaN. A number is a real; where the code converts it
  with \<open>float\<close> it becomes the nearest double. The trip computation of the calculator
  (required shipment, trip count, shipment quantity) is carried out in double-precision
  arithmetic as in the code, because the ceiling turns the rounding of a quotient into a whole
  vehicle. The sums and products that follow it are exact; infinities, arithmetic on NaN and
  the two-decimal display rounding of the result dictionaries are outside the model. Column
  labels are text and taken pairwise distinct; a row shorter than the header reads as NaN in
  the columns it lacks, as pandas pads it.
\<close>

datatype cell = Num real | Str string | NaN

record table =
  columns :: "string list"
  rows :: "cell list list"

text \<open>
  The exceptions the modelled code can raise; \<open>FileError\<close> stands for whatever the
  spreadsheet library raises on a file it cannot open.
\<close>

datatype py_error = KeyError string | TypeError | ValueError | UnboundLocalError string | FileError

fun cell_of :: "string list \<Rightarrow> cell list \<Rightarrow> string \<Rightarrow> cell" where
  "cell_of (k # ks) (v # vs) c = (if k = c then v else cell_of ks vs c)"
| "cell_of _ _ c = NaN"

text \<open>Elementwise \<open>==\<close> of a column against a scalar: NaN equals nothing.\<close>

fun py_eq :: "cell \<Rightarrow> cell \<Rightarrow> bool" where
  "py_eq (Num x) (Num y) = (x = y)"
| "py_eq (Str s) (Str t) = (s = t)"
| "py_eq _ _ = False"

definition first_missing :: "table \<Rightarrow> string list \<Rightarrow> string option" where
  "first_missing df cs = find (\<lambda>c. c \<notin> set (columns df)) cs"

definition select :: "table \<Rightarrow> (string \<times> cell) list \<Rightarrow> cell list list" where
  "select df conds =
     filter (\<lambda>r. list_all (\<lambda>(c, v). py_eq (cell_of (columns df) r c) v) conds) (rows df)"

text \<open>
  \<open>df[(df[c1] == v1) & (df[c2] == v2) & ...]\<close>: the mask is built left to right, and reading
  a column the frame does not have raises KeyError.
\<close>

definition lookup_rows :: "table \<Rightarrow> (string \<times> cell) list \<Rightarrow> py_error + cell list list" where
  "lookup_rows df conds =
     (case first_missing df (map fst conds) of
        Some c \<Rightarrow> Inl (KeyError c)
      | None \<Rightarrow> Inr (select df conds))"

definition bind_err :: "'e + 'a \<Rightarrow> ('a \<Rightarrow> 'e + 'b) \<Rightarrow> 'e + 'b" where
  "bind_err m f = (case m of Inl e \<Rightarrow> Inl e | Inr x \<Rightarrow> f x)"

text \<open>
  The text-to-number conversions of the Python runtime and of pandas are library code; they
  are parameters of the model: \<open>py_float\<close> is \<open>float(s)\<close> on text (None: ValueError),
  \<open>pd_to_numeric\<close> is \<open>pd.to_numeric(..., errors='coerce')\<close> on a text cell (None: NaN).
\<close>

record pylib =
  py_float :: "string \<Rightarrow> real option"
  pd_to_numeric :: "string \<Rightarrow> real option"

section \<open>Double-precision arithmetic\<close>

text \<open>
  A Python \<open>float\<close> is an IEEE 754 binary64 number: 53 significant bits, exponents from
  -1022, gradual underflow below, and every conversion and operation returns the representable
  number nearest to the exact value, a tie going to the even significand.

  For a positive \<open>x\<close>, \<open>binade x\<close> is the exponent \<open>e\<close> with \<open>2^e \<le> x < 2^(e+1)\<close>, and
  \<open>ulp_exponent x\<close> is the exponent of the spacing of the doubles around \<open>x\<close>. Overflow to
  infinity is not modelled: a number beyond the largest double is rounded on the same grid.
\<close>

definition binade :: "real \<Rightarrow> int" where
  "binade x = (if 1 \<le> x then bitlen \<lfloor>x\<rfloor> - 1 else - bitlen (\<lceil>1 / x\<rceil> - 1))"

definition round_half_even :: "real \<Rightarrow> int" where
  "round_half_even y =
     (let f = \<lfloor>y\<rfloor>; d = y - of_int f
      in if d < 1 / 2 then f else if 1 / 2 < d then f + 1 else if even f then f else f + 1)"

definition ulp_exponent :: "real \<Rightarrow> int" where
  "ulp_exponent x = max (binade x) (- 1022) - 52"

definition round_double :: "real \<Rightarrow> real" where
  "round_double x =
     (if x = 0 then 0
      else sgn x * of_int (round_half_even (\<bar>x\<bar> / 2 powi ulp_exponent \<bar>x\<bar>))
             * 2 powi ulp_exponent \<bar>x\<bar>)"

text \<open>The operators \<open>+\<close>, \<open>-\<close> and \<open>/\<close> on two floats.\<close>

definition float_add :: "real \<Rightarrow> real \<Rightarrow> real" where
  "float_add x y = round_double (x + y)"

definition float_sub :: "real \<Rightarrow> real \<Rightarrow> real" where
  "float_sub x y = round_double (x - y)"

definition float_div :: "real \<Rightarrow> real \<Rightarrow> real" where
  "float_div x y = round_double (x / y)"

section \<open>optimizer.py\<close>

datatype pyval = PyFloat real | PyStr string

definition NOT_AVAILABLE :: pyval where
  "NOT_AVAILABLE = PyStr ''N/A''"

definition TRANSPORT_MODES :: "(string \<times> string \<times> int) list" where
  "TRANSPORT_MODES = [(''T1'', ''Road'', 30), (''T2'', ''Rail'', 3000)]"

definition HOLDING_COST_RATE :: real where
  "HOLDING_COST_RATE = 1 / 100"

record strategic_constraint =
  bound_type :: cell
  value_type :: cell
  cvalue :: real
  transport_code :: cell
  target_iugu :: cell

text \<open>
  The fields of RouteData read from the sheets. Its seven derived display fields
  (\<open>total_logistics_cost\<close> ... \<open>can_fulfill_demand\<close>) are not inputs of the calculator and
  are left out.
\<close>

record route_data =
  source :: string
  destination :: string
  mode :: string
  period :: int
  freight_cost :: pyval
  handling_cost :: pyval
  quantity_multiplier :: pyval
  production_cost :: pyval
  source_capacity :: pyval
  source_demand :: pyval
  destination_demand :: pyval
  min_fulfillment_pct :: pyval
  source_opening_stock :: pyval
  destination_opening_stock :: pyval
  source_closing_min :: pyval
  source_closing_max :: pyval
  destination_closing_min :: pyval
  destination_closing_max :: pyval
  source_type :: pyval
  destination_type :: pyval
  source_num_sources :: pyval
  destination_num_sources :: pyval
  constraints :: "strategic_constraint list"

record clinker_optimizer =
  opt_data :: "string \<rightharpoonup> table"
  opt_is_loaded :: bool

text \<open>
  \<open>_get_value(df, mask, column)\<close>; the second argument is \<open>df[mask]\<close>, the rows the mask
  selects. A number is returned through \<open>float\<close>.
\<close>

definition get_value :: "table \<Rightarrow> cell list list \<Rightarrow> string \<Rightarrow> pyval" where
  "get_value df result column =
     (if column \<notin> set (columns df) then NOT_AVAILABLE
      else case result of
             [] \<Rightarrow> NOT_AVAILABLE
           | r # _ \<Rightarrow> (case cell_of (columns df) r column of
                         NaN \<Rightarrow> NOT_AVAILABLE
                       | Num x \<Rightarrow> PyFloat (round_double x)
                       | Str s \<Rightarrow> PyStr s))"

text \<open>\<open>_num(val, default)\<close>; a number is returned through \<open>float\<close>.\<close>

definition num :: "pyval \<Rightarrow> real \<Rightarrow> real" where
  "num val dflt =
     (if val = NOT_AVAILABLE then dflt
      else case val of PyFloat x \<Rightarrow> round_double x | PyStr _ \<Rightarrow> dflt)"

text \<open>
  One sheet block of \<open>get_route_data\<close>: when the sheet is loaded, build the mask and select;
  the fields of the block are then read from the selection with \<open>_get_value\<close>.
\<close>

definition sheet_rows ::
  "(string \<rightharpoonup> table) \<Rightarrow> string \<Rightarrow> (string \<times> cell) list \<Rightarrow> py_error + (table \<times> cell list list) option" where
  "sheet_rows d name conds =
     (case d name of
        None \<Rightarrow> Inr None
      | Some df \<Rightarrow> (case lookup_rows df conds of
                     Inl e \<Rightarrow> Inl e
                   | Inr rs \<Rightarrow> Inr (Some (df, rs))))"

definition field_of :: "(table \<times> cell list list) option \<Rightarrow> string \<Rightarrow> pyval" where
  "field_of sel column =
     (case sel of None \<Rightarrow> NOT_AVAILABLE | Some (df, rs) \<Rightarrow> get_value df rs column)"

text \<open>\<open>row.get(column, default)\<close> on a row of the frame.\<close>

definition row_get :: "string list \<Rightarrow> cell list \<Rightarrow> string \<Rightarrow> cell \<Rightarrow> cell" where
  "row_get cols r c dflt = (if c \<in> set cols then cell_of cols r c else dflt)"

definition notna_or_blank :: "cell \<Rightarrow> cell" where
  "notna_or_blank c = (if c = NaN then Str [] else c)"

text \<open>The loop over the constraint rows of the source and period.\<close>

fun constraint_rows ::
  "pylib \<Rightarrow> string list \<Rightarrow> string \<Rightarrow> string \<Rightarrow> cell list list \<Rightarrow> py_error + strategic_constraint list" where
  "constraint_rows lib cols md dest [] = Inr []"
| "constraint_rows lib cols md dest (r # rs) =
     (let tc = row_get cols r ''TRANSPORT CODE'' (Str []);
          ic = row_get cols r ''IUGU CODE'' (Str [])
      in if (tc = NaN \<or> tc = Str [] \<or> tc = Str md) \<and> (ic = NaN \<or> ic = Str [] \<or> ic = Str dest)
         then
           (case (case row_get cols r ''Value'' (Num 0) of
                    NaN \<Rightarrow> Inr 0
                  | Num x \<Rightarrow> Inr (round_double x)
                  | Str s \<Rightarrow> (case py_float lib s of None \<Rightarrow> Inl ValueError | Some x \<Rightarrow> Inr x)) of
              Inl e \<Rightarrow> Inl e
            | Inr v \<Rightarrow>
                (case constraint_rows lib cols md dest rs of
                   Inl e \<Rightarrow> Inl e
                 | Inr cs \<Rightarrow>
                     Inr (\<lparr> bound_type = row_get cols r ''BOUND TYPEID'' (Str []),
                            value_type = row_get cols r ''VALUE TYPEID'' (Str []),
                            cvalue = v,
                            transport_code = notna_or_blank tc,
                            target_iugu = notna_or_blank ic \<rparr> # cs)))
         else constraint_rows lib cols md dest rs)"

definition get_constraints ::
  "pylib \<Rightarrow> (string \<rightharpoonup> table) \<Rightarrow> string \<Rightarrow> string \<Rightarrow> string \<Rightarrow> cell \<Rightarrow> py_error + strategic_constraint list" where
  "get_constraints lib d src dest md per =
     (case d ''Constraints'' of
        None \<Rightarrow> Inr []
      | Some df \<Rightarrow>
          (case lookup_rows df [(''IU CODE'', Str src), (''TIME PERIOD'', per)] of
             Inl e \<Rightarrow> Inl e
           | Inr rs \<Rightarrow> constraint_rows lib (columns df) md dest rs))"

definition get_route_data ::
  "pylib \<Rightarrow> clinker_optimizer \<Rightarrow> string \<Rightarrow> string \<Rightarrow> string \<Rightarrow> int \<Rightarrow> py_error + route_data" where
  "get_route_data lib opt src dest md p =
     (let d = opt_data opt; per = Num (of_int p) in
      bind_err (sheet_rows d ''Logistics''
                  [(''FROM IU CODE'', Str src), (''TO IUGU CODE'', Str dest),
                   (''TRANSPORT CODE'', Str md), (''TIME PERIOD'', per)]) (\<lambda>lg.
      bind_err (sheet_rows d ''ProductionCost'' [(''IU CODE'', Str src), (''TIME PERIOD'', per)]) (\<lambda>pc.
      bind_err (sheet_rows d ''Capacity'' [(''IU CODE'', Str src), (''TIME PERIOD'', per)]) (\<lambda>cp.
      bind_err (sheet_rows d ''Demand'' [(''IUGU CODE'', Str src), (''TIME PERIOD'', per)]) (\<lambda>sd.
      bind_err (sheet_rows d ''Demand'' [(''IUGU CODE'', Str dest), (''TIME PERIOD'', per)]) (\<lambda>dd.
      bind_err (sheet_rows d ''OpeningStock'' [(''IUGU CODE'', Str src)]) (\<lambda>so.
      bind_err (sheet_rows d ''OpeningStock'' [(''IUGU CODE'', Str dest)]) (\<lambda>ds.
      bind_err (sheet_rows d ''ClosingStock'' [(''IUGU CODE'', Str src), (''TIME PERIOD'', per)]) (\<lambda>sc.
      bind_err (sheet_rows d ''ClosingStock'' [(''IUGU CODE'', Str dest), (''TIME PERIOD'', per)]) (\<lambda>dc.
      bind_err (sheet_rows d ''IUGUType'' [(''IUGU CODE'', Str src)]) (\<lambda>st.
      bind_err (sheet_rows d ''IUGUType'' [(''IUGU CODE'', Str dest)]) (\<lambda>dt.
      bind_err (get_constraints lib d src dest md per) (\<lambda>cs.
      Inr \<lparr> source = src, destination = dest, mode = md, period = p,
            freight_cost = field_of lg ''FREIGHT COST'',
            handling_cost = field_of lg ''HANDLING COST'',
            quantity_multiplier = field_of lg ''QUANTITY MULTIPLIER'',
            production_cost = field_of pc ''PRODUCTION COST'',
            source_capacity = field_of cp ''CAPACITY'',
            source_demand = field_of sd ''DEMAND'',
            destination_demand = field_of dd ''DEMAND'',
            min_fulfillment_pct = field_of dd ''MIN FULFILLMENT (%)'',
            source_opening_stock = field_of so ''OPENING STOCK'',
            destination_opening_stock = field_of ds ''OPENING STOCK'',
            source_closing_min = field_of sc ''MIN CLOSE STOCK'',
            source_closing_max = field_of sc ''MAX CLOSE STOCK'',
            destination_closing_min = field_of dc ''MIN CLOSE STOCK'',
            destination_closing_max = field_of dc ''MAX CLOSE STOCK'',
            source_type = field_of st ''PLANT TYPE'',
            destination_type = field_of dt ''PLANT TYPE'',
            source_num_sources = field_of st ''# Source'',
            destination_num_sources = field_of dt ''# Source'',
            constraints = cs \<rparr>)))))))))))))"

text \<open>
  The feasibility messages; each carries the numbers the message prints (the source formats
  them with no decimals).
\<close>

datatype issue =
    CapacityShortfall real real real
  | SourceBelowSafetyStock real real
  | DestinationBelowSafetyStock real real

record solution =
  route :: route_data
  vehicle_capacity :: int
  required_shipment :: real
  num_trips :: int
  shipment_qty :: int
  required_production :: real
  production :: real
  capacity_violation :: real
  source_ending_inv :: real
  dest_ending_inv :: real
  excess_at_dest :: real
  source_ss_satisfied :: bool
  dest_ss_satisfied :: bool
  is_feasible :: bool
  production_cost_comp :: real
  transport_cost_comp :: real
  holding_cost_comp :: real
  total_Z :: real
  issues :: "issue list"

definition vehicle_capacity_of :: "string \<Rightarrow> int" where
  "vehicle_capacity_of md =
     (case map_of TRANSPORT_MODES md of Some (nm, c) \<Rightarrow> c | None \<Rightarrow> 30)"

text \<open>
  The body of \<open>calculate_milp_solution\<close> after the route data is fetched. Each local variable
  of the source is a function of the route data, named after the variable. The numeric inputs
  are \<open>_num\<close> of the route fields with default 0 (the defaults 1 of the multiplier and
  infinity of the two closing-stock maxima feed only values that are not modelled). The
  required shipment and the quotient under the ceiling are computed in double precision; the
  trip count and the shipment quantity are Python integers, which are exact.
\<close>

definition min_shipment_needed :: "route_data \<Rightarrow> real" where
  "min_shipment_needed r =
     float_sub (float_add (num (destination_closing_min r) 0) (num (destination_demand r) 0))
       (num (destination_opening_stock r) 0)"

definition required_shipment_of :: "route_data \<Rightarrow> real" where
  "required_shipment_of r = max 0 (min_shipment_needed r)"

definition num_trips_of :: "route_data \<Rightarrow> int" where
  "num_trips_of r =
     (if vehicle_capacity_of (mode r) > 0 \<and> required_shipment_of r > 0
      then \<lceil>float_div (required_shipment_of r) (of_int (vehicle_capacity_of (mode r)))\<rceil>
      else 0)"

definition shipment_qty_of :: "route_data \<Rightarrow> int" where
  "shipment_qty_of r =
     (if vehicle_capacity_of (mode r) > 0 \<and> required_shipment_of r > 0
      then num_trips_of r * vehicle_capacity_of (mode r)
      else 0)"

definition is_iu :: "route_data \<Rightarrow> bool" where
  "is_iu r = (source_type r = PyStr ''IU'')"

definition min_production_needed :: "route_data \<Rightarrow> real" where
  "min_production_needed r =
     num (source_closing_min r) 0 + of_int (shipment_qty_of r) + num (source_demand r) 0
       - num (source_opening_stock r) 0"

definition required_production_of :: "route_data \<Rightarrow> real" where
  "required_production_of r = (if is_iu r then max 0 (min_production_needed r) else 0)"

definition production_of :: "route_data \<Rightarrow> real" where
  "production_of r =
     (if is_iu r
      then (if required_production_of r > num (source_capacity r) 0 \<and> num (source_capacity r) 0 > 0
            then num (source_capacity r) 0
            else required_production_of r)
      else 0)"

definition capacity_violation_of :: "route_data \<Rightarrow> real" where
  "capacity_violation_of r =
     (if is_iu r
      then (if required_production_of r > num (source_capacity r) 0 \<and> num (source_capacity r) 0 > 0
            then required_production_of r - num (source_capacity r) 0
            else 0)
      else 0)"

definition source_ending_inv_of :: "route_data \<Rightarrow> real" where
  "source_ending_inv_of r =
     num (source_opening_stock r) 0 + production_of r - of_int (shipment_qty_of r)
       - num (source_demand r) 0"

definition dest_ending_inv_of :: "route_data \<Rightarrow> real" where
  "dest_ending_inv_of r =
     num (destination_opening_stock r) 0 + of_int (shipment_qty_of r)
       - num (destination_demand r) 0"

definition source_ss_satisfied_of :: "route_data \<Rightarrow> bool" where
  "source_ss_satisfied_of r = (source_ending_inv_of r \<ge> num (source_closing_min r) 0 - 1 / 100)"

definition dest_ss_satisfied_of :: "route_data \<Rightarrow> bool" where
  "dest_ss_satisfied_of r = (dest_ending_inv_of r \<ge> num (destination_closing_min r) 0 - 1 / 100)"

definition holding_rate :: "route_data \<Rightarrow> real" where
  "holding_rate r =
     (if num (production_cost r) 0 > 0 then num (production_cost r) 0 * HOLDING_COST_RATE else 0)"

definition production_cost_comp_of :: "route_data \<Rightarrow> real" where
  "production_cost_comp_of r = num (production_cost r) 0 * production_of r"

definition transport_cost_comp_of :: "route_data \<Rightarrow> real" where
  "transport_cost_comp_of r =
     num (freight_cost r) 0 * of_int (shipment_qty_of r)
       + num (handling_cost r) 0 * of_int (shipment_qty_of r)"

definition holding_cost_comp_of :: "route_data \<Rightarrow> real" where
  "holding_cost_comp_of r =
     holding_rate r * max 0 (source_ending_inv_of r - num (source_closing_min r) 0)
       + holding_rate r * max 0 (dest_ending_inv_of r - num (destination_closing_min r) 0)"

definition issues_of :: "route_data \<Rightarrow> issue list" where
  "issues_of r =
     (if capacity_violation_of r > 0
      then [CapacityShortfall (required_production_of r) (num (source_capacity r) 0)
              (capacity_violation_of r)]
      else []) @
     (if \<not> source_ss_satisfied_of r
      then [SourceBelowSafetyStock (source_ending_inv_of r) (num (source_closing_min r) 0)]
      else []) @
     (if \<not> dest_ss_satisfied_of r
      then [DestinationBelowSafetyStock (dest_ending_inv_of r) (num (destination_closing_min r) 0)]
      else [])"

text \<open>
  The values the result carries. Its dictionaries repeat them, most rounded to two decimals,
  with the bound checks against the closing-stock maxima and the utilisation percentages;
  those are not modelled.
\<close>

definition milp_solution :: "route_data \<Rightarrow> solution" where
  "milp_solution r =
     \<lparr> route = r,
       vehicle_capacity = vehicle_capacity_of (mode r),
       required_shipment = required_shipment_of r,
       num_trips = num_trips_of r,
       shipment_qty = shipment_qty_of r,
       required_production = required_production_of r,
       production = production_of r,
       capacity_violation = capacity_violation_of r,
       source_ending_inv = source_ending_inv_of r,
       dest_ending_inv = dest_ending_inv_of r,
       excess_at_dest = of_int (shipment_qty_of r) - required_shipment_of r,
       source_ss_satisfied = source_ss_satisfied_of r,
       dest_ss_satisfied = dest_ss_satisfied_of r,
       is_feasible =
         (source_ss_satisfied_of r \<and> dest_ss_satisfied_of r \<and> capacity_violation_of r = 0),
       production_cost_comp = production_cost_comp_of r,
       transport_cost_comp = transport_cost_comp_of r,
       holding_cost_comp = holding_cost_comp_of r,
       total_Z = production_cost_comp_of r + transport_cost_comp_of r + holding_cost_comp_of r,
       issues = issues_of r \<rparr>"

definition calculate_milp_solution ::
  "pylib \<Rightarrow> clinker_optimizer \<Rightarrow> string \<Rightarrow> string \<Rightarrow> string \<Rightarrow> int \<Rightarrow> py_error + solution" where
  "calculate_milp_solution lib opt src dest md p =
     (case get_route_data lib opt src dest md p of
        Inl e \<Rightarrow> Inl e
      | Inr r \<Rightarrow> Inr (milp_solution r))"

section \<open>data_parser.py\<close>

subsection \<open>Text\<close>

text \<open>
  Text is a list of bytes; the case conversions and the stripping below are Python's on ASCII
  text.
\<close>

definition upper_char :: "char \<Rightarrow> char" where
  "upper_char c =
     (case map_of (zip ''abcdefghijklmnopqrstuvwxyz'' ''ABCDEFGHIJKLMNOPQRSTUVWXYZ'') c of
        Some u \<Rightarrow> u | None \<Rightarrow> c)"

definition lower_char :: "char \<Rightarrow> char" where
  "lower_char c =
     (case map_of (zip ''ABCDEFGHIJKLMNOPQRSTUVWXYZ'' ''abcdefghijklmnopqrstuvwxyz'') c of
        Some l \<Rightarrow> l | None \<Rightarrow> c)"

definition upper :: "string \<Rightarrow> string" where
  "upper s = map upper_char s"

definition lower :: "string \<Rightarrow> string" where
  "lower s = map lower_char s"

definition is_space :: "char \<Rightarrow> bool" where
  "is_space c =
     (c \<in> set [CHR 0x09, CHR 0x0A, CHR 0x0B, CHR 0x0C, CHR 0x0D,
               CHR 0x1C, CHR 0x1D, CHR 0x1E, CHR 0x1F, CHR 0x20])"

definition strip :: "string \<Rightarrow> string" where
  "strip s = rev (dropWhile is_space (rev (dropWhile is_space s)))"

text \<open>\<open>s.replace(pat, '')\<close> for a non-empty pattern.\<close>

fun remove_all :: "string \<Rightarrow> string \<Rightarrow> string" where
  "remove_all pat [] = []"
| "remove_all pat (c # cs) =
     (if pat \<noteq> [] \<and> take (length pat) (c # cs) = pat
      then remove_all pat (drop (length pat) (c # cs))
      else c # remove_all pat cs)"

fun str_lt :: "string \<Rightarrow> string \<Rightarrow> bool" where
  "str_lt [] [] = False"
| "str_lt [] (y # ys) = True"
| "str_lt (x # xs) [] = False"
| "str_lt (x # xs) (y # ys) =
     ((of_char x :: nat) < of_char y \<or> (x = y \<and> str_lt xs ys))"

subsection \<open>Schema\<close>

record sheet_config =
  cfg_file :: string
  cfg_columns :: "string list"
  cfg_required :: bool

definition SHEET_CONFIG :: "(string \<times> sheet_config) list" where
  "SHEET_CONFIG =
     [(''IUGUType'',
         \<lparr> cfg_file = ''IUGUType.csv'',
           cfg_columns = [''IUGU CODE'', ''PLANT TYPE''],
           cfg_required = True \<rparr>),
      (''Logistics'',
         \<lparr> cfg_file = ''LogisticsIUGU.csv'',
           cfg_columns = [''FROM IU CODE'', ''TO IUGU CODE'', ''TRANSPORT CODE'', ''TIME PERIOD'',
                          ''FREIGHT COST'', ''HANDLING COST'', ''QUANTITY MULTIPLIER''],
           cfg_required = True \<rparr>),
      (''Demand'',
         \<lparr> cfg_file = ''ClinkerDemand.csv'',
           cfg_columns = [''IUGU CODE'', ''TIME PERIOD'', ''DEMAND''],
           cfg_required = True \<rparr>),
      (''Capacity'',
         \<lparr> cfg_file = ''ClinkerCapacity.csv'',
           cfg_columns = [''IU CODE'', ''TIME PERIOD'', ''CAPACITY''],
           cfg_required = True \<rparr>),
      (''ProductionCost'',
         \<lparr> cfg_file = ''ProductionCost.csv'',
           cfg_columns = [''IU CODE'', ''TIME PERIOD'', ''PRODUCTION COST''],
           cfg_required = True \<rparr>),
      (''OpeningStock'',
         \<lparr> cfg_file = ''IUGUOpeningStock.csv'',
           cfg_columns = [''IUGU CODE'', ''OPENING STOCK''],
           cfg_required = True \<rparr>),
      (''ClosingStock'',
         \<lparr> cfg_file = ''IUGUClosingStock.csv'',
           cfg_columns = [''IUGU CODE'', ''TIME PERIOD'', ''MIN CLOSE STOCK'', ''MAX CLOSE STOCK''],
           cfg_required = True \<rparr>),
      (''Constraints'',
         \<lparr> cfg_file = ''IUGUConstraint.csv'',
           cfg_columns = [''IU CODE'', ''TRANSPORT CODE'', ''IUGU CODE'', ''TIME PERIOD'',
                          ''BOUND TYPEID'', ''VALUE TYPEID'', ''Value''],
           cfg_required = False \<rparr>),
      (''HubOpeningStock'',
         \<lparr> cfg_file = ''HubOpeningStock.csv'',
           cfg_columns = [''IU'', ''IUGU'', ''Opening Stock''],
           cfg_required = False \<rparr>)]"

text \<open>\<open>TRANSPORT_INFO\<close>: name, vehicle capacity, emission factor.\<close>

definition TRANSPORT_INFO :: "(string \<times> string \<times> int \<times> real) list" where
  "TRANSPORT_INFO =
     [(''T1'', ''Road'', 30, 62 / 1000),
      (''T2'', ''Rail'', 3000, 22 / 1000),
      (''T3'', ''Sea'', 10000, 10 / 1000)]"

subsection \<open>The parser object\<close>

text \<open>
  The entries of the error list. The four kinds the Excel loader prefixes with the cross mark
  are told apart by \<open>starts_with_cross\<close>, which is all the source asks of the text.
\<close>

datatype load_error =
    RequiredFileMissing string
  | FailedToLoad string
  | MissingRequiredSheets "(string \<times> string) list"
  | SheetMissingColumns string "string list"
  | FailedToReadSheet string
  | FailedToOpenExcel py_error
  | BlankLine
  | RequiredStructureHeader
  | RequiredStructureLine string string "string list"

fun starts_with_cross :: "load_error \<Rightarrow> bool" where
  "starts_with_cross (MissingRequiredSheets ms) = True"
| "starts_with_cross (SheetMissingColumns sh cs) = True"
| "starts_with_cross (FailedToReadSheet sh) = True"
| "starts_with_cross (FailedToOpenExcel e) = True"
| "starts_with_cross (RequiredFileMissing f) = False"
| "starts_with_cross (FailedToLoad f) = False"
| "starts_with_cross BlankLine = False"
| "starts_with_cross RequiredStructureHeader = False"
| "starts_with_cross (RequiredStructureLine sh f cs) = False"

text \<open>
  The metadata dictionary: a key that is not set is None. The keys \<open>record_counts\<close>,
  \<open>routes_by_source\<close> and \<open>modes_by_route\<close> are written by the source and read by no
  operation modelled here; computing them reads only columns that were read before, so it
  cannot raise, and they are left out.
\<close>

record metadata =
  md_plants :: "cell list option"
  md_iu_plants :: "cell list option"
  md_gu_plants :: "cell list option"
  md_all_destinations :: "cell list option"
  md_transport_modes :: "cell list option"
  md_source_ius :: "cell list option"
  md_periods :: "cell list option"
  md_all_sources_count :: "nat option"
  md_valid_sources_count :: "nat option"

definition empty_metadata :: metadata where
  "empty_metadata =
     \<lparr> md_plants = None, md_iu_plants = None, md_gu_plants = None,
       md_all_destinations = None, md_transport_modes = None, md_source_ius = None,
       md_periods = None, md_all_sources_count = None, md_valid_sources_count = None \<rparr>"

record excel_data_parser =
  data :: "string \<rightharpoonup> table"
  metadata :: metadata
  is_loaded :: bool
  load_errors :: "load_error list"

text \<open>\<open>__init__\<close>\<close>

definition init_parser :: excel_data_parser where
  "init_parser = \<lparr> data = Map.empty, metadata = empty_metadata, is_loaded = False, load_errors = [] \<rparr>"

subsection \<open>Series helpers\<close>

definition col_values :: "table \<Rightarrow> string \<Rightarrow> cell list" where
  "col_values df c = map (\<lambda>r. cell_of (columns df) r c) (rows df)"

text \<open>\<open>Series.unique()\<close>: the distinct values in order of first appearance (one NaN at most).\<close>

definition unique :: "cell list \<Rightarrow> cell list" where
  "unique xs = rev (remdups (rev xs))"

text \<open>\<open>x in xs\<close> for a list of cells.\<close>

definition py_in :: "cell \<Rightarrow> cell list \<Rightarrow> bool" where
  "py_in x xs = list_ex (\<lambda>y. py_eq y x) xs"

text \<open>
  \<open>sorted(xs)\<close>. On numbers and on text it is Python's result, and mixing text with numbers
  raises TypeError as in Python. With NaN among the numbers Python returns a permutation that
  depends on its sorting algorithm; the model fixes one, and the operations below only test
  membership in the result.
\<close>

fun py_lt :: "cell \<Rightarrow> cell \<Rightarrow> py_error + bool" where
  "py_lt (Num x) (Num y) = Inr (x < y)"
| "py_lt (Str s) (Str t) = Inr (str_lt s t)"
| "py_lt (Str s) c = Inl TypeError"
| "py_lt c (Str t) = Inl TypeError"
| "py_lt c d = Inr False"

fun insort_py :: "cell \<Rightarrow> cell list \<Rightarrow> py_error + cell list" where
  "insort_py x [] = Inr [x]"
| "insort_py x (y # ys) =
     (case py_lt x y of
        Inl e \<Rightarrow> Inl e
      | Inr b \<Rightarrow>
          if b then Inr (x # y # ys)
          else (case insort_py x ys of Inl e \<Rightarrow> Inl e | Inr zs \<Rightarrow> Inr (y # zs)))"

fun py_sorted :: "cell list \<Rightarrow> py_error + cell list" where
  "py_sorted [] = Inr []"
| "py_sorted (x # xs) =
     (case py_sorted xs of Inl e \<Rightarrow> Inl e | Inr ys \<Rightarrow> insort_py x ys)"

subsection \<open>Route validity\<close>

text \<open>
  The source column of a sheet that may carry it under either name: \<open>IU CODE\<close> first, then
  \<open>IUGU CODE\<close>.
\<close>

definition has_source_rows :: "table \<Rightarrow> cell \<Rightarrow> bool" where
  "has_source_rows df src =
     (if ''IU CODE'' \<in> set (columns df) then select df [(''IU CODE'', src)] \<noteq> []
      else if ''IUGU CODE'' \<in> set (columns df) then select df [(''IUGU CODE'', src)] \<noteq> []
      else False)"

text \<open>\<open>_has_complete_data\<close>\<close>

definition has_complete_data :: "excel_data_parser \<Rightarrow> cell \<Rightarrow> cell \<Rightarrow> py_error + bool" where
  "has_complete_data p src dst =
     (case data p ''Logistics'' of
        None \<Rightarrow> Inr False
      | Some logistics_df \<Rightarrow>
          (case lookup_rows logistics_df [(''FROM IU CODE'', src), (''TO IUGU CODE'', dst)] of
             Inl e \<Rightarrow> Inl e
           | Inr route_rows \<Rightarrow>
               (case route_rows of
                  [] \<Rightarrow> Inr False
                | r # _ \<Rightarrow>
                    if ''FREIGHT COST'' \<notin> set (columns logistics_df) then Inr False
                    else if cell_of (columns logistics_df) r ''FREIGHT COST'' = NaN then Inr False
                    else
                      (case data p ''ProductionCost'' of
                         None \<Rightarrow> Inr False
                       | Some prod_df \<Rightarrow>
                           if \<not> has_source_rows prod_df src then Inr False
                           else
                             (case data p ''Capacity'' of
                                None \<Rightarrow> Inr False
                              | Some cap_df \<Rightarrow>
                                  if \<not> has_source_rows cap_df src then Inr False
                                  else
                                    (case data p ''Demand'' of
                                       None \<Rightarrow> Inr False
                                     | Some demand_df \<Rightarrow>
                                         if ''IUGU CODE'' \<notin> set (columns demand_df) then Inr False
                                         else if select demand_df [(''IUGU CODE'', dst)] = []
                                         then Inr False
                                         else Inr True))))))"

text \<open>The filtering loop of \<open>get_destinations_for_source\<close>.\<close>

fun filter_complete :: "excel_data_parser \<Rightarrow> cell \<Rightarrow> cell list \<Rightarrow> py_error + cell list" where
  "filter_complete p src [] = Inr []"
| "filter_complete p src (d # ds) =
     (case has_complete_data p src d of
        Inl e \<Rightarrow> Inl e
      | Inr b \<Rightarrow>
          (case filter_complete p src ds of
             Inl e \<Rightarrow> Inl e
           | Inr vs \<Rightarrow> Inr (if b then d # vs else vs)))"

definition get_destinations_for_source :: "excel_data_parser \<Rightarrow> cell \<Rightarrow> py_error + cell list" where
  "get_destinations_for_source p source_iu =
     (if \<not> is_loaded p then Inr []
      else case data p ''Logistics'' of
             None \<Rightarrow> Inr []
           | Some df \<Rightarrow>
               (case lookup_rows df [(''FROM IU CODE'', source_iu)] of
                  Inl e \<Rightarrow> Inl e
                | Inr rs \<Rightarrow>
                    if ''TO IUGU CODE'' \<notin> set (columns df) then Inl (KeyError ''TO IUGU CODE'')
                    else filter_complete p source_iu
                           (unique (map (\<lambda>r. cell_of (columns df) r ''TO IUGU CODE'') rs))))"

definition get_modes_for_route :: "excel_data_parser \<Rightarrow> cell \<Rightarrow> cell \<Rightarrow> py_error + cell list" where
  "get_modes_for_route p src dst =
     (if \<not> is_loaded p then Inr []
      else case data p ''Logistics'' of
             None \<Rightarrow> Inr []
           | Some df \<Rightarrow>
               (case lookup_rows df [(''FROM IU CODE'', src), (''TO IUGU CODE'', dst)] of
                  Inl e \<Rightarrow> Inl e
                | Inr rs \<Rightarrow>
                    if ''TRANSPORT CODE'' \<notin> set (columns df) then Inl (KeyError ''TRANSPORT CODE'')
                    else Inr (unique (map (\<lambda>r. cell_of (columns df) r ''TRANSPORT CODE'') rs))))"

subsection \<open>Metadata\<close>

text \<open>
  \<open>_extract_metadata\<close> writes the dictionary key by key, so an exception leaves the keys
  written before it. Each block returns the dictionary and the exception, if any.
\<close>

definition extract_plants :: "(string \<rightharpoonup> table) \<Rightarrow> metadata \<Rightarrow> metadata \<times> py_error option" where
  "extract_plants d md =
     (case d ''IUGUType'' of
        None \<Rightarrow> (md, None)
      | Some df \<Rightarrow>
          if ''IUGU CODE'' \<notin> set (columns df) then (md, Some (KeyError ''IUGU CODE''))
          else
            (let md1 = md\<lparr>md_plants := Some (unique (col_values df ''IUGU CODE''))\<rparr> in
             if ''PLANT TYPE'' \<notin> set (columns df) then (md1, Some (KeyError ''PLANT TYPE''))
             else
               (md1\<lparr>md_iu_plants :=
                      Some (unique (map (\<lambda>r. cell_of (columns df) r ''IUGU CODE'')
                                     (select df [(''PLANT TYPE'', Str ''IU'')]))),
                    md_gu_plants :=
                      Some (unique (map (\<lambda>r. cell_of (columns df) r ''IUGU CODE'')
                                     (select df [(''PLANT TYPE'', Str ''GU'')])))\<rparr>,
                None)))"

definition extract_sources :: "(string \<rightharpoonup> table) \<Rightarrow> metadata \<Rightarrow> metadata \<times> py_error option" where
  "extract_sources d md =
     (case d ''Logistics'' of
        None \<Rightarrow> (md, None)
      | Some df \<Rightarrow>
          if ''FROM IU CODE'' \<notin> set (columns df) then (md, Some (KeyError ''FROM IU CODE''))
          else if ''TO IUGU CODE'' \<notin> set (columns df) then (md, Some (KeyError ''TO IUGU CODE''))
          else
            (let md1 = md\<lparr>md_all_destinations := Some (unique (col_values df ''TO IUGU CODE''))\<rparr> in
             if ''TRANSPORT CODE'' \<notin> set (columns df) then (md1, Some (KeyError ''TRANSPORT CODE''))
             else
               (md1\<lparr>md_transport_modes := Some (unique (col_values df ''TRANSPORT CODE'')),
                    md_source_ius := Some (unique (col_values df ''FROM IU CODE''))\<rparr>,
                None)))"

definition periods_of :: "table \<Rightarrow> metadata \<Rightarrow> metadata \<times> py_error option" where
  "periods_of df md =
     (if ''TIME PERIOD'' \<notin> set (columns df) then (md, Some (KeyError ''TIME PERIOD''))
      else case py_sorted (unique (col_values df ''TIME PERIOD'')) of
             Inl e \<Rightarrow> (md, Some e)
           | Inr ps \<Rightarrow> (md\<lparr>md_periods := Some ps\<rparr>, None))"

definition extract_periods :: "(string \<rightharpoonup> table) \<Rightarrow> metadata \<Rightarrow> metadata \<times> py_error option" where
  "extract_periods d md =
     (case d ''Logistics'' of
        Some df \<Rightarrow> periods_of df md
      | None \<Rightarrow> (case d ''Demand'' of Some df \<Rightarrow> periods_of df md | None \<Rightarrow> (md, None)))"

text \<open>The loop of \<open>_filter_sources_with_complete_data\<close>.\<close>

fun valid_sources :: "excel_data_parser \<Rightarrow> cell list \<Rightarrow> py_error + cell list" where
  "valid_sources p [] = Inr []"
| "valid_sources p (s # ss) =
     (case get_destinations_for_source p s of
        Inl e \<Rightarrow> Inl e
      | Inr ds \<Rightarrow>
          (case valid_sources p ss of
             Inl e \<Rightarrow> Inl e
           | Inr vs \<Rightarrow> Inr (if ds \<noteq> [] then s # vs else vs)))"

definition filter_sources_with_complete_data :: "excel_data_parser \<Rightarrow> excel_data_parser \<times> py_error option" where
  "filter_sources_with_complete_data p =
     (case md_source_ius (metadata p) of
        None \<Rightarrow> (p, None)
      | Some all_sources \<Rightarrow>
          (case valid_sources p all_sources of
             Inl e \<Rightarrow> (p, Some e)
           | Inr vs \<Rightarrow>
               (p\<lparr>metadata := (metadata p)\<lparr>md_source_ius := Some vs,
                                            md_all_sources_count := Some (length all_sources),
                                            md_valid_sources_count := Some (length vs)\<rparr>\<rparr>,
                None)))"

definition extract_metadata :: "excel_data_parser \<Rightarrow> excel_data_parser \<times> py_error option" where
  "extract_metadata p =
     (case extract_plants (data p) (metadata p) of
        (md1, Some e) \<Rightarrow> (p\<lparr>metadata := md1\<rparr>, Some e)
      | (md1, None) \<Rightarrow>
          (case extract_sources (data p) md1 of
             (md2, Some e) \<Rightarrow> (p\<lparr>metadata := md2\<rparr>, Some e)
           | (md2, None) \<Rightarrow>
               (case extract_periods (data p) md2 of
                  (md3, Some e) \<Rightarrow> (p\<lparr>metadata := md3\<rparr>, Some e)
                | (md3, None) \<Rightarrow> filter_sources_with_complete_data (p\<lparr>metadata := md3\<rparr>))))"

subsection \<open>Validation\<close>

record dataset_report =
  rep_complete :: bool
  rep_present :: "string list"
  rep_missing :: "string list"
  rep_total_required :: nat
  rep_loaded_count :: nat

definition required_sheets :: "(string \<times> sheet_config) list" where
  "required_sheets = filter (\<lambda>(nm, config). cfg_required config) SHEET_CONFIG"

definition validate_complete_dataset :: "excel_data_parser \<Rightarrow> dataset_report" where
  "validate_complete_dataset p =
     (let present = filter (\<lambda>nm. data p nm \<noteq> None) (map fst required_sheets);
          missing = filter (\<lambda>nm. data p nm = None) (map fst required_sheets)
      in \<lparr> rep_complete = (length missing = 0),
           rep_present = present,
           rep_missing = missing,
           rep_total_required = length required_sheets,
           rep_loaded_count = length present \<rparr>)"

datatype selection_error =
    NoDatasetLoaded
  | SourceNotFound string
  | RouteNotFound string string
  | ModeNotAvailable string string string
  | PeriodNotFound int

record validation =
  val_valid :: bool
  val_errors :: "selection_error list"
  val_warnings :: "string list"

text \<open>Truth of an optional text or integer argument: None, the empty text and 0 are false.\<close>

definition truthy :: "string option \<Rightarrow> bool" where
  "truthy s = (s \<noteq> None \<and> s \<noteq> Some [])"

definition truthy_int :: "int option \<Rightarrow> bool" where
  "truthy_int k = (k \<noteq> None \<and> k \<noteq> Some 0)"

text \<open>\<open>self.metadata.get(key, [])\<close>\<close>

definition metadata_get :: "cell list option \<Rightarrow> cell list" where
  "metadata_get x = (case x of None \<Rightarrow> [] | Some xs \<Rightarrow> xs)"

definition add_error :: "selection_error \<Rightarrow> validation \<Rightarrow> validation" where
  "add_error e v = v\<lparr>val_valid := False, val_errors := val_errors v @ [e]\<rparr>"

definition check_source :: "excel_data_parser \<Rightarrow> string option \<Rightarrow> validation \<Rightarrow> validation" where
  "check_source p src v =
     (if truthy src \<and> \<not> py_in (Str (the src)) (metadata_get (md_source_ius (metadata p)))
      then add_error (SourceNotFound (the src)) v else v)"

definition check_destination ::
  "excel_data_parser \<Rightarrow> string option \<Rightarrow> string option \<Rightarrow> validation \<Rightarrow> py_error + validation" where
  "check_destination p src dst v =
     (if truthy src \<and> truthy dst
      then (case get_destinations_for_source p (Str (the src)) of
              Inl e \<Rightarrow> Inl e
            | Inr valid_destinations \<Rightarrow>
                Inr (if \<not> py_in (Str (the dst)) valid_destinations
                     then add_error (RouteNotFound (the src) (the dst)) v else v))
      else Inr v)"

definition check_mode ::
  "excel_data_parser \<Rightarrow> string option \<Rightarrow> string option \<Rightarrow> string option \<Rightarrow> validation
     \<Rightarrow> py_error + validation" where
  "check_mode p src dst md v =
     (if truthy src \<and> truthy dst \<and> truthy md
      then (case get_modes_for_route p (Str (the src)) (Str (the dst)) of
              Inl e \<Rightarrow> Inl e
            | Inr valid_modes \<Rightarrow>
                Inr (if \<not> py_in (Str (the md)) valid_modes
                     then add_error (ModeNotAvailable (the md) (the src) (the dst)) v else v))
      else Inr v)"

definition check_period :: "excel_data_parser \<Rightarrow> int option \<Rightarrow> validation \<Rightarrow> validation" where
  "check_period p k v =
     (if truthy_int k \<and> \<not> py_in (Num (of_int (the k))) (metadata_get (md_periods (metadata p)))
      then add_error (PeriodNotFound (the k)) v else v)"

definition validate_selection ::
  "excel_data_parser \<Rightarrow> string option \<Rightarrow> string option \<Rightarrow> string option \<Rightarrow> int option
     \<Rightarrow> py_error + validation" where
  "validate_selection p src dst md k =
     (let v0 = \<lparr> val_valid = True, val_errors = [], val_warnings = [] \<rparr> in
      if \<not> is_loaded p then Inr (add_error NoDatasetLoaded v0)
      else bind_err (check_destination p src dst (check_source p src v0)) (\<lambda>v2.
           bind_err (check_mode p src dst md v2) (\<lambda>v3.
           Inr (check_period p k v3))))"

subsection \<open>Loading\<close>

text \<open>
  A read is its outcome: the frame, or None when \<open>read_csv\<close>, \<open>read_excel\<close> or the stripping
  of the column labels raised (a header that is not text). A folder maps a file name to None
  when the file does not exist. An Excel file is its sheets in order, and None when the file
  cannot be opened.
\<close>

type_synonym folder = "string \<Rightarrow> table option option"

type_synonym excel_file = "(string \<times> table option) list"

definition strip_columns :: "table \<Rightarrow> table" where
  "strip_columns df = df\<lparr>columns := map strip (columns df)\<rparr>"

record load_result =
  res_success :: bool
  res_errors :: "load_error list"
  res_metadata :: metadata

record excel_load_result = load_result +
  res_sheets_found :: "string list"
  res_sheets_required :: "string list"

text \<open>The loop of \<open>load_from_folder\<close> over the schema.\<close>

definition load_file ::
  "folder \<Rightarrow> string \<Rightarrow> sheet_config \<Rightarrow> (string \<rightharpoonup> table) \<times> load_error list
     \<Rightarrow> (string \<rightharpoonup> table) \<times> load_error list" where
  "load_file fd sheet_name config acc =
     (case acc of (d, errs) \<Rightarrow>
        (case fd (cfg_file config) of
           Some (Some df) \<Rightarrow> (d(sheet_name \<mapsto> strip_columns df), errs)
         | Some None \<Rightarrow>
             (d, if cfg_required config then errs @ [FailedToLoad (cfg_file config)] else errs)
         | None \<Rightarrow>
             (d, if cfg_required config then errs @ [RequiredFileMissing (cfg_file config)] else errs)))"

fun load_files ::
  "folder \<Rightarrow> (string \<times> sheet_config) list \<Rightarrow> (string \<rightharpoonup> table) \<times> load_error list
     \<Rightarrow> (string \<rightharpoonup> table) \<times> load_error list" where
  "load_files fd [] acc = acc"
| "load_files fd ((sheet_name, config) # rest) acc =
     load_files fd rest (load_file fd sheet_name config acc)"

definition load_from_folder ::
  "excel_data_parser \<Rightarrow> folder \<Rightarrow> excel_data_parser \<times> (py_error + load_result)" where
  "load_from_folder p fd =
     (case load_files fd SHEET_CONFIG (Map.empty, []) of (d, errs) \<Rightarrow>
        (let p1 = p\<lparr>data := d, metadata := empty_metadata, load_errors := errs\<rparr> in
         if errs = [] then
           (case extract_metadata (p1\<lparr>is_loaded := True\<rparr>) of
              (p2, Some e) \<Rightarrow> (p2, Inl e)
            | (p2, None) \<Rightarrow>
                (p2, Inr \<lparr> res_success = True, res_errors = [], res_metadata = metadata p2 \<rparr>))
         else
           (p1, Inr \<lparr> res_success = False, res_errors = errs,
                      res_metadata = (if is_loaded p1 then metadata p1 else empty_metadata) \<rparr>)))"

text \<open>
  The loop of \<open>load_from_excel\<close> over the schema, collecting the frames stored, the missing
  sheets, the sheets with missing columns and the sheets that failed to read.
\<close>

definition match_sheet :: "string list \<Rightarrow> string \<Rightarrow> sheet_config \<Rightarrow> string option" where
  "match_sheet sheet_names sheet_name config =
     find (\<lambda>s. lower s = lower sheet_name
              \<or> lower s = lower (remove_all ''.csv'' (cfg_file config))) sheet_names"

definition missing_cols :: "sheet_config \<Rightarrow> table \<Rightarrow> string list" where
  "missing_cols config df =
     filter (\<lambda>col. upper col \<notin> set (map upper (columns df))) (cfg_columns config)"

type_synonym excel_scan =
  "(string \<rightharpoonup> table) \<times> (string \<times> string) list \<times> load_error list \<times> load_error list"

definition scan_sheet :: "excel_file \<Rightarrow> string \<Rightarrow> sheet_config \<Rightarrow> excel_scan \<Rightarrow> excel_scan" where
  "scan_sheet xf sheet_name config acc =
     (case acc of (d, missing_sheets, invalid_columns, validation_errors) \<Rightarrow>
        (case match_sheet (map fst xf) sheet_name config of
           Some matched_sheet \<Rightarrow>
             if matched_sheet = [] then
               (if cfg_required config
                then (d, missing_sheets @ [(sheet_name, remove_all ''.csv'' (cfg_file config))],
                      invalid_columns, validation_errors)
                else acc)
             else
               (case map_of xf matched_sheet of
                  Some (Some df0) \<Rightarrow>
                    (let df = strip_columns df0 in
                     if cfg_required config then
                       (if missing_cols config df \<noteq> []
                        then (d, missing_sheets,
                              invalid_columns @ [SheetMissingColumns matched_sheet (missing_cols config df)],
                              validation_errors)
                        else (d(sheet_name \<mapsto> df), missing_sheets, invalid_columns, validation_errors))
                     else (d(sheet_name \<mapsto> df), missing_sheets, invalid_columns, validation_errors))
                | _ \<Rightarrow>
                    (if cfg_required config
                     then (d, missing_sheets, invalid_columns,
                           validation_errors @ [FailedToReadSheet matched_sheet])
                     else acc))
         | None \<Rightarrow>
             (if cfg_required config
              then (d, missing_sheets @ [(sheet_name, remove_all ''.csv'' (cfg_file config))],
                    invalid_columns, validation_errors)
              else acc)))"

fun load_sheets :: "excel_file \<Rightarrow> (string \<times> sheet_config) list \<Rightarrow> excel_scan \<Rightarrow> excel_scan" where
  "load_sheets xf [] acc = acc"
| "load_sheets xf ((sheet_name, config) # rest) acc =
     load_sheets xf rest (scan_sheet xf sheet_name config acc)"

definition scan_errors :: "excel_scan \<Rightarrow> load_error list" where
  "scan_errors sc =
     (case sc of (d, missing_sheets, invalid_columns, validation_errors) \<Rightarrow>
        (if missing_sheets \<noteq> [] then [MissingRequiredSheets missing_sheets] else [])
          @ invalid_columns @ validation_errors)"

definition required_structure :: "load_error list" where
  "required_structure =
     [BlankLine, RequiredStructureHeader]
       @ map (\<lambda>(nm, config). RequiredStructureLine nm (cfg_file config) (cfg_columns config))
           required_sheets"

definition excel_result :: "excel_data_parser \<Rightarrow> excel_load_result" where
  "excel_result p =
     \<lparr> res_success = (filter starts_with_cross (load_errors p) = []),
       res_errors = load_errors p,
       res_metadata = (if is_loaded p then metadata p else empty_metadata),
       res_sheets_found = filter (\<lambda>nm. data p nm \<noteq> None) (map fst SHEET_CONFIG),
       res_sheets_required = map fst required_sheets \<rparr>"

text \<open>
  When the file cannot be opened the handler records the failure, and the return statement
  then reads \<open>required_sheets\<close>, which was never bound: the call raises. An exception of
  \<open>_extract_metadata\<close> is caught by the same handler.
\<close>

definition load_from_excel ::
  "excel_data_parser \<Rightarrow> excel_file option \<Rightarrow> excel_data_parser \<times> (py_error + excel_load_result)" where
  "load_from_excel p file =
     (let p0 = p\<lparr>data := Map.empty, metadata := empty_metadata, load_errors := []\<rparr> in
      case file of
        None \<Rightarrow>
          (p0\<lparr>load_errors := [FailedToOpenExcel FileError]\<rparr>,
           Inl (UnboundLocalError ''required_sheets''))
      | Some xf \<Rightarrow>
          (let sc = load_sheets xf SHEET_CONFIG (Map.empty, [], [], []);
               errs = scan_errors sc;
               p1 = p0\<lparr>data := fst sc, load_errors := errs\<rparr>;
               p2 = (if errs = [] then
                       (case extract_metadata (p1\<lparr>is_loaded := True\<rparr>) of
                          (q, Some e) \<Rightarrow> q\<lparr>load_errors := load_errors q @ [FailedToOpenExcel e]\<rparr>
                        | (q, None) \<Rightarrow> q)
                     else p1\<lparr>load_errors := errs @ required_structure\<rparr>)
           in (p2, Inr (excel_result p2))))"

section \<open>api.py\<close>

text \<open>
  The application holds the two module-level objects. \<open>optimizer.load_data(parser.data)\<close>
  hands the parser's dictionary and frames to the optimizer, and \<open>_ensure_numeric_columns\<close>
  rewrites columns of those frames in place: after it the parser sees the converted frames
  too. The next load rebinds the parser's dictionary and leaves the optimizer's alone.
\<close>

record app =
  parser :: excel_data_parser
  optimizer :: clinker_optimizer

definition to_numeric :: "pylib \<Rightarrow> cell \<Rightarrow> cell" where
  "to_numeric lib c =
     (case c of
        Str s \<Rightarrow> (case pd_to_numeric lib s of Some x \<Rightarrow> Num x | None \<Rightarrow> NaN)
      | _ \<Rightarrow> c)"

fun map_cell :: "(cell \<Rightarrow> cell) \<Rightarrow> string list \<Rightarrow> cell list \<Rightarrow> string \<Rightarrow> cell list" where
  "map_cell f (k # ks) (v # vs) c = (if k = c then f v # vs else v # map_cell f ks vs c)"
| "map_cell f _ vs c = vs"

definition coerce_column :: "pylib \<Rightarrow> table \<Rightarrow> string \<Rightarrow> table" where
  "coerce_column lib df col =
     (if col \<in> set (columns df)
      then df\<lparr>rows := map (\<lambda>r. map_cell (to_numeric lib) (columns df) r col) (rows df)\<rparr>
      else df)"

definition numeric_mappings :: "(string \<times> string list) list" where
  "numeric_mappings =
     [(''Logistics'', [''FREIGHT COST'', ''HANDLING COST'', ''QUANTITY MULTIPLIER'', ''TIME PERIOD'']),
      (''Capacity'', [''CAPACITY'', ''TIME PERIOD'']),
      (''Demand'', [''DEMAND'', ''TIME PERIOD'', ''MIN FULFILLMENT (%)'']),
      (''ProductionCost'', [''PRODUCTION COST'', ''TIME PERIOD'']),
      (''OpeningStock'', [''OPENING STOCK'']),
      (''ClosingStock'', [''MIN CLOSE STOCK'', ''MAX CLOSE STOCK'', ''TIME PERIOD'']),
      (''Constraints'', [''TIME PERIOD'', ''Value''])]"

definition ensure_numeric_columns :: "pylib \<Rightarrow> (string \<rightharpoonup> table) \<Rightarrow> (string \<rightharpoonup> table)" where
  "ensure_numeric_columns lib d =
     (\<lambda>sheet. case d sheet of
                None \<Rightarrow> None
              | Some df \<Rightarrow>
                  Some (case map_of numeric_mappings sheet of
                          None \<Rightarrow> df
                        | Some cols \<Rightarrow> foldl (coerce_column lib) df cols))"

text \<open>\<open>optimizer.load_data(parser.data)\<close>, with its effect on the frames the parser shares.\<close>

definition load_data :: "pylib \<Rightarrow> app \<Rightarrow> app" where
  "load_data lib a =
     (let d = ensure_numeric_columns lib (data (parser a)) in
      a\<lparr>parser := (parser a)\<lparr>data := d\<rparr>,
        optimizer := \<lparr> opt_data = d, opt_is_loaded = True \<rparr>\<rparr>)"


definition api_load_from_folder :: "pylib \<Rightarrow> app \<Rightarrow> folder \<Rightarrow> app \<times> (py_error + load_result)" where
  "api_load_from_folder lib a fd =
     (case load_from_folder (parser a) fd of
        (p', Inl e) \<Rightarrow> (a\<lparr>parser := p'\<rparr>, Inl e)
      | (p', Inr res) \<Rightarrow>
          (if res_success res then load_data lib (a\<lparr>parser := p'\<rparr>) else a\<lparr>parser := p'\<rparr>,
           Inr res))"

text \<open>
  The responses that are not a result: no dataset, a missing parameter, the validation
  errors, or an exception that escapes the handler.
\<close>

datatype api_error =
    ApiNoDataset
  | MissingParameters
  | ValidationErrors "selection_error list"
  | Raised py_error

text \<open>The route endpoint, \<open>get_route_data\<close> of api.py.\<close>

definition api_get_route_data ::
  "pylib \<Rightarrow> app \<Rightarrow> string option \<Rightarrow> string option \<Rightarrow> string option \<Rightarrow> int option
     \<Rightarrow> api_error + solution" where
  "api_get_route_data lib a src dst md k =
     (if \<not> is_loaded (parser a) then Inl ApiNoDataset
      else if \<not> (truthy src \<and> truthy dst \<and> truthy md \<and> truthy_int k) then Inl MissingParameters
      else case validate_selection (parser a) src dst md k of
             Inl e \<Rightarrow> Inl (Raised e)
           | Inr v \<Rightarrow>
               if \<not> val_valid v then Inl (ValidationErrors (val_errors v))
               else (case calculate_milp_solution lib (optimizer a) (the src) (the dst) (the md) (the k) of
                       Inl e \<Rightarrow> Inl (Raised e)
                     | Inr sol \<Rightarrow> Inr sol))"

record mode_detail =
  det_code :: cell
  det_name :: cell
  det_vehicle_capacity :: "int option"

definition mode_detail_of :: "cell \<Rightarrow> mode_detail" where
  "mode_detail_of m =
     (case m of
        Str c \<Rightarrow>
          (case map_of TRANSPORT_INFO c of
             Some (nm, cap, ef) \<Rightarrow>
               \<lparr> det_code = m, det_name = Str nm, det_vehicle_capacity = Some cap \<rparr>
           | None \<Rightarrow> \<lparr> det_code = m, det_name = m, det_vehicle_capacity = None \<rparr>)
      | _ \<Rightarrow> \<lparr> det_code = m, det_name = m, det_vehicle_capacity = None \<rparr>)"

text \<open>The modes endpoint, \<open>get_transport_modes\<close>.\<close>

definition api_get_transport_modes :: "app \<Rightarrow> string \<Rightarrow> string \<Rightarrow> api_error + mode_detail list" where
  "api_get_transport_modes a src dst =
     (if \<not> is_loaded (parser a) then Inl ApiNoDataset
      else case validate_selection (parser a) (Some src) (Some dst) None None of
             Inl e \<Rightarrow> Inl (Raised e)
           | Inr v \<Rightarrow>
               if \<not> val_valid v then Inl (ValidationErrors (val_errors v))
               else (case get_modes_for_route (parser a) (Str src) (Str dst) of
                       Inl e \<Rightarrow> Inl (Raised e)
                     | Inr modes \<Rightarrow> Inr (map mode_detail_of modes)))"

section \<open>The specification's rules\<close>

text \<open>
  The completeness rule in the specification's words, for comparison with
  \<open>has_complete_data\<close>: some route row of the pair has a freight cost, the source has a
  production-cost row and a capacity row, the destination has a demand row.
\<close>

definition complete_per_spec :: "excel_data_parser \<Rightarrow> cell \<Rightarrow> cell \<Rightarrow> bool" where
  "complete_per_spec p src dst =
     (case (data p ''Logistics'', data p ''ProductionCost'', data p ''Capacity'', data p ''Demand'') of
        (Some lg, Some pc, Some cp, Some dm) \<Rightarrow>
            list_ex (\<lambda>r. cell_of (columns lg) r ''FREIGHT COST'' \<noteq> NaN)
              (select lg [(''FROM IU CODE'', src), (''TO IUGU CODE'', dst)])
          \<and> select pc [(''IU CODE'', src)] \<noteq> []
          \<and> select cp [(''IU CODE'', src)] \<noteq> []
          \<and> select dm [(''IUGU CODE'', dst)] \<noteq> []
      | _ \<Rightarrow> False)"





text \<open>
  A candidate set fails validation: for an Excel file, some required sheet is missing,
  cannot be read, or lacks a required column; for a folder, some required file is missing or
  cannot be read.
\<close>

definition sheet_invalid :: "excel_file \<Rightarrow> string \<Rightarrow> sheet_config \<Rightarrow> bool" where
  "sheet_invalid xf nm config =
     (cfg_required config \<and>
      (case match_sheet (map fst xf) nm config of
         None \<Rightarrow> True
       | Some m \<Rightarrow>
           m = [] \<or>
           (case map_of xf m of
              Some (Some df) \<Rightarrow> missing_cols config (strip_columns df) \<noteq> []
            | _ \<Rightarrow> True)))"

definition excel_invalid :: "excel_file \<Rightarrow> bool" where
  "excel_invalid xf = list_ex (\<lambda>(nm, config). sheet_invalid xf nm config) SHEET_CONFIG"

definition file_invalid :: "folder \<Rightarrow> sheet_config \<Rightarrow> bool" where
  "file_invalid fd config =
     (cfg_required config \<and>
      (case fd (cfg_file config) of Some (Some df) \<Rightarrow> False | _ \<Rightarrow> True))"

definition folder_invalid :: "folder \<Rightarrow> bool" where
  "folder_invalid fd = list_ex (\<lambda>(nm, config). file_invalid fd config) SHEET_CONFIG"

text \<open>
  The frame the Excel loader stores for a schema entry, if any, and the store an Excel load
  and a folder load build from a candidate set.
\<close>

definition accepted_sheet :: "excel_file \<Rightarrow> string \<Rightarrow> sheet_config \<Rightarrow> table option" where
  "accepted_sheet xf nm config =
     (case match_sheet (map fst xf) nm config of
        None \<Rightarrow> None
      | Some m \<Rightarrow>
          if m = [] then None
          else (case map_of xf m of
                  Some (Some df0) \<Rightarrow>
                    if cfg_required config \<and> missing_cols config (strip_columns df0) \<noteq> [] then None
                    else Some (strip_columns df0)
                | _ \<Rightarrow> None))"

definition excel_store :: "excel_file \<Rightarrow> (string \<rightharpoonup> table)" where
  "excel_store xf =
     (\<lambda>nm. case map_of SHEET_CONFIG nm of
              None \<Rightarrow> None
            | Some config \<Rightarrow> accepted_sheet xf nm config)"

definition folder_store :: "folder \<Rightarrow> (string \<rightharpoonup> table)" where
  "folder_store fd =
     (\<lambda>nm. case map_of SHEET_CONFIG nm of
              None \<Rightarrow> None
            | Some config \<Rightarrow>
                (case fd (cfg_file config) of
                   Some (Some df) \<Rightarrow> Some (strip_columns df)
                 | _ \<Rightarrow> None))"

section \<open>A sample dataset\<close>

text \<open>
  One producing plant \<open>IU1\<close> and three destinations. The route to \<open>GU1\<close> by \<open>T1\<close> in
  period 1 has opening stock 100, closing minimum 50, demand 0, production cost 10 at the
  source, opening stock 20, closing minimum 30, demand 200 at the destination, freight 5 and
  handling 1; the capacity of the source is a parameter. Period 2 has a route to \<open>GU1\<close> and
  no demand row. \<open>GU1\<close> is also reached by the modes \<open>T3\<close> and \<open>T9\<close>. The first route row to
  \<open>GU2\<close> has no freight cost, the second has; the one route row to \<open>GU3\<close> has none.
\<close>

definition t_type :: table where
  "t_type = \<lparr> columns = [''IUGU CODE'', ''PLANT TYPE''],
              rows = [[Str ''IU1'', Str ''IU''], [Str ''GU1'', Str ''GU''], [Str ''GU2'', Str ''GU'']] \<rparr>"

definition t_logistics :: table where
  "t_logistics =
     \<lparr> columns = [''FROM IU CODE'', ''TO IUGU CODE'', ''TRANSPORT CODE'', ''TIME PERIOD'',
                  ''FREIGHT COST'', ''HANDLING COST'', ''QUANTITY MULTIPLIER''],
       rows = [[Str ''IU1'', Str ''GU1'', Str ''T1'', Num 1, Num 5, Num 1, Num 30],
               [Str ''IU1'', Str ''GU1'', Str ''T1'', Num 2, Num 5, Num 1, Num 30],
               [Str ''IU1'', Str ''GU1'', Str ''T3'', Num 1, Num 4, Num 1, Num 10000],
               [Str ''IU1'', Str ''GU2'', Str ''T1'', Num 1, NaN, Num 1, Num 30],
               [Str ''IU1'', Str ''GU2'', Str ''T1'', Num 2, Num 7, Num 1, Num 30],
               [Str ''IU1'', Str ''GU1'', Str ''T9'', Num 1, Num 6, Num 1, Num 30],
               [Str ''IU1'', Str ''GU3'', Str ''T1'', Num 1, NaN, Num 1, Num 30]] \<rparr>"

definition t_demand :: table where
  "t_demand = \<lparr> columns = [''IUGU CODE'', ''TIME PERIOD'', ''DEMAND''],
                rows = [[Str ''IU1'', Num 1, Num 0], [Str ''GU1'', Num 1, Num 200],
                        [Str ''GU2'', Num 1, Num 50]] \<rparr>"

definition t_capacity :: "real \<Rightarrow> table" where
  "t_capacity c = \<lparr> columns = [''IU CODE'', ''TIME PERIOD'', ''CAPACITY''],
                    rows = [[Str ''IU1'', Num 1, Num c]] \<rparr>"

definition t_prodcost :: table where
  "t_prodcost = \<lparr> columns = [''IU CODE'', ''TIME PERIOD'', ''PRODUCTION COST''],
                  rows = [[Str ''IU1'', Num 1, Num 10]] \<rparr>"

definition t_opening :: table where
  "t_opening = \<lparr> columns = [''IUGU CODE'', ''OPENING STOCK''],
                 rows = [[Str ''IU1'', Num 100], [Str ''GU1'', Num 20], [Str ''GU2'', Num 0]] \<rparr>"

definition t_closing :: table where
  "t_closing =
     \<lparr> columns = [''IUGU CODE'', ''TIME PERIOD'', ''MIN CLOSE STOCK'', ''MAX CLOSE STOCK''],
       rows = [[Str ''IU1'', Num 1, Num 50, NaN], [Str ''GU1'', Num 1, Num 30, NaN],
               [Str ''GU1'', Num 2, Num 30, NaN]] \<rparr>"

definition sample_store :: "real \<Rightarrow> (string \<rightharpoonup> table)" where
  "sample_store c =
     [''IUGUType'' \<mapsto> t_type, ''Logistics'' \<mapsto> t_logistics, ''Demand'' \<mapsto> t_demand,
      ''Capacity'' \<mapsto> t_capacity c, ''ProductionCost'' \<mapsto> t_prodcost,
      ''OpeningStock'' \<mapsto> t_opening, ''ClosingStock'' \<mapsto> t_closing]"

definition sample_file :: "real \<Rightarrow> excel_file" where
  "sample_file c =
     [(''IUGUType'', Some t_type), (''Logistics'', Some t_logistics), (''Demand'', Some t_demand),
      (''Capacity'', Some (t_capacity c)), (''ProductionCost'', Some t_prodcost),
      (''OpeningStock'', Some t_opening), (''ClosingStock'', Some t_closing)]"

definition sample_metadata :: metadata where
  "sample_metadata =
     \<lparr> md_plants = Some [Str ''IU1'', Str ''GU1'', Str ''GU2''],
       md_iu_plants = Some [Str ''IU1''],
       md_gu_plants = Some [Str ''GU1'', Str ''GU2''],
       md_all_destinations = Some [Str ''GU1'', Str ''GU2'', Str ''GU3''],
       md_transport_modes = Some [Str ''T1'', Str ''T3'', Str ''T9''],
       md_source_ius = Some [Str ''IU1''],
       md_periods = Some [Num 1, Num 2],
       md_all_sources_count = Some 1,
       md_valid_sources_count = Some 1 \<rparr>"

definition sample_parser :: "real \<Rightarrow> excel_data_parser" where
  "sample_parser c =
     \<lparr> data = sample_store c, metadata = sample_metadata, is_loaded = True, load_errors = [] \<rparr>"

definition no_lib :: pylib where
  "no_lib = \<lparr> py_float = (\<lambda>s. None), pd_to_numeric = (\<lambda>s. None) \<rparr>"


definition sample_app :: "real \<Rightarrow> app" where
  "sample_app c =
     \<lparr> parser = sample_parser c, optimizer = \<lparr> opt_data = sample_store c, opt_is_loaded = True \<rparr> \<rparr>"

definition sample_route :: "real \<Rightarrow> int \<Rightarrow> route_data" where
  "sample_route c p =
     \<lparr> source = ''IU1'', destination = ''GU1'', mode = ''T1'', period = p,
       freight_cost = PyFloat 5, handling_cost = PyFloat 1, quantity_multiplier = PyFloat 30,
       production_cost = (if p = 1 then PyFloat 10 else NOT_AVAILABLE),
       source_capacity = (if p = 1 then PyFloat (round_double c) else NOT_AVAILABLE),
       source_demand = (if p = 1 then PyFloat 0 else NOT_AVAILABLE),
       destination_demand = (if p = 1 then PyFloat 200 else NOT_AVAILABLE),
       min_fulfillment_pct = NOT_AVAILABLE,
       source_opening_stock = PyFloat 100, destination_opening_stock = PyFloat 20,
       source_closing_min = (if p = 1 then PyFloat 50 else NOT_AVAILABLE),
       source_closing_max = NOT_AVAILABLE,
       destination_closing_min = PyFloat 30, destination_closing_max = NOT_AVAILABLE,
       source_type = PyStr ''IU'', destination_type = PyStr ''GU'',
       source_num_sources = NOT_AVAILABLE, destination_num_sources = NOT_AVAILABLE,
       constraints = [] \<rparr>"

text \<open>The sample dataset with a destination demand of \<open>10^19\<close>, as the calculator holds it.\<close>

definition t_demand_large :: table where
  "t_demand_large = \<lparr> columns = [''IUGU CODE'', ''TIME PERIOD'', ''DEMAND''],
                      rows = [[Str ''IU1'', Num 1, Num 0],
                              [Str ''GU1'', Num 1, Num 10000000000000000000]] \<rparr>"

definition large_demand_optimizer :: clinker_optimizer where
  "large_demand_optimizer =
     \<lparr> opt_data = (sample_store 1000)(''Demand'' \<mapsto> t_demand_large), opt_is_loaded = True \<rparr>"

text \<open>
  Two defective candidate sets: an Excel file with the plant-type sheet alone, and a folder
  with every required file whose logistics file has no freight-cost column.
\<close>

definition partial_file :: excel_file where
  "partial_file = [(''IUGUType'', Some t_type)]"

definition t_logistics_no_freight :: table where
  "t_logistics_no_freight =
     \<lparr> columns = [''FROM IU CODE'', ''TO IUGU CODE'', ''TRANSPORT CODE'', ''TIME PERIOD'',
                  ''HANDLING COST'', ''QUANTITY MULTIPLIER''],
       rows = [[Str ''IU1'', Str ''GU1'', Str ''T1'', Num 1, Num 1, Num 30]] \<rparr>"

definition no_freight_folder :: folder where
  "no_freight_folder =
     map_of [(''IUGUType.csv'', Some t_type),
             (''LogisticsIUGU.csv'', Some t_logistics_no_freight),
             (''ClinkerDemand.csv'', Some t_demand),
             (''ClinkerCapacity.csv'', Some (t_capacity 1000)),
             (''ProductionCost.csv'', Some t_prodcost),
             (''IUGUOpeningStock.csv'', Some t_opening),
             (''IUGUClosingStock.csv'', Some t_closing)]"

text \<open>
  An Excel file with the logistics sheet alone, lacking the freight-cost column, and the
  schema entry of that sheet.
\<close>

definition no_freight_file :: excel_file where
  "no_freight_file = [(''Logistics'', Some t_logistics_no_freight)]"

definition logistics_config :: sheet_config where
  "logistics_config =
     \<lparr> cfg_file = ''LogisticsIUGU.csv'',
       cfg_columns = [''FROM IU CODE'', ''TO IUGU CODE'', ''TRANSPORT CODE'', ''TIME PERIOD'',
                      ''FREIGHT COST'', ''HANDLING COST'', ''QUANTITY MULTIPLIER''],
       cfg_required = True \<rparr>"

section \<open>Double-precision lemmas\<close>

lemma binade_bounds:
  assumes "0 < x"
  shows "2 powi binade x \<le> x" and "x < 2 powi (binade x + 1)"
proof -
  have "2 powi binade x \<le> x \<and> x < 2 powi (binade x + 1)"
  proof (cases "1 \<le> x")
    case True
    let ?n = "\<lfloor>x\<rfloor>"
    have n: "0 < ?n" using True by simp
    from bitlen_bounds [OF n] have lo: "2 ^ nat (bitlen ?n - 1) \<le> ?n" and hi: "?n < 2 ^ nat (bitlen ?n)"
      by simp_all
    have b1: "1 \<le> bitlen ?n" using n bitlen_eq_zero_iff [of ?n] bitlen_nonneg [of ?n] by linarith
    have "(2::real) powi (bitlen ?n - 1) = 2 ^ nat (bitlen ?n - 1)"
      using b1 by (simp add: power_int_nonneg_exp)
    also have "\<dots> = of_int (2 ^ nat (bitlen ?n - 1))" by simp
    also have "\<dots> \<le> of_int ?n" using lo by (simp only: of_int_le_iff)
    also have "\<dots> \<le> x" by simp
    finally have 1: "2 powi (bitlen ?n - 1) \<le> x" .
    have "?n + 1 \<le> 2 ^ nat (bitlen ?n)" using hi by simp
    then have "of_int (?n + 1) \<le> (of_int (2 ^ nat (bitlen ?n)) :: real)" by (simp only: of_int_le_iff)
    then have "of_int ?n + 1 \<le> (2::real) ^ nat (bitlen ?n)" by simp
    moreover have "x < of_int ?n + 1" by linarith
    ultimately have "x < (2::real) ^ nat (bitlen ?n)" by linarith
    also have "\<dots> = 2 powi (bitlen ?n)" using b1 by (simp add: power_int_nonneg_exp)
    finally have 2: "x < 2 powi (bitlen ?n - 1 + 1)" by simp
    from 1 2 True show ?thesis by (simp add: binade_def)
  next
    case False
    then have x1: "x < 1" by simp
    let ?n = "\<lceil>1 / x\<rceil>"
    let ?m = "?n - 1"
    let ?k = "bitlen ?m"
    have inv: "1 < 1 / x" using assms x1 by simp
    then have "1 < ?n" by linarith
    then have m: "0 < ?m" by simp
    from bitlen_bounds [OF m] have lo: "2 ^ nat (?k - 1) \<le> ?m" and hi: "?m < 2 ^ nat ?k"
      by simp_all
    have k1: "1 \<le> ?k" using m bitlen_eq_zero_iff [of ?m] bitlen_nonneg [of ?m] by linarith
    have up: "1 / x \<le> of_int ?n" by simp
    have dn: "of_int ?m < 1 / x" by linarith
    have "?n \<le> 2 ^ nat ?k" using hi by simp
    then have "of_int ?n \<le> (of_int (2 ^ nat ?k) :: real)" by (simp only: of_int_le_iff)
    also have "\<dots> = 2 ^ nat ?k" by simp
    finally have "of_int ?n \<le> (2::real) ^ nat ?k" .
    with up have "1 / x \<le> 2 ^ nat ?k" by (rule order_trans)
    then have "1 \<le> 2 ^ nat ?k * x" using assms by (simp add: field_simps)
    then have "1 / 2 ^ nat ?k \<le> x" by (simp add: field_simps)
    moreover have "(2::real) powi (- ?k) = 1 / 2 ^ nat ?k"
      using k1 by (simp add: power_int_minus_divide power_int_nonneg_exp)
    ultimately have 1: "2 powi (- ?k) \<le> x" by simp
    have "(of_int (2 ^ nat (?k - 1)) :: real) \<le> of_int ?m" using lo by (simp only: of_int_le_iff)
    moreover have "(of_int (2 ^ nat (?k - 1)) :: real) = 2 ^ nat (?k - 1)" by simp
    ultimately have "(2::real) ^ nat (?k - 1) \<le> of_int ?m" by (simp only:)
    from this dn have "(2::real) ^ nat (?k - 1) < 1 / x" by (rule le_less_trans)
    then have "2 ^ nat (?k - 1) * x < 1" using assms by (simp add: field_simps)
    then have "x < 1 / 2 ^ nat (?k - 1)" by (simp add: field_simps)
    moreover have "(2::real) powi (- ?k + 1) = 1 / 2 ^ nat (?k - 1)"
    proof -
      have "(2::real) powi (- ?k + 1) = 2 powi (- (?k - 1))" by simp
      also have "\<dots> = 1 / 2 powi (?k - 1)" by (rule power_int_minus_divide)
      also have "\<dots> = 1 / 2 ^ nat (?k - 1)" using k1 by (simp add: power_int_nonneg_exp)
      finally show ?thesis .
    qed
    ultimately have 2: "x < 2 powi (- ?k + 1)" by simp
    from 1 2 False show ?thesis by (simp add: binade_def)
  qed
  then show "2 powi binade x \<le> x" and "x < 2 powi (binade x + 1)" by simp_all
qed

lemma powi_less_cancel: "(2::real) powi a < 2 powi b \<Longrightarrow> a < b"
  using power_int_increasing [of b a "2::real"] by (cases "a < b") simp_all

lemma binade_unique:
  assumes "0 < x" and "2 powi k \<le> x" and "x < 2 powi (k + 1)"
  shows "binade x = k"
proof -
  from binade_bounds [OF assms(1)] assms(2,3)
  have "(2::real) powi k < 2 powi (binade x + 1)" and "(2::real) powi binade x < 2 powi (k + 1)"
    by linarith+
  then have "k < binade x + 1" and "binade x < k + 1" by (auto dest: powi_less_cancel)
  then show ?thesis by simp
qed

lemma binade_mono:
  assumes "0 < x" and "x \<le> y"
  shows "binade x \<le> binade y"
proof -
  have y: "0 < y" using assms by simp
  from binade_bounds(1) [OF assms(1)] binade_bounds(2) [OF y] assms(2)
  have "(2::real) powi binade x < 2 powi (binade y + 1)" by linarith
  then have "binade x < binade y + 1" by (rule powi_less_cancel)
  then show ?thesis by simp
qed


lemma round_half_even_of_int: "round_half_even (of_int n) = n"
  by (simp add: round_half_even_def)

lemma round_half_even_error: "\<bar>of_int (round_half_even y) - y\<bar> \<le> 1 / 2"
proof -
  have "of_int \<lfloor>y\<rfloor> \<le> y" and "y < of_int \<lfloor>y\<rfloor> + 1" by linarith+
  then show ?thesis
    by (auto simp: round_half_even_def Let_def)
qed

lemma round_half_even_unique:
  assumes "\<bar>y - of_int m\<bar> < 1 / 2"
  shows "round_half_even y = m"
proof (cases "of_int m \<le> y")
  case True
  with assms have "\<lfloor>y\<rfloor> = m" by (intro floor_unique) linarith+
  with assms True show ?thesis by (auto simp: round_half_even_def Let_def)
next
  case False
  from assms False have a: "of_int (m - 1) \<le> y" and b: "y < of_int (m - 1) + 1"
    by auto
  then have f: "\<lfloor>y\<rfloor> = m - 1" by (rule floor_unique)
  from assms False have "1 / 2 < y - of_int (m - 1)" by simp
  with f show ?thesis by (auto simp: round_half_even_def Let_def)
qed

lemma round_half_even_bounds:
  "\<lfloor>y\<rfloor> \<le> round_half_even y" "round_half_even y \<le> \<lfloor>y\<rfloor> + 1"
  by (simp_all add: round_half_even_def Let_def)

lemma round_half_even_mono:
  assumes "y1 \<le> y2"
  shows "round_half_even y1 \<le> round_half_even y2"
proof (cases "\<lfloor>y1\<rfloor> = \<lfloor>y2\<rfloor>")
  case True
  with assms show ?thesis by (auto simp: round_half_even_def Let_def)
next
  case False
  with floor_mono [OF assms] have "\<lfloor>y1\<rfloor> + 1 \<le> \<lfloor>y2\<rfloor>" by simp
  with round_half_even_bounds(2) [of y1] round_half_even_bounds(1) [of y2] show ?thesis
    by linarith
qed

lemma round_double_0: "round_double 0 = 0"
  by (simp add: round_double_def)

lemma round_double_pos:
  "0 < x \<Longrightarrow>
   round_double x = of_int (round_half_even (x / 2 powi ulp_exponent x)) * 2 powi ulp_exponent x"
  by (simp add: round_double_def)

lemma round_double_minus: "round_double (- x) = - round_double x"
  by (simp add: round_double_def sgn_minus)

lemma round_double_nonneg:
  assumes "0 \<le> x"
  shows "0 \<le> round_double x"
proof (cases "x = 0")
  case True
  then show ?thesis by (simp add: round_double_0)
next
  case False
  with assms have x: "0 < x" by simp
  have "0 \<le> x / 2 powi ulp_exponent x" using x by simp
  then have "0 \<le> \<lfloor>x / 2 powi ulp_exponent x\<rfloor>" by simp
  with round_half_even_bounds(1) [of "x / 2 powi ulp_exponent x"]
  have "0 \<le> round_half_even (x / 2 powi ulp_exponent x)" by linarith
  then show ?thesis by (simp add: round_double_pos [OF x])
qed

lemma round_double_error:
  assumes "0 < x"
  shows "\<bar>round_double x - x\<bar> \<le> 2 powi ulp_exponent x / 2"
proof -
  let ?u = "(2::real) powi ulp_exponent x"
  have u: "0 < ?u" by simp
  have "round_double x - x = (of_int (round_half_even (x / ?u)) - x / ?u) * ?u"
    using u by (simp add: round_double_pos [OF assms] field_simps)
  then have "\<bar>round_double x - x\<bar> = \<bar>of_int (round_half_even (x / ?u)) - x / ?u\<bar> * ?u"
    using u by (simp add: abs_mult)
  also have "\<dots> \<le> 1 / 2 * ?u"
    using round_half_even_error [of "x / ?u"] u by (intro mult_right_mono) simp_all
  finally show ?thesis by simp
qed

lemma binade_powi: "binade (2 powi k) = k"
  by (rule binade_unique) (simp_all add: power_int_strict_increasing)

lemma round_double_rel_error:
  assumes "2 powi (- 1022) \<le> x"
  shows "\<bar>round_double x - x\<bar> \<le> x / 2 ^ 53"
proof -
  have p: "(0::real) < 2 powi (- 1022)" by simp
  with assms have x: "0 < x" by linarith
  from binade_mono [OF p assms] have b: "- 1022 \<le> binade x" by (simp only: binade_powi)
  then have e: "ulp_exponent x = binade x - 52" by (simp add: ulp_exponent_def)
  have "(2::real) powi (binade x - 52) = 2 powi binade x / 2 powi 52"
    by (rule power_int_diff) simp
  also have "\<dots> \<le> x / 2 powi 52"
    using binade_bounds(1) [OF x] by (intro divide_right_mono) simp_all
  finally have "(2::real) powi ulp_exponent x / 2 \<le> x / 2 powi 52 / 2" unfolding e by simp
  also have "\<dots> = x / 2 ^ 53" by simp
  finally show ?thesis using round_double_error [OF x] by linarith
qed

lemma round_double_upper:
  assumes "0 < x"
  shows "round_double x \<le> 2 powi (max (binade x) (- 1022) + 1)"
proof -
  let ?M = "max (binade x) (- 1022)"
  let ?u = "(2::real) powi (?M - 52)"
  have u: "0 < ?u" by simp
  have "x < 2 powi (binade x + 1)" by (rule binade_bounds(2) [OF assms])
  also have "\<dots> \<le> 2 powi (?M + 1)" by (intro power_int_increasing) simp_all
  also have "\<dots> = 2 powi 53 * ?u"
  proof -
    have "(2::real) powi (53 + (?M - 52)) = 2 powi 53 * ?u" by (rule power_int_add) simp
    then show ?thesis by (simp add: algebra_simps)
  qed
  finally have "x / ?u \<le> 2 powi 53" using u by (simp add: field_simps)
  then have "x / ?u \<le> of_int (2 ^ 53)" by simp
  from round_half_even_mono [OF this]
  have "round_half_even (x / ?u) \<le> 2 ^ 53" by (simp only: round_half_even_of_int)
  then have "(of_int (round_half_even (x / ?u)) :: real) \<le> of_int (2 ^ 53)"
    by (simp only: of_int_le_iff)
  then have "of_int (round_half_even (x / ?u)) * ?u \<le> 2 powi 53 * ?u"
    using u by (intro mult_right_mono) simp_all
  also have "\<dots> = 2 powi (?M + 1)"
  proof -
    have "(2::real) powi (53 + (?M - 52)) = 2 powi 53 * ?u" by (rule power_int_add) simp
    then show ?thesis by (simp add: algebra_simps)
  qed
  finally show ?thesis by (simp add: round_double_pos [OF assms] ulp_exponent_def)
qed

lemma round_double_lower:
  assumes "0 < x" and "- 1022 \<le> binade x"
  shows "2 powi binade x \<le> round_double x"
proof -
  let ?u = "(2::real) powi (binade x - 52)"
  have u: "0 < ?u" by simp
  have e: "ulp_exponent x = binade x - 52" using assms(2) by (simp add: ulp_exponent_def)
  have s: "(2::real) powi binade x = 2 powi 52 * ?u"
  proof -
    have "(2::real) powi (52 + (binade x - 52)) = 2 powi 52 * ?u" by (rule power_int_add) simp
    then show ?thesis by simp
  qed
  have "2 powi 52 * ?u \<le> x" using binade_bounds(1) [OF assms(1)] by (simp only: s)
  then have "of_int (2 ^ 52) \<le> x / ?u" using u by (simp add: field_simps)
  from round_half_even_mono [OF this]
  have "2 ^ 52 \<le> round_half_even (x / ?u)" by (simp only: round_half_even_of_int)
  then have "(of_int (2 ^ 52) :: real) \<le> of_int (round_half_even (x / ?u))"
    by (simp only: of_int_le_iff)
  then have "2 powi 52 * ?u \<le> of_int (round_half_even (x / ?u)) * ?u"
    using u by (intro mult_right_mono) simp_all
  then show ?thesis by (simp add: round_double_pos [OF assms(1)] e s)
qed

lemma round_double_mono_pos:
  assumes "0 < x" and "x \<le> y"
  shows "round_double x \<le> round_double y"
proof -
  have y: "0 < y" using assms by simp
  have b: "binade x \<le> binade y" by (rule binade_mono [OF assms])
  show ?thesis
  proof (cases "ulp_exponent x = ulp_exponent y")
    case True
    let ?u = "(2::real) powi ulp_exponent y"
    have u: "0 < ?u" by simp
    have "x / ?u \<le> y / ?u" using assms(2) u by (simp add: divide_right_mono)
    from round_half_even_mono [OF this]
    have "(of_int (round_half_even (x / ?u)) :: real) \<le> of_int (round_half_even (y / ?u))"
      by (simp only: of_int_le_iff)
    then have "of_int (round_half_even (x / ?u)) * ?u \<le> of_int (round_half_even (y / ?u)) * ?u"
      using u by (intro mult_right_mono) simp_all
    then show ?thesis by (simp add: round_double_pos [OF assms(1)] round_double_pos [OF y] True)
  next
    case False
    with b have lt: "max (binade x) (- 1022) < binade y" and n: "- 1022 \<le> binade y"
      by (auto simp: ulp_exponent_def max_def split: if_splits)
    have "round_double x \<le> 2 powi (max (binade x) (- 1022) + 1)"
      by (rule round_double_upper [OF assms(1)])
    also have "\<dots> \<le> 2 powi binade y"
    proof (rule power_int_increasing)
      show "max (binade x) (- 1022) + 1 \<le> binade y" using lt by linarith
    qed simp
    also have "\<dots> \<le> round_double y" by (rule round_double_lower [OF y n])
    finally show ?thesis .
  qed
qed

lemma round_double_mono:
  assumes "x \<le> y"
  shows "round_double x \<le> round_double y"
proof -
  consider "0 < x" | "x \<le> 0" "0 \<le> y" | "y < 0" by linarith
  then show ?thesis
  proof cases
    case 1
    then show ?thesis by (rule round_double_mono_pos) (rule assms)
  next
    case 2
    have "round_double x = - round_double (- x)" by (simp add: round_double_minus)
    moreover have "0 \<le> round_double (- x)" using 2(1) by (intro round_double_nonneg) simp
    moreover have "0 \<le> round_double y" by (rule round_double_nonneg [OF 2(2)])
    ultimately show ?thesis by linarith
  next
    case 3
    have "round_double (- y) \<le> round_double (- x)"
      using 3 assms by (intro round_double_mono_pos) simp_all
    then show ?thesis by (simp add: round_double_minus)
  qed
qed

lemma round_double_fixed:
  assumes "0 < m" and "ulp_exponent (of_int m * 2 powi e) \<le> e"
  shows "round_double (of_int m * 2 powi e) = of_int m * 2 powi e"
proof -
  let ?v = "of_int m * (2::real) powi e"
  let ?e = "ulp_exponent ?v"
  have v: "0 < ?v" using assms(1) by simp
  have d: "(2::real) powi e / 2 powi ?e = 2 powi (e - ?e)"
    by (rule power_int_diff [symmetric]) simp
  have "(2::real) powi (e - ?e) = 2 ^ nat (e - ?e)"
    using assms(2) by (simp add: power_int_nonneg_exp)
  then have "?v / 2 powi ?e = of_int (m * 2 ^ nat (e - ?e))"
    using d by (simp add: field_simps)
  then have "round_half_even (?v / 2 powi ?e) = m * 2 ^ nat (e - ?e)"
    by (simp only: round_half_even_of_int)
  then have "round_double ?v = of_int (m * 2 ^ nat (e - ?e)) * 2 powi ?e"
    by (simp only: round_double_pos [OF v])
  also have "\<dots> = of_int m * (2 powi (e - ?e) * 2 powi ?e)"
    using assms(2) by (simp add: power_int_nonneg_exp)
  also have "2 powi (e - ?e) * (2::real) powi ?e = 2 powi e"
  proof -
    have "(2::real) powi ((e - ?e) + ?e) = 2 powi (e - ?e) * 2 powi ?e"
      by (rule power_int_add) simp
    then show ?thesis by simp
  qed
  finally show ?thesis .
qed


lemma ulp_exponent_ge: "- 1074 \<le> ulp_exponent x"
  by (simp add: ulp_exponent_def)

lemma mantissa_bounds:
  assumes "0 < x"
  shows "0 \<le> round_half_even (x / 2 powi ulp_exponent x)"
    and "round_half_even (x / 2 powi ulp_exponent x) \<le> 2 ^ 53"
proof -
  let ?M = "max (binade x) (- 1022)"
  let ?u = "(2::real) powi (?M - 52)"
  have u: "0 < ?u" by simp
  have "0 \<le> x / ?u" using assms by simp
  then have "0 \<le> \<lfloor>x / ?u\<rfloor>" by simp
  with round_half_even_bounds(1) [of "x / ?u"]
  have "0 \<le> round_half_even (x / ?u)" by linarith
  then show "0 \<le> round_half_even (x / 2 powi ulp_exponent x)"
    by (simp only: ulp_exponent_def)
  have "x < 2 powi (binade x + 1)" by (rule binade_bounds(2) [OF assms])
  also have "\<dots> \<le> 2 powi (?M + 1)" by (intro power_int_increasing) simp_all
  also have "\<dots> = 2 powi 53 * ?u"
  proof -
    have "(2::real) powi (53 + (?M - 52)) = 2 powi 53 * ?u" by (rule power_int_add) simp
    then show ?thesis by (simp add: algebra_simps)
  qed
  finally have "x / ?u \<le> 2 powi 53" using u by (simp add: field_simps)
  then have "x / ?u \<le> of_int (2 ^ 53)" by simp
  from round_half_even_mono [OF this]
  show "round_half_even (x / 2 powi ulp_exponent x) \<le> 2 ^ 53"
    by (simp only: round_half_even_of_int ulp_exponent_def)
qed

lemma ulp_exponent_less:
  assumes "0 < v" and "v < 2 powi (e + 53)" and "- 1074 \<le> e"
  shows "ulp_exponent v \<le> e"
proof -
  from binade_bounds(1) [OF assms(1)] assms(2) have "(2::real) powi binade v < 2 powi (e + 53)"
    by linarith
  then have "binade v < e + 53" by (rule powi_less_cancel)
  with assms(3) show ?thesis by (simp add: ulp_exponent_def)
qed

lemma round_double_idem_pos:
  assumes "0 < x"
  shows "round_double (round_double x) = round_double x"
proof -
  define e where "e = ulp_exponent x"
  define m where "m = round_half_even (x / 2 powi e)"
  have r: "round_double x = of_int m * 2 powi e"
    unfolding m_def e_def by (rule round_double_pos [OF assms])
  have e: "- 1074 \<le> e" unfolding e_def by (rule ulp_exponent_ge)
  from mantissa_bounds [OF assms] consider "m = 0" | "0 < m" "m < 2 ^ 53" | "m = 2 ^ 53"
    unfolding m_def e_def by linarith
  then show ?thesis
  proof cases
    case 1
    then show ?thesis by (simp add: r round_double_0)
  next
    case 2
    have "of_int m < (of_int (2 ^ 53) :: real)" using 2(2) by (simp only: of_int_less_iff)
    then have "of_int m * (2::real) powi e < 2 powi 53 * 2 powi e"
      by (intro mult_strict_right_mono) simp_all
    also have "\<dots> = 2 powi (e + 53)"
    proof -
      have "(2::real) powi (53 + e) = 2 powi 53 * 2 powi e" by (rule power_int_add) simp
      then show ?thesis by (simp add: algebra_simps)
    qed
    finally have lt: "of_int m * (2::real) powi e < 2 powi (e + 53)" .
    have pos: "0 < of_int m * (2::real) powi e" using 2(1) by simp
    from ulp_exponent_less [OF pos lt e]
    have "round_double (of_int m * 2 powi e) = of_int m * 2 powi e"
      by (rule round_double_fixed [OF 2(1)])
    then show ?thesis by (simp only: r)
  next
    case 3
    have "(2::real) powi (53 + e) = 2 powi 53 * 2 powi e" by (rule power_int_add) simp
    then have v: "round_double x = of_int 1 * 2 powi (e + 53)"
      by (simp add: r 3 algebra_simps)
    have b: "binade (of_int 1 * (2::real) powi (e + 53)) = e + 53" by (simp add: binade_powi)
    have "ulp_exponent (of_int 1 * (2::real) powi (e + 53)) \<le> e + 53"
      unfolding ulp_exponent_def b using e by simp
    then have "round_double (of_int 1 * 2 powi (e + 53)) = of_int 1 * 2 powi (e + 53)"
      by (intro round_double_fixed) simp_all
    then show ?thesis by (simp only: v)
  qed
qed

lemma round_double_idem: "round_double (round_double x) = round_double x"
proof -
  consider "0 < x" | "x = 0" | "x < 0" by linarith
  then show ?thesis
  proof cases
    case 1
    then show ?thesis by (rule round_double_idem_pos)
  next
    case 2
    then show ?thesis by (simp add: round_double_0)
  next
    case 3
    then have "round_double (round_double (- x)) = round_double (- x)"
      by (intro round_double_idem_pos) simp
    then show ?thesis by (simp add: round_double_minus)
  qed
qed

lemma round_double_of_int_pos:
  assumes "0 < n" and "n < 2 ^ 53"
  shows "round_double (of_int n) = of_int n"
proof -
  have "of_int n < (of_int (2 ^ 53) :: real)" using assms(2) by (simp only: of_int_less_iff)
  then have lt: "of_int n * (2::real) powi 0 < 2 powi (0 + 53)" by simp
  have pos: "0 < of_int n * (2::real) powi 0" using assms(1) by simp
  have "ulp_exponent (of_int n * (2::real) powi 0) \<le> 0"
    by (rule ulp_exponent_less [OF pos lt]) simp
  from round_double_fixed [OF assms(1) this] show ?thesis by simp
qed

lemma round_double_of_int:
  assumes "\<bar>n\<bar> < 2 ^ 53"
  shows "round_double (of_int n) = of_int n"
proof -
  consider "0 < n" | "n = 0" | "n < 0" by linarith
  then show ?thesis
  proof cases
    case 1
    with assms show ?thesis by (intro round_double_of_int_pos) simp_all
  next
    case 2
    then show ?thesis by (simp add: round_double_0)
  next
    case 3
    with assms have "round_double (of_int (- n)) = of_int (- n)"
      by (intro round_double_of_int_pos) simp_all
    then show ?thesis by (simp add: round_double_minus)
  qed
qed

lemma round_double_numeral:
  "(numeral w :: int) < 2 ^ 53 \<Longrightarrow> round_double (numeral w) = numeral w"
  using round_double_of_int [of "numeral w"] by simp

lemma round_double_1: "round_double 1 = 1"
  using round_double_of_int [of 1] by simp

lemma round_double_eqI:
  assumes "2 powi k \<le> x" and "x < 2 powi (k + 1)" and "- 1022 \<le> k"
    and "\<bar>x / 2 powi (k - 52) - of_int m\<bar> < 1 / 2"
  shows "round_double x = of_int m * 2 powi (k - 52)"
proof -
  have "(0::real) < 2 powi k" by simp
  with assms(1) have x: "0 < x" by linarith
  have b: "binade x = k" by (rule binade_unique [OF x assms(1,2)])
  have e: "ulp_exponent x = k - 52" using assms(3) by (simp add: ulp_exponent_def b)
  show ?thesis
    by (simp add: round_double_pos [OF x] e round_half_even_unique [OF assms(4)])
qed

lemma ceiling_round_double_bounds:
  fixes x c :: real
  assumes "0 < c" and "c * 2 powi (- 1022) \<le> x"
  shows "x - x / 2 ^ 53 \<le> of_int \<lceil>round_double (x / c)\<rceil> * c"
    and "of_int \<lceil>round_double (x / c)\<rceil> * c - x < c + x / 2 ^ 53"
proof -
  let ?q = "x / c"
  have q: "2 powi (- 1022) \<le> ?q" using assms by (simp add: field_simps)
  from round_double_rel_error [OF q]
  have lo: "?q - ?q / 2 ^ 53 \<le> round_double ?q" and hi: "round_double ?q \<le> ?q + ?q / 2 ^ 53"
    by linarith+
  have "?q - ?q / 2 ^ 53 \<le> of_int \<lceil>round_double ?q\<rceil>" using lo by linarith
  then have "(?q - ?q / 2 ^ 53) * c \<le> of_int \<lceil>round_double ?q\<rceil> * c"
    using assms(1) by (intro mult_right_mono) simp_all
  moreover have "(?q - ?q / 2 ^ 53) * c = x - x / 2 ^ 53"
    using assms(1) by (simp add: field_simps)
  ultimately show "x - x / 2 ^ 53 \<le> of_int \<lceil>round_double (x / c)\<rceil> * c" by simp
  have "of_int \<lceil>round_double ?q\<rceil> < ?q + ?q / 2 ^ 53 + 1" using hi by linarith
  then have "of_int \<lceil>round_double ?q\<rceil> * c < (?q + ?q / 2 ^ 53 + 1) * c"
    using assms(1) by (intro mult_strict_right_mono) simp_all
  moreover have "(?q + ?q / 2 ^ 53 + 1) * c = x + x / 2 ^ 53 + c"
    using assms(1) by (simp add: field_simps)
  ultimately show "of_int \<lceil>round_double (x / c)\<rceil> * c - x < c + x / 2 ^ 53" by simp
qed

lemmas round_double_simps = round_double_0 round_double_1 round_double_numeral round_double_idem

section \<open>Evaluation lemmas\<close>

lemma bind_err_simps:
  "bind_err (Inl e) f = Inl e"
  "bind_err (Inr x) f = f x"
  by (simp_all add: bind_err_def)

lemma bind_err_cong: "m = m' \<Longrightarrow> bind_err m f = bind_err m' f"
  by simp

lemma bind_err_Inr: "bind_err m f = Inr y \<Longrightarrow> \<exists>x. m = Inr x \<and> f x = Inr y"
  by (cases m) (simp_all add: bind_err_def)

lemma field_of_simps:
  "field_of None c = NOT_AVAILABLE"
  "field_of (Some (df, rs)) c = get_value df rs c"
  by (simp_all add: field_of_def)

lemmas table_defs = t_type_def t_logistics_def t_demand_def t_capacity_def t_prodcost_def
  t_opening_def t_closing_def

lemmas lookup_defs = sheet_rows_def lookup_rows_def first_missing_def select_def field_of_simps
  get_value_def get_constraints_def bind_err_simps round_double_simps

lemma sample_store_lookups:
  "sample_store c ''IUGUType'' = Some t_type"
  "sample_store c ''Logistics'' = Some t_logistics"
  "sample_store c ''Demand'' = Some t_demand"
  "sample_store c ''Capacity'' = Some (t_capacity c)"
  "sample_store c ''ProductionCost'' = Some t_prodcost"
  "sample_store c ''OpeningStock'' = Some t_opening"
  "sample_store c ''ClosingStock'' = Some t_closing"
  "sample_store c ''Constraints'' = None"
  "sample_store c ''HubOpeningStock'' = None"
  by (simp_all add: sample_store_def)

lemma sample_get_route:
  "p = 1 \<or> p = 2 \<Longrightarrow>
   get_route_data no_lib (optimizer (sample_app c)) ''IU1'' ''GU1'' ''T1'' p = Inr (sample_route c p)"
  by (auto simp add: get_route_data_def sample_app_def sample_store_lookups table_defs lookup_defs
      sample_route_def cong: bind_err_cong)

lemma sample_calculate:
  "p = 1 \<or> p = 2 \<Longrightarrow>
   calculate_milp_solution no_lib (optimizer (sample_app c)) ''IU1'' ''GU1'' ''T1'' p
     = Inr (milp_solution (sample_route c p))"
  by (simp add: calculate_milp_solution_def sample_get_route)

lemma strip_samples:
  "strip_columns t_type = t_type"
  "strip_columns t_logistics = t_logistics"
  "strip_columns t_demand = t_demand"
  "strip_columns (t_capacity c) = t_capacity c"
  "strip_columns t_prodcost = t_prodcost"
  "strip_columns t_opening = t_opening"
  "strip_columns t_closing = t_closing"
  by (simp_all add: strip_columns_def strip_def is_space_def table_defs)

lemma remove_csv:
  "remove_all ''.csv'' ''IUGUType.csv'' = ''IUGUType''"
  "remove_all ''.csv'' ''LogisticsIUGU.csv'' = ''LogisticsIUGU''"
  "remove_all ''.csv'' ''ClinkerDemand.csv'' = ''ClinkerDemand''"
  "remove_all ''.csv'' ''ClinkerCapacity.csv'' = ''ClinkerCapacity''"
  "remove_all ''.csv'' ''ProductionCost.csv'' = ''ProductionCost''"
  "remove_all ''.csv'' ''IUGUOpeningStock.csv'' = ''IUGUOpeningStock''"
  "remove_all ''.csv'' ''IUGUClosingStock.csv'' = ''IUGUClosingStock''"
  "remove_all ''.csv'' ''IUGUConstraint.csv'' = ''IUGUConstraint''"
  "remove_all ''.csv'' ''HubOpeningStock.csv'' = ''HubOpeningStock''"
  by simp_all

lemma lower_names:
  "lower ''IUGUType'' = ''iugutype''"
  "lower ''Logistics'' = ''logistics''"
  "lower ''LogisticsIUGU'' = ''logisticsiugu''"
  "lower ''Demand'' = ''demand''"
  "lower ''ClinkerDemand'' = ''clinkerdemand''"
  "lower ''Capacity'' = ''capacity''"
  "lower ''ClinkerCapacity'' = ''clinkercapacity''"
  "lower ''ProductionCost'' = ''productioncost''"
  "lower ''OpeningStock'' = ''openingstock''"
  "lower ''IUGUOpeningStock'' = ''iuguopeningstock''"
  "lower ''ClosingStock'' = ''closingstock''"
  "lower ''IUGUClosingStock'' = ''iuguclosingstock''"
  "lower ''Constraints'' = ''constraints''"
  "lower ''IUGUConstraint'' = ''iuguconstraint''"
  "lower ''HubOpeningStock'' = ''hubopeningstock''"
  by (simp_all add: lower_def lower_char_def)

lemma upper_cols:
  "upper ''IUGU CODE'' = ''IUGU CODE''"
  "upper ''PLANT TYPE'' = ''PLANT TYPE''"
  "upper ''FROM IU CODE'' = ''FROM IU CODE''"
  "upper ''TO IUGU CODE'' = ''TO IUGU CODE''"
  "upper ''TRANSPORT CODE'' = ''TRANSPORT CODE''"
  "upper ''TIME PERIOD'' = ''TIME PERIOD''"
  "upper ''FREIGHT COST'' = ''FREIGHT COST''"
  "upper ''HANDLING COST'' = ''HANDLING COST''"
  "upper ''QUANTITY MULTIPLIER'' = ''QUANTITY MULTIPLIER''"
  "upper ''DEMAND'' = ''DEMAND''"
  "upper ''IU CODE'' = ''IU CODE''"
  "upper ''CAPACITY'' = ''CAPACITY''"
  "upper ''PRODUCTION COST'' = ''PRODUCTION COST''"
  "upper ''OPENING STOCK'' = ''OPENING STOCK''"
  "upper ''MIN CLOSE STOCK'' = ''MIN CLOSE STOCK''"
  "upper ''MAX CLOSE STOCK'' = ''MAX CLOSE STOCK''"
  by (simp_all add: upper_def upper_char_def)



lemma sample_missing_cols:
  "missing_cols \<lparr> cfg_file = ''IUGUType.csv'', cfg_columns = [''IUGU CODE'', ''PLANT TYPE''], cfg_required = True \<rparr> t_type = []"
  "missing_cols \<lparr> cfg_file = ''LogisticsIUGU.csv'', cfg_columns = [''FROM IU CODE'', ''TO IUGU CODE'', ''TRANSPORT CODE'', ''TIME PERIOD'', ''FREIGHT COST'', ''HANDLING COST'', ''QUANTITY MULTIPLIER''], cfg_required = True \<rparr> t_logistics = []"
  "missing_cols \<lparr> cfg_file = ''ClinkerDemand.csv'', cfg_columns = [''IUGU CODE'', ''TIME PERIOD'', ''DEMAND''], cfg_required = True \<rparr> t_demand = []"
  "missing_cols \<lparr> cfg_file = ''ClinkerCapacity.csv'', cfg_columns = [''IU CODE'', ''TIME PERIOD'', ''CAPACITY''], cfg_required = True \<rparr> (t_capacity c) = []"
  "missing_cols \<lparr> cfg_file = ''ProductionCost.csv'', cfg_columns = [''IU CODE'', ''TIME PERIOD'', ''PRODUCTION COST''], cfg_required = True \<rparr> t_prodcost = []"
  "missing_cols \<lparr> cfg_file = ''IUGUOpeningStock.csv'', cfg_columns = [''IUGU CODE'', ''OPENING STOCK''], cfg_required = True \<rparr> t_opening = []"
  "missing_cols \<lparr> cfg_file = ''IUGUClosingStock.csv'', cfg_columns = [''IUGU CODE'', ''TIME PERIOD'', ''MIN CLOSE STOCK'', ''MAX CLOSE STOCK''], cfg_required = True \<rparr> t_closing = []"
  by (simp_all add: missing_cols_def upper_cols table_defs)


lemma sample_scan:
  "load_sheets (sample_file c) SHEET_CONFIG (Map.empty, [], [], []) = (sample_store c, [], [], [])"
  by (simp add: SHEET_CONFIG_def sample_file_def scan_sheet_def match_sheet_def lower_names
      remove_csv sample_missing_cols strip_samples sample_store_def)


lemma sample_complete:
  assumes "data p = sample_store c"
  shows "has_complete_data p (Str ''IU1'') (Str ''GU1'') = Inr True"
    and "has_complete_data p (Str ''IU1'') (Str ''GU2'') = Inr False"
    and "has_complete_data p (Str ''IU1'') (Str ''GU3'') = Inr False"
  by (simp_all add: has_complete_data_def assms sample_store_lookups lookup_rows_def
      first_missing_def select_def has_source_rows_def table_defs)

lemma sample_destinations:
  assumes "data p = sample_store c" and "is_loaded p"
  shows "get_destinations_for_source p (Str ''IU1'') = Inr [Str ''GU1'']"
  by (simp add: get_destinations_for_source_def assms sample_store_lookups lookup_rows_def
      first_missing_def select_def unique_def sample_complete [OF assms(1)] t_logistics_def)

lemma sample_modes:
  assumes "data p = sample_store c" and "is_loaded p"
  shows "get_modes_for_route p (Str ''IU1'') (Str ''GU1'') = Inr [Str ''T1'', Str ''T3'', Str ''T9'']"
  by (simp add: get_modes_for_route_def assms sample_store_lookups lookup_rows_def
      first_missing_def select_def unique_def t_logistics_def)

lemma sample_extract_plants:
  "extract_plants (sample_store c) empty_metadata =
     (empty_metadata\<lparr>md_plants := Some [Str ''IU1'', Str ''GU1'', Str ''GU2''],
        md_iu_plants := Some [Str ''IU1''], md_gu_plants := Some [Str ''GU1'', Str ''GU2'']\<rparr>, None)"
  by (simp add: extract_plants_def sample_store_lookups t_type_def col_values_def unique_def
      select_def Let_def)

lemma sample_extract_sources:
  "extract_sources (sample_store c) md =
     (md\<lparr>md_all_destinations := Some [Str ''GU1'', Str ''GU2'', Str ''GU3''],
         md_transport_modes := Some [Str ''T1'', Str ''T3'', Str ''T9''],
         md_source_ius := Some [Str ''IU1'']\<rparr>, None)"
  by (simp add: extract_sources_def sample_store_lookups t_logistics_def col_values_def unique_def
      Let_def)

lemma sample_extract_periods:
  "extract_periods (sample_store c) md = (md\<lparr>md_periods := Some [Num 1, Num 2]\<rparr>, None)"
  by (simp add: extract_periods_def periods_of_def sample_store_lookups t_logistics_def
      col_values_def unique_def)

lemma sample_extract:
  assumes "data p = sample_store c" and "metadata p = empty_metadata" and "is_loaded p"
  shows "extract_metadata p = (p\<lparr>metadata := sample_metadata\<rparr>, None)"
  apply (simp add: extract_metadata_def assms sample_extract_plants sample_extract_sources
      sample_extract_periods filter_sources_with_complete_data_def sample_destinations)
  apply (simp add: sample_metadata_def empty_metadata_def)
  done

lemma sample_load:
  "load_from_excel p (Some (sample_file c)) =
     (sample_parser c,
      Inr \<lparr> res_success = True, res_errors = [], res_metadata = sample_metadata,
            res_sheets_found = [''IUGUType'', ''Logistics'', ''Demand'', ''Capacity'',
                                ''ProductionCost'', ''OpeningStock'', ''ClosingStock''],
            res_sheets_required = [''IUGUType'', ''Logistics'', ''Demand'', ''Capacity'',
                                   ''ProductionCost'', ''OpeningStock'', ''ClosingStock''] \<rparr>)"
proof -
  have req: "map fst required_sheets = [''IUGUType'', ''Logistics'', ''Demand'', ''Capacity'',
                                   ''ProductionCost'', ''OpeningStock'', ''ClosingStock'']"
    by (simp add: required_sheets_def SHEET_CONFIG_def)
  have found: "filter (\<lambda>nm. sample_store c nm \<noteq> None) (map fst SHEET_CONFIG) =
     [''IUGUType'', ''Logistics'', ''Demand'', ''Capacity'',
                                   ''ProductionCost'', ''OpeningStock'', ''ClosingStock'']"
    by (simp add: SHEET_CONFIG_def sample_store_lookups)
  let ?p1 = "\<lparr> data = sample_store c, metadata = empty_metadata, is_loaded = True,
               load_errors = [] \<rparr>"
  have ex: "extract_metadata ?p1 = (sample_parser c, None)"
    using sample_extract [of ?p1 c] by (simp add: sample_parser_def)
  show ?thesis
    by (cases p) (simp add: load_from_excel_def sample_scan scan_errors_def Let_def ex
        excel_result_def sample_parser_def req found [simplified])
qed





section \<open>The calculator\<close>

lemma vehicle_capacity_of_cases: "vehicle_capacity_of md = 30 \<or> vehicle_capacity_of md = 3000"
  by (simp add: vehicle_capacity_of_def TRANSPORT_MODES_def)

lemma vehicle_capacity_of_pos: "0 < vehicle_capacity_of md"
  using vehicle_capacity_of_cases [of md] by auto

lemma calculate_Inr:
  "calculate_milp_solution lib opt src dest md p = Inr sol \<Longrightarrow>
   \<exists>r. get_route_data lib opt src dest md p = Inr r \<and> sol = milp_solution r"
  by (auto simp: calculate_milp_solution_def split: sum.splits)

lemma milp_fields:
  "route (milp_solution r) = r"
  "vehicle_capacity (milp_solution r) = vehicle_capacity_of (mode r)"
  "required_shipment (milp_solution r) = required_shipment_of r"
  "num_trips (milp_solution r) = num_trips_of r"
  "shipment_qty (milp_solution r) = shipment_qty_of r"
  "required_production (milp_solution r) = required_production_of r"
  "production (milp_solution r) = production_of r"
  "capacity_violation (milp_solution r) = capacity_violation_of r"
  "source_ending_inv (milp_solution r) = source_ending_inv_of r"
  "dest_ending_inv (milp_solution r) = dest_ending_inv_of r"
  "is_feasible (milp_solution r) \<longleftrightarrow>
     source_ss_satisfied_of r \<and> dest_ss_satisfied_of r \<and> capacity_violation_of r = 0"
  "issues (milp_solution r) = issues_of r"
  by (simp_all add: milp_solution_def)

lemma num_PyFloat: "num (PyFloat x) d = round_double x"
  by (simp add: num_def NOT_AVAILABLE_def)


lemmas float_simps = float_add_def float_sub_def float_div_def round_double_simps

lemma num_NOT_AVAILABLE: "num NOT_AVAILABLE d = d"
  by (simp add: num_def)

text \<open>The values of the sample route in period 1.\<close>

lemma sample_shipment:
  "required_shipment_of (sample_route c 1) = 210"
  "num_trips_of (sample_route c 1) = 7"
  "shipment_qty_of (sample_route c 1) = 210"
  "vehicle_capacity_of (mode (sample_route c 1)) = 30"
proof -
  show v: "vehicle_capacity_of (mode (sample_route c 1)) = 30"
    by (simp add: sample_route_def vehicle_capacity_of_def TRANSPORT_MODES_def)
  show q: "required_shipment_of (sample_route c 1) = 210"
    by (simp add: required_shipment_of_def min_shipment_needed_def sample_route_def num_PyFloat float_simps)
  show t: "num_trips_of (sample_route c 1) = 7"
    by (simp add: num_trips_of_def q v float_simps)
  show "shipment_qty_of (sample_route c 1) = 210"
    by (simp add: shipment_qty_of_def q v t)
qed






text \<open>The route to \<open>GU2\<close> in period 2 needs no shipment.\<close>

lemma sample_get_route_GU2:
  "get_route_data no_lib (optimizer (sample_app c)) ''IU1'' ''GU2'' ''T1'' 2
     = Inr ((sample_route c 2)\<lparr>destination := ''GU2'', freight_cost := PyFloat 7,
              destination_opening_stock := PyFloat 0, destination_closing_min := NOT_AVAILABLE\<rparr>)"
  by (simp add: get_route_data_def sample_app_def sample_store_lookups table_defs lookup_defs
      sample_route_def cong: bind_err_cong)

lemma sample_no_shipment:
  "required_shipment_of ((sample_route c 2)\<lparr>destination := ''GU2'', freight_cost := PyFloat 7,
       destination_opening_stock := PyFloat 0, destination_closing_min := NOT_AVAILABLE\<rparr>) = 0"
  by (simp add: required_shipment_of_def min_shipment_needed_def sample_route_def num_PyFloat float_simps
      num_NOT_AVAILABLE)

lemma required_shipment_nonneg: "0 \<le> required_shipment_of r"
  by (simp add: required_shipment_of_def)

lemma required_shipment_double: "round_double (required_shipment_of r) = required_shipment_of r"
  by (simp add: required_shipment_of_def min_shipment_needed_def float_sub_def max_def
      round_double_idem round_double_0)

lemma shipment_qty_trips: "shipment_qty_of r = num_trips_of r * vehicle_capacity_of (mode r)"
  by (simp add: shipment_qty_of_def num_trips_of_def)

lemma num_trips_zero: "required_shipment_of r = 0 \<Longrightarrow> num_trips_of r = 0"
  by (simp add: num_trips_of_def)

lemma num_trips_ceiling:
  "num_trips_of r =
     (if required_shipment_of r > 0
      then \<lceil>float_div (required_shipment_of r) (of_int (vehicle_capacity_of (mode r)))\<rceil>
      else 0)"
  using vehicle_capacity_of_pos [of "mode r"] by (simp add: num_trips_of_def)

lemma num_trips_nonneg: "0 \<le> num_trips_of r"
proof (cases "required_shipment_of r > 0")
  case True
  then have "0 \<le> required_shipment_of r / of_int (vehicle_capacity_of (mode r))"
    using vehicle_capacity_of_pos [of "mode r"] by simp
  from round_double_nonneg [OF this] True show ?thesis
    by (simp add: num_trips_ceiling float_div_def)
next
  case False
  then show ?thesis by (simp add: num_trips_ceiling)
qed

text \<open>
  The ceiling of the rounded quotient against the exact quotient: no more than one above it
  when the quotient is below \<open>2^53\<close>, and not below it when moreover the dividend is a double
  and the quotient is in the normal range.
\<close>

lemma ceiling_quotient_upper:
  fixes x :: real and c :: int
  assumes "0 < c" and "0 < x" and "x < 2 ^ 53"
  shows "of_int (\<lceil>round_double (x / of_int c)\<rceil> * c) - x < of_int c"
proof -
  let ?q = "x / real_of_int c"
  let ?n = "\<lceil>?q\<rceil>"
  have c: "(0::real) < of_int c" and c1: "(1::real) \<le> of_int c" using assms(1) by simp_all
  have q0: "0 < ?q" using assms(2) c by simp
  have "?q \<le> x / 1" using c1 assms(2) by (intro divide_left_mono) simp_all
  then have qx: "?q \<le> x" by simp
  then have "?q \<le> of_int (2 ^ 53)" using assms(3) by simp
  then have n53: "?n \<le> 2 ^ 53" by (simp only: ceiling_le_iff)
  have n0: "0 < ?n" using q0 by simp
  have "round_double (of_int ?n) = of_int ?n"
  proof (cases "?n = 2 ^ 53")
    case True
    have "ulp_exponent (of_int 1 * (2::real) powi 53) \<le> 53"
      unfolding ulp_exponent_def of_int_1 mult_1 binade_powi by simp
    then have "round_double (of_int 1 * 2 powi 53) = of_int 1 * 2 powi 53"
      by (intro round_double_fixed) simp_all
    then show ?thesis by (simp add: True)
  next
    case False
    with n53 n0 have "\<bar>?n\<bar> < 2 ^ 53" by linarith
    then show ?thesis by (rule round_double_of_int)
  qed
  moreover have "round_double ?q \<le> round_double (of_int ?n)"
    by (rule round_double_mono) (rule le_of_int_ceiling)
  ultimately have "round_double ?q \<le> of_int ?n" by simp
  then have "\<lceil>round_double ?q\<rceil> \<le> ?n" by (simp only: ceiling_le_iff)
  then have "real_of_int \<lceil>round_double ?q\<rceil> \<le> of_int ?n" by (simp only: of_int_le_iff)
  moreover have "of_int ?n < ?q + 1" by linarith
  ultimately have "real_of_int \<lceil>round_double ?q\<rceil> < ?q + 1" by linarith
  then have "real_of_int \<lceil>round_double ?q\<rceil> * of_int c < (?q + 1) * of_int c"
    using c by (intro mult_strict_right_mono) simp_all
  moreover have "(?q + 1) * of_int c = x + of_int c" using c by (simp add: field_simps)
  ultimately show ?thesis by simp
qed

lemma ceiling_quotient_lower:
  fixes x :: real and c :: int
  assumes d: "round_double x = x" and c0: "0 < c"
    and lo: "of_int c * 2 powi (- 1022) \<le> x" and hi: "x < 2 ^ 53"
  shows "x \<le> of_int (\<lceil>round_double (x / of_int c)\<rceil> * c)"
proof (rule ccontr)
  let ?q = "x / real_of_int c"
  let ?t = "\<lceil>round_double ?q\<rceil>"
  assume "\<not> x \<le> of_int (?t * c)"
  then have less: "real_of_int ?t * of_int c < x" by simp
  have c: "(0::real) < of_int c" and c1: "(1::real) \<le> of_int c" using c0 by simp_all
  have p: "(0::real) < 2 powi (- 1022)" by simp
  have "(2::real) powi (- 1022) * 1 \<le> 2 powi (- 1022) * of_int c"
    using c1 by (intro mult_left_mono) simp_all
  with lo have x1022: "2 powi (- 1022) \<le> x" by (simp add: mult.commute)
  with p have x0: "0 < x" by linarith
  have qlo: "2 powi (- 1022) \<le> ?q" using lo c by (simp add: field_simps)
  then have q0: "0 < ?q" using p by linarith
  have "?q \<le> x / 1" using c1 x0 by (intro divide_left_mono) simp_all
  then have qx: "?q \<le> x" by simp
  have tq: "real_of_int ?t < ?q" using less c by (simp add: field_simps)
  have rt: "round_double ?q \<le> of_int ?t" by (rule le_of_int_ceiling)
  have "0 \<le> round_double ?q" using q0 by (intro round_double_nonneg) simp
  then have t0: "0 \<le> ?t" by simp
  have "real_of_int ?t < 2 ^ 53" using tq qx hi by linarith
  moreover have "(2::real) ^ 53 = of_int (2 ^ 53)" by simp
  ultimately have "real_of_int ?t < of_int (2 ^ 53)" by (simp only:)
  then have "?t < 2 ^ 53" by (simp only: of_int_less_iff)
  with t0 have "\<bar>?t\<bar> < 2 ^ 53" by linarith
  then have "round_double (of_int ?t) = of_int ?t" by (rule round_double_of_int)
  moreover have "round_double (of_int ?t) \<le> round_double ?q"
    using tq by (intro round_double_mono) simp
  ultimately have eq: "round_double ?q = of_int ?t" using rt by linarith
  from round_double_rel_error [OF qlo] eq have "?q - of_int ?t \<le> ?q / 2 ^ 53"
    by linarith
  then have "(?q - of_int ?t) * of_int c \<le> ?q / 2 ^ 53 * of_int c"
    using c by (intro mult_right_mono) simp_all
  moreover have "(?q - of_int ?t) * of_int c = x - of_int ?t * of_int c"
    using c by (simp add: field_simps)
  moreover have "?q / 2 ^ 53 * of_int c = x / 2 ^ 53" using c by (simp add: field_simps)
  ultimately have gap: "x - of_int ?t * of_int c \<le> x / 2 ^ 53" by simp
  define e where "e = ulp_exponent x"
  define m where "m = round_half_even (x / 2 powi e)"
  have b0: "- 1022 \<le> binade x" using binade_mono [OF p x1022] by (simp only: binade_powi)
  have "(2::real) powi binade x < 2 powi 53" using binade_bounds(1) [OF x0] hi by simp
  then have b1: "binade x < 53" by (rule powi_less_cancel)
  have e: "e = binade x - 52" using b0 by (simp add: e_def ulp_exponent_def)
  have e0: "e \<le> 0" using b1 e by simp
  have xm: "x = of_int m * 2 powi e"
    using d round_double_pos [OF x0] by (simp add: m_def e_def)
  have pw: "(2::real) powi e * 2 ^ nat (- e) = 1"
  proof -
    have "(2::real) powi (e + (- e)) = 2 powi e * 2 powi (- e)" by (rule power_int_add) simp
    moreover have "(2::real) powi (- e) = 2 ^ nat (- e)"
      using e0 by (simp add: power_int_nonneg_exp)
    ultimately show ?thesis by simp
  qed
  have "x - of_int ?t * of_int c = of_int (m - ?t * c * 2 ^ nat (- e)) * 2 powi e"
  proof -
    have "of_int (m - ?t * c * 2 ^ nat (- e)) * (2::real) powi e
            = of_int m * 2 powi e - of_int ?t * of_int c * (2 powi e * 2 ^ nat (- e))"
      by (simp add: algebra_simps)
    then show ?thesis by (simp only: pw xm [symmetric])
  qed
  moreover have "0 < x - of_int ?t * of_int c" using less by simp
  ultimately have "0 < real_of_int (m - ?t * c * 2 ^ nat (- e)) * 2 powi e" by simp
  then have "0 < real_of_int (m - ?t * c * 2 ^ nat (- e))"
    by (rule zero_less_mult_pos2) simp
  then have "0 < m - ?t * c * 2 ^ nat (- e)" by (simp only: of_int_0_less_iff)
  then have "1 \<le> m - ?t * c * 2 ^ nat (- e)" by linarith
  then have "(1::real) \<le> of_int (m - ?t * c * 2 ^ nat (- e))" by (simp only: of_int_1_le_iff)
  then have "1 * (2::real) powi e \<le> of_int (m - ?t * c * 2 ^ nat (- e)) * 2 powi e"
    by (intro mult_right_mono) simp_all
  with \<open>x - of_int ?t * of_int c = of_int (m - ?t * c * 2 ^ nat (- e)) * 2 powi e\<close>
  have big: "2 powi e \<le> x - of_int ?t * of_int c" by simp
  have "x / 2 ^ 53 < 2 powi (binade x + 1) / 2 ^ 53"
    using binade_bounds(2) [OF x0] by (intro divide_strict_right_mono) simp_all
  also have "\<dots> = 2 powi e"
  proof -
    have "(2::real) powi (binade x + 1 - 53) = 2 powi (binade x + 1) / 2 powi 53"
      by (rule power_int_diff) simp
    then show ?thesis by (simp add: e)
  qed
  finally have "x / 2 ^ 53 < 2 powi e" .
  with gap big show False by linarith
qed

lemma milp_trip_rounding:
  assumes "required_shipment_of r < 2 ^ 53"
  shows "real_of_int (shipment_qty_of r) - required_shipment_of r
           < real_of_int (vehicle_capacity_of (mode r))"
    and "of_int (vehicle_capacity_of (mode r)) * 2 powi (- 1022) \<le> required_shipment_of r
           \<Longrightarrow> real_of_int (shipment_qty_of r) \<ge> required_shipment_of r"
proof -
  let ?q = "required_shipment_of r"
  let ?c = "vehicle_capacity_of (mode r)"
  have pos: "0 < ?c" by (rule vehicle_capacity_of_pos)
  have s: "0 < ?q \<Longrightarrow> shipment_qty_of r = \<lceil>round_double (?q / of_int ?c)\<rceil> * ?c"
    by (simp add: shipment_qty_trips num_trips_ceiling float_div_def)
  show "real_of_int (shipment_qty_of r) - ?q < real_of_int ?c"
  proof (cases "0 < ?q")
    case True
    show ?thesis
      unfolding s [OF True] by (rule ceiling_quotient_upper [OF pos True assms])
  next
    case False
    with required_shipment_nonneg [of r] have "?q = 0" by simp
    then show ?thesis using pos by (simp add: shipment_qty_trips num_trips_zero)
  qed
  assume lo: "of_int ?c * 2 powi (- 1022) \<le> ?q"
  have "(0::real) < of_int ?c * 2 powi (- 1022)" using pos by simp
  with lo have q: "0 < ?q" by linarith
  show "real_of_int (shipment_qty_of r) \<ge> ?q"
    unfolding s [OF q] by (rule ceiling_quotient_lower [OF required_shipment_double pos lo assms])
qed

lemma milp_trip_rounding_general:
  assumes "of_int (vehicle_capacity_of (mode r)) * 2 powi (- 1022) \<le> required_shipment_of r"
  shows "real_of_int (shipment_qty_of r) \<ge> required_shipment_of r - required_shipment_of r / 2 ^ 53"
    and "real_of_int (shipment_qty_of r) - required_shipment_of r
           < real_of_int (vehicle_capacity_of (mode r)) + required_shipment_of r / 2 ^ 53"
proof -
  let ?q = "required_shipment_of r"
  let ?c = "vehicle_capacity_of (mode r)"
  have pos: "(0::real) < of_int ?c" using vehicle_capacity_of_pos [of "mode r"] by simp
  then have "(0::real) < of_int ?c * 2 powi (- 1022)" by simp
  with assms have q: "0 < ?q" by linarith
  have s: "real_of_int (shipment_qty_of r) = of_int \<lceil>round_double (?q / of_int ?c)\<rceil> * of_int ?c"
    using q by (simp add: shipment_qty_trips num_trips_ceiling float_div_def)
  show "real_of_int (shipment_qty_of r) \<ge> ?q - ?q / 2 ^ 53"
    unfolding s using ceiling_round_double_bounds(1) [OF pos assms] by simp
  show "real_of_int (shipment_qty_of r) - ?q < real_of_int ?c + ?q / 2 ^ 53"
    unfolding s by (rule ceiling_round_double_bounds(2) [OF pos assms])
qed

text \<open>The sample route with a destination demand of \<open>10^19\<close>.\<close>

lemma large_get_route:
  "get_route_data no_lib large_demand_optimizer ''IU1'' ''GU1'' ''T1'' 1
     = Inr ((sample_route 1000 1)\<lparr>destination_demand := PyFloat 10000000000000000000\<rparr>)"
proof -
  have "round_double 10000000000000000000 = 10000000000000000000"
    using round_double_eqI [of 63 10000000000000000000 4882812500000000] by simp
  then show ?thesis
    by (simp add: get_route_data_def large_demand_optimizer_def sample_store_lookups table_defs
        t_demand_large_def lookup_defs sample_route_def cong: bind_err_cong)
qed

lemma large_shipment:
  "required_shipment_of ((sample_route 1000 1)\<lparr>destination_demand := PyFloat 10000000000000000000\<rparr>)
     = 10000000000000000000"
  "num_trips_of ((sample_route 1000 1)\<lparr>destination_demand := PyFloat 10000000000000000000\<rparr>)
     = 333333333333333312"
  "shipment_qty_of ((sample_route 1000 1)\<lparr>destination_demand := PyFloat 10000000000000000000\<rparr>)
     = 9999999999999999360"
proof -
  let ?r = "(sample_route 1000 1)\<lparr>destination_demand := PyFloat 10000000000000000000\<rparr>"
  have r0: "round_double 10000000000000000000 = 10000000000000000000"
    using round_double_eqI [of 63 10000000000000000000 4882812500000000] by simp
  have r1: "round_double 10000000000000000030 = 10000000000000000000"
    using round_double_eqI [of 63 10000000000000000030 4882812500000000] by simp
  have r2: "round_double 9999999999999999980 = 10000000000000000000"
    using round_double_eqI [of 63 9999999999999999980 4882812500000000] by simp
  have r3: "round_double (10000000000000000000 / 30) = 333333333333333312"
    using round_double_eqI [of 58 "10000000000000000000 / 30" 5208333333333333] by simp
  have v: "vehicle_capacity_of (mode ?r) = 30"
    by (simp add: sample_route_def vehicle_capacity_of_def TRANSPORT_MODES_def)
  have a: "float_add (num (destination_closing_min ?r) 0) (num (destination_demand ?r) 0)
             = 10000000000000000000"
    by (simp add: sample_route_def num_PyFloat float_add_def round_double_simps r0 r1)
  have b: "num (destination_opening_stock ?r) 0 = 20"
    by (simp add: sample_route_def num_PyFloat round_double_simps)
  show q: "required_shipment_of ?r = 10000000000000000000"
    unfolding required_shipment_of_def min_shipment_needed_def a b
    by (simp add: float_sub_def r2)
  have "float_div (required_shipment_of ?r) (of_int (vehicle_capacity_of (mode ?r)))
          = 333333333333333312"
    unfolding q v float_div_def using r3 by simp
  then show t: "num_trips_of ?r = 333333333333333312"
    by (simp add: num_trips_ceiling q)
  show "shipment_qty_of ?r = 9999999999999999360"
    by (simp add: shipment_qty_trips t sample_shipment)
qed

text \<open>
  Claim C6, as stated, fails: with a destination demand of \<open>10^19\<close> on the sample route the
  required shipment is \<open>10^19\<close>, the double nearest to \<open>10^19 / 30\<close> is 333333333333333312,
  which is the trip count, and the shipment of 9999999999999999360 is below the required
  shipment.
\<close>

theorem large_demand_counterexample:
  "calculate_milp_solution no_lib large_demand_optimizer ''IU1'' ''GU1'' ''T1'' 1
     = Inr (milp_solution ((sample_route 1000 1)\<lparr>destination_demand := PyFloat 10000000000000000000\<rparr>))
   \<and> required_shipment
       (milp_solution ((sample_route 1000 1)\<lparr>destination_demand := PyFloat 10000000000000000000\<rparr>))
       = 10000000000000000000
   \<and> vehicle_capacity
       (milp_solution ((sample_route 1000 1)\<lparr>destination_demand := PyFloat 10000000000000000000\<rparr>))
       = 30
   \<and> num_trips
       (milp_solution ((sample_route 1000 1)\<lparr>destination_demand := PyFloat 10000000000000000000\<rparr>))
       = 333333333333333312
   \<and> shipment_qty
       (milp_solution ((sample_route 1000 1)\<lparr>destination_demand := PyFloat 10000000000000000000\<rparr>))
       = 9999999999999999360
   \<and> real_of_int (shipment_qty
       (milp_solution ((sample_route 1000 1)\<lparr>destination_demand := PyFloat 10000000000000000000\<rparr>)))
       < required_shipment
           (milp_solution ((sample_route 1000 1)\<lparr>destination_demand := PyFloat 10000000000000000000\<rparr>))"
  by (simp add: calculate_milp_solution_def large_get_route milp_fields large_shipment
      sample_shipment)

text \<open>
  Claim C6, amended. In every result of the calculator the vehicle capacity is positive, the
  shipment quantity is the trip count times the vehicle capacity, the trip count is the
  ceiling of the double-precision quotient of the required shipment by the vehicle capacity,
  and a required shipment of 0 gives 0 trips and a shipment of 0. When the required shipment
  is below \<open>2^53\<close>, the shipment quantity exceeds it by less than one vehicle capacity, and
  when it is moreover at least the vehicle capacity times \<open>2^-1022\<close>, the shipment quantity is
  at least the required shipment. For any required shipment of at least the vehicle capacity
  times \<open>2^-1022\<close> the two bounds hold up to the rounding of the division, the fraction
  \<open>2^-53\<close> of the required shipment. (The numbers are the values the calculator computes,
  before the display rounding.)
\<close>

theorem trip_rounding:
  assumes "calculate_milp_solution lib opt src dest md p = Inr sol"
  shows "0 < vehicle_capacity sol
       \<and> shipment_qty sol = num_trips sol * vehicle_capacity sol
       \<and> num_trips sol =
           (if required_shipment sol > 0
            then \<lceil>float_div (required_shipment sol) (of_int (vehicle_capacity sol))\<rceil> else 0)
       \<and> (required_shipment sol = 0 \<longrightarrow> num_trips sol = 0 \<and> shipment_qty sol = 0)
       \<and> (required_shipment sol < 2 ^ 53
            \<longrightarrow> real_of_int (shipment_qty sol) - required_shipment sol
                  < real_of_int (vehicle_capacity sol))
       \<and> (of_int (vehicle_capacity sol) * 2 powi (- 1022) \<le> required_shipment sol
            \<longrightarrow> required_shipment sol < 2 ^ 53
            \<longrightarrow> real_of_int (shipment_qty sol) \<ge> required_shipment sol)
       \<and> (of_int (vehicle_capacity sol) * 2 powi (- 1022) \<le> required_shipment sol
            \<longrightarrow> real_of_int (shipment_qty sol)
                  \<ge> required_shipment sol - required_shipment sol / 2 ^ 53
              \<and> real_of_int (shipment_qty sol) - required_shipment sol
                  < real_of_int (vehicle_capacity sol) + required_shipment sol / 2 ^ 53)"
proof -
  from calculate_Inr [OF assms] obtain r where sol: "sol = milp_solution r" by blast
  show ?thesis
    unfolding sol milp_fields
    using milp_trip_rounding [of r] milp_trip_rounding_general [of r]
      vehicle_capacity_of_pos [of "mode r"] shipment_qty_trips [of r] num_trips_zero [of r]
      num_trips_ceiling [of r]
    by simp
qed

theorem trip_rounding_witness:
  "calculate_milp_solution no_lib (optimizer (sample_app 1000)) ''IU1'' ''GU1'' ''T1'' 1
     = Inr (milp_solution (sample_route 1000 1))
   \<and> vehicle_capacity (milp_solution (sample_route 1000 1)) = 30
   \<and> required_shipment (milp_solution (sample_route 1000 1)) = 210
   \<and> 30 * 2 powi (- 1022) \<le> (210::real) \<and> (210::real) < 2 ^ 53
   \<and> num_trips (milp_solution (sample_route 1000 1)) = 7
   \<and> shipment_qty (milp_solution (sample_route 1000 1)) = 7 * 30
   \<and> real_of_int (shipment_qty (milp_solution (sample_route 1000 1)))
       \<ge> required_shipment (milp_solution (sample_route 1000 1))
   \<and> real_of_int (shipment_qty (milp_solution (sample_route 1000 1)))
       - required_shipment (milp_solution (sample_route 1000 1)) < 30
   \<and> calculate_milp_solution no_lib (optimizer (sample_app 1000)) ''IU1'' ''GU2'' ''T1'' 2
       = Inr (milp_solution ((sample_route 1000 2)\<lparr>destination := ''GU2'',
                freight_cost := PyFloat 7, destination_opening_stock := PyFloat 0,
                destination_closing_min := NOT_AVAILABLE\<rparr>))
   \<and> required_shipment (milp_solution ((sample_route 1000 2)\<lparr>destination := ''GU2'',
         freight_cost := PyFloat 7, destination_opening_stock := PyFloat 0,
         destination_closing_min := NOT_AVAILABLE\<rparr>)) = 0
   \<and> num_trips (milp_solution ((sample_route 1000 2)\<lparr>destination := ''GU2'',
         freight_cost := PyFloat 7, destination_opening_stock := PyFloat 0,
         destination_closing_min := NOT_AVAILABLE\<rparr>)) = 0
   \<and> shipment_qty (milp_solution ((sample_route 1000 2)\<lparr>destination := ''GU2'',
         freight_cost := PyFloat 7, destination_opening_stock := PyFloat 0,
         destination_closing_min := NOT_AVAILABLE\<rparr>)) = 0
   \<and> calculate_milp_solution no_lib large_demand_optimizer ''IU1'' ''GU1'' ''T1'' 1
       = Inr (milp_solution ((sample_route 1000 1)\<lparr>destination_demand := PyFloat 10000000000000000000\<rparr>))
   \<and> 30 * 2 powi (- 1022) \<le> (10000000000000000000::real)
   \<and> (9999999999999999360::real) \<ge> 10000000000000000000 - 10000000000000000000 / 2 ^ 53
   \<and> (9999999999999999360::real) - 10000000000000000000 < 30 + 10000000000000000000 / 2 ^ 53"
proof -
  let ?r0 = "(sample_route 1000 2)\<lparr>destination := ''GU2'', freight_cost := PyFloat 7,
               destination_opening_stock := PyFloat 0, destination_closing_min := NOT_AVAILABLE\<rparr>"
  let ?r1 = "(sample_route 1000 1)\<lparr>destination_demand := PyFloat 10000000000000000000\<rparr>"
  have h: "calculate_milp_solution no_lib (optimizer (sample_app 1000)) ''IU1'' ''GU1'' ''T1'' 1
             = Inr (milp_solution (sample_route 1000 1))"
    by (simp add: sample_calculate)
  have h0: "calculate_milp_solution no_lib (optimizer (sample_app 1000)) ''IU1'' ''GU2'' ''T1'' 2
             = Inr (milp_solution ?r0)"
    by (simp add: calculate_milp_solution_def sample_get_route_GU2)
  have h1: "calculate_milp_solution no_lib large_demand_optimizer ''IU1'' ''GU1'' ''T1'' 1
             = Inr (milp_solution ?r1)"
    by (simp add: calculate_milp_solution_def large_get_route)
  have z: "required_shipment (milp_solution ?r0) = 0"
    unfolding milp_fields by (rule sample_no_shipment)
  from trip_rounding [OF h0] z
  have z': "num_trips (milp_solution ?r0) = 0 \<and> shipment_qty (milp_solution ?r0) = 0"
    by blast
  have lo: "30 * 2 powi (- 1022) \<le> (210::real)"
  proof -
    have "(2::real) powi (- 1022) \<le> 2 powi 0" by (intro power_int_increasing) simp_all
    then show ?thesis by simp
  qed
  have lo1: "30 * 2 powi (- 1022) \<le> (10000000000000000000::real)"
  proof -
    have "(2::real) powi (- 1022) \<le> 2 powi 0" by (intro power_int_increasing) simp_all
    then show ?thesis by simp
  qed
  have f: "vehicle_capacity (milp_solution (sample_route 1000 1)) = 30"
    "required_shipment (milp_solution (sample_route 1000 1)) = 210"
    "num_trips (milp_solution (sample_route 1000 1)) = 7"
    "shipment_qty (milp_solution (sample_route 1000 1)) = 7 * 30"
    by (simp_all add: milp_fields sample_shipment)
  have a: "real_of_int (shipment_qty (milp_solution (sample_route 1000 1)))
       \<ge> required_shipment (milp_solution (sample_route 1000 1))
   \<and> real_of_int (shipment_qty (milp_solution (sample_route 1000 1)))
       - required_shipment (milp_solution (sample_route 1000 1)) < 30"
    using trip_rounding [OF h] lo by (simp add: f)
  have g: "vehicle_capacity (milp_solution ?r1) = 30"
    "required_shipment (milp_solution ?r1) = 10000000000000000000"
    "shipment_qty (milp_solution ?r1) = 9999999999999999360"
    by (simp_all add: milp_fields large_shipment sample_shipment)
  have b: "(9999999999999999360::real) \<ge> 10000000000000000000 - 10000000000000000000 / 2 ^ 53
   \<and> (9999999999999999360::real) - 10000000000000000000 < 30 + 10000000000000000000 / 2 ^ 53"
    using trip_rounding [OF h1] lo1 by (simp add: g)
  from h h0 h1 z z' lo lo1 f a b show ?thesis by simp
qed



lemma required_shipment_mono:
  assumes "destination_demand r = PyFloat d1" and "d1 \<le> d2"
  shows "required_shipment_of r \<le> required_shipment_of (r\<lparr>destination_demand := PyFloat d2\<rparr>)"
proof -
  let ?a = "num (destination_closing_min r) 0"
  let ?b = "num (destination_opening_stock r) 0"
  have "round_double d1 \<le> round_double d2" by (rule round_double_mono [OF assms(2)])
  then have "float_add ?a (round_double d1) \<le> float_add ?a (round_double d2)"
    unfolding float_add_def by (intro round_double_mono) simp
  then have "float_sub (float_add ?a (round_double d1)) ?b
               \<le> float_sub (float_add ?a (round_double d2)) ?b"
    unfolding float_sub_def by (intro round_double_mono) simp
  then have "max 0 (float_sub (float_add ?a (round_double d1)) ?b)
               \<le> max 0 (float_sub (float_add ?a (round_double d2)) ?b)"
    by (intro max.mono) simp_all
  then show ?thesis
    using assms(1) by (simp add: required_shipment_of_def min_shipment_needed_def num_PyFloat)
qed

lemma num_trips_mono:
  assumes "mode r2 = mode r1" and "required_shipment_of r1 \<le> required_shipment_of r2"
  shows "num_trips_of r1 \<le> num_trips_of r2"
proof (cases "required_shipment_of r1 > 0")
  case True
  let ?c = "vehicle_capacity_of (mode r1)"
  have pos: "(0::real) < of_int ?c" using vehicle_capacity_of_pos [of "mode r1"] by simp
  from True assms(2) have 2: "required_shipment_of r2 > 0" by simp
  have "required_shipment_of r1 / of_int ?c \<le> required_shipment_of r2 / of_int ?c"
    using assms(2) pos by (simp add: divide_right_mono)
  then have "round_double (required_shipment_of r1 / of_int ?c)
               \<le> round_double (required_shipment_of r2 / of_int ?c)"
    by (rule round_double_mono)
  then show ?thesis
    using True 2 assms(1) by (simp add: num_trips_ceiling float_div_def ceiling_mono)
next
  case False
  then have "num_trips_of r1 = 0" by (simp add: num_trips_ceiling)
  with num_trips_nonneg [of r2] show ?thesis by simp
qed

text \<open>
  Claim C8. With every other input of the calculator held fixed, raising the destination
  demand from \<open>d1\<close> to \<open>d2 \<ge> d1\<close> lowers neither the required shipment nor the trip count.
\<close>

theorem demand_monotone:
  assumes "destination_demand r = PyFloat d1" and "d1 \<le> d2"
  shows "required_shipment (milp_solution r)
           \<le> required_shipment (milp_solution (r\<lparr>destination_demand := PyFloat d2\<rparr>))
       \<and> num_trips (milp_solution r)
           \<le> num_trips (milp_solution (r\<lparr>destination_demand := PyFloat d2\<rparr>))"
  unfolding milp_fields
  using required_shipment_mono [OF assms]
    num_trips_mono [of "r\<lparr>destination_demand := PyFloat d2\<rparr>" r]
  by simp

theorem demand_monotone_witness:
  "destination_demand (sample_route 1000 1) = PyFloat 200 \<and> (200::real) \<le> 230
   \<and> required_shipment (milp_solution (sample_route 1000 1)) = 210
   \<and> required_shipment (milp_solution (sample_route 1000 1))
       \<le> required_shipment
            (milp_solution ((sample_route 1000 1)\<lparr>destination_demand := PyFloat 230\<rparr>))
   \<and> num_trips (milp_solution (sample_route 1000 1))
       \<le> num_trips (milp_solution ((sample_route 1000 1)\<lparr>destination_demand := PyFloat 230\<rparr>))"
proof -
  have h: "destination_demand (sample_route 1000 1) = PyFloat 200"
    by (simp add: sample_route_def)
  have le: "(200::real) \<le> 230" by simp
  show ?thesis
    using h le demand_monotone [OF h le] by (simp add: milp_fields sample_shipment)
qed





section \<open>Selections and routes\<close>

subsection \<open>Validation\<close>

lemma check_period_falsy:
  "check_period p (Some 0) v = v"
  "check_period p None v = v"
  by (simp_all add: check_period_def truthy_int_def)

lemma check_period_truthy:
  "k \<noteq> 0 \<Longrightarrow>
   check_period p (Some k) v =
     (if py_in (Num (of_int k)) (metadata_get (md_periods (metadata p))) then v
      else add_error (PeriodNotFound k) v)"
  by (simp add: check_period_def truthy_int_def)

lemma validate_selection_period:
  "is_loaded p \<Longrightarrow>
   validate_selection p src dst md k =
     (case validate_selection p src dst md None of
        Inl e \<Rightarrow> Inl e
      | Inr v \<Rightarrow> Inr (check_period p k v))"
  by (simp add: validate_selection_def bind_err_def check_period_falsy split: sum.splits)

lemma add_error_simps:
  "val_errors (add_error e v) = val_errors v @ [e]"
  "val_valid (add_error e v) = False"
  by (simp_all add: add_error_def)

lemma check_source_keeps:
  assumes "val_valid v \<longleftrightarrow> val_errors v = []" and "\<forall>k. PeriodNotFound k \<notin> set (val_errors v)"
  shows "(val_valid (check_source p src v) \<longleftrightarrow> val_errors (check_source p src v) = [])
       \<and> (\<forall>k. PeriodNotFound k \<notin> set (val_errors (check_source p src v)))"
  using assms by (simp add: check_source_def add_error_simps)

lemma check_destination_keeps:
  assumes "check_destination p src dst v = Inr v'"
    and "val_valid v \<longleftrightarrow> val_errors v = []" and "\<forall>k. PeriodNotFound k \<notin> set (val_errors v)"
  shows "(val_valid v' \<longleftrightarrow> val_errors v' = []) \<and> (\<forall>k. PeriodNotFound k \<notin> set (val_errors v'))"
  using assms
  by (auto simp: check_destination_def add_error_simps split: if_splits sum.splits)

lemma check_mode_keeps:
  assumes "check_mode p src dst md v = Inr v'"
    and "val_valid v \<longleftrightarrow> val_errors v = []" and "\<forall>k. PeriodNotFound k \<notin> set (val_errors v)"
  shows "(val_valid v' \<longleftrightarrow> val_errors v' = []) \<and> (\<forall>k. PeriodNotFound k \<notin> set (val_errors v'))"
  using assms
  by (auto simp: check_mode_def add_error_simps split: if_splits sum.splits)

lemma validate_selection_None:
  assumes "validate_selection p src dst md None = Inr v" and "is_loaded p"
  shows "(val_valid v \<longleftrightarrow> val_errors v = []) \<and> (\<forall>k. PeriodNotFound k \<notin> set (val_errors v))"
proof -
  let ?v0 = "\<lparr> val_valid = True, val_errors = [], val_warnings = [] \<rparr>"
  from assms obtain v2 where
    d: "check_destination p src dst (check_source p src ?v0) = Inr v2"
    and m: "check_mode p src dst md v2 = Inr v"
    by (auto simp: validate_selection_def check_period_falsy dest!: bind_err_Inr)
  have s: "(val_valid (check_source p src ?v0) \<longleftrightarrow> val_errors (check_source p src ?v0) = [])
       \<and> (\<forall>k. PeriodNotFound k \<notin> set (val_errors (check_source p src ?v0)))"
    by (rule check_source_keeps) simp_all
  from check_destination_keeps [OF d] s
  have "(val_valid v2 \<longleftrightarrow> val_errors v2 = []) \<and> (\<forall>k. PeriodNotFound k \<notin> set (val_errors v2))"
    by blast
  with check_mode_keeps [OF m] show ?thesis by blast
qed

lemma validate_selection_Some:
  assumes "validate_selection p src dst md (Some k) = Inr v" and "is_loaded p" and "k \<noteq> 0"
  shows "(PeriodNotFound k \<in> set (val_errors v)
            \<longleftrightarrow> \<not> py_in (Num (of_int k)) (metadata_get (md_periods (metadata p))))
       \<and> (val_valid v \<longleftrightarrow> val_errors v = [])"
proof -
  from assms(1,2) obtain v3 where
    n: "validate_selection p src dst md None = Inr v3" and v: "v = check_period p (Some k) v3"
    using validate_selection_period [OF assms(2), of src dst md "Some k"]
    by (auto split: sum.splits)
  from validate_selection_None [OF n assms(2)] show ?thesis
    unfolding v using assms(3) by (auto simp: check_period_truthy add_error_simps)
qed

lemma validate_selection_zero:
  "validate_selection p src dst md (Some 0) = validate_selection p src dst md None"
  by (simp add: validate_selection_def check_period_falsy Let_def)

lemma validate_selection_unloaded:
  "\<not> is_loaded p \<Longrightarrow>
   validate_selection p src dst md k =
     Inr \<lparr> val_valid = False, val_errors = [NoDatasetLoaded], val_warnings = [] \<rparr>"
  by (simp add: validate_selection_def add_error_def)

lemma sample_parser_fields:
  "data (sample_parser c) = sample_store c"
  "is_loaded (sample_parser c)"
  "metadata (sample_parser c) = sample_metadata"
  by (simp_all add: sample_parser_def)

lemma sample_validate:
  "validate_selection (sample_parser c) (Some ''IU1'') (Some ''GU1'') (Some ''T1'') k =
     Inr (check_period (sample_parser c) k \<lparr> val_valid = True, val_errors = [], val_warnings = [] \<rparr>)"
  by (simp add: validate_selection_def sample_parser_fields check_source_def check_destination_def
      check_mode_def truthy_def sample_destinations [OF sample_parser_fields(1,2)]
      sample_modes [OF sample_parser_fields(1,2)] bind_err_simps py_in_def metadata_get_def
      sample_metadata_def)

lemma sample_periods:
  "metadata_get (md_periods (metadata (sample_parser c))) = [Num 1, Num 2]"
  by (simp add: sample_parser_fields sample_metadata_def metadata_get_def)

text \<open>
  Claim C10. \<open>validate_selection\<close> tests the period against the known periods only when the
  period is truthy. With period 0 it returns what it returns with no period at all, which
  never holds a period error; with a period other than 0 on a loaded dataset the period error
  is present exactly when the period is not a known one. On the sample dataset, whose periods
  are 1 and 2, the selection with period 0 is reported valid.
\<close>

theorem period_check_only_when_truthy:
  "validate_selection p src dst md (Some 0) = validate_selection p src dst md None
   \<and> (\<forall>v k. is_loaded p \<longrightarrow> validate_selection p src dst md (Some 0) = Inr v
          \<longrightarrow> PeriodNotFound k \<notin> set (val_errors v))
   \<and> (\<forall>v k. is_loaded p \<longrightarrow> k \<noteq> 0 \<longrightarrow> validate_selection p src dst md (Some k) = Inr v
          \<longrightarrow> (PeriodNotFound k \<in> set (val_errors v)
                 \<longleftrightarrow> \<not> py_in (Num (of_int k)) (metadata_get (md_periods (metadata p)))))
   \<and> validate_selection (sample_parser 1000) (Some ''IU1'') (Some ''GU1'') (Some ''T1'') (Some 0)
       = Inr \<lparr> val_valid = True, val_errors = [], val_warnings = [] \<rparr>
   \<and> \<not> py_in (Num 0) (metadata_get (md_periods (metadata (sample_parser 1000))))"
proof -
  have a: "validate_selection p src dst md (Some 0) = validate_selection p src dst md None"
    by (rule validate_selection_zero)
  have b: "\<forall>v k. is_loaded p \<longrightarrow> validate_selection p src dst md (Some 0) = Inr v
          \<longrightarrow> PeriodNotFound k \<notin> set (val_errors v)"
    unfolding a using validate_selection_None by blast
  have c: "\<forall>v k. is_loaded p \<longrightarrow> k \<noteq> 0 \<longrightarrow> validate_selection p src dst md (Some k) = Inr v
          \<longrightarrow> (PeriodNotFound k \<in> set (val_errors v)
                 \<longleftrightarrow> \<not> py_in (Num (of_int k)) (metadata_get (md_periods (metadata p))))"
    using validate_selection_Some by blast
  have d: "validate_selection (sample_parser 1000) (Some ''IU1'') (Some ''GU1'') (Some ''T1'') (Some 0)
       = Inr \<lparr> val_valid = True, val_errors = [], val_warnings = [] \<rparr>"
    by (simp add: sample_validate check_period_falsy)
  have e: "\<not> py_in (Num 0) (metadata_get (md_periods (metadata (sample_parser 1000))))"
    by (simp add: sample_periods py_in_def)
  from a b c d e show ?thesis by blast
qed

theorem period_check_only_when_truthy_witness:
  "is_loaded (sample_parser 1000) \<and> (3::int) \<noteq> 0
   \<and> validate_selection (sample_parser 1000) (Some ''IU1'') (Some ''GU1'') (Some ''T1'') (Some 3)
       = Inr \<lparr> val_valid = False, val_errors = [PeriodNotFound 3], val_warnings = [] \<rparr>
   \<and> PeriodNotFound 3 \<in> set (val_errors \<lparr> val_valid = False, val_errors = [PeriodNotFound 3], val_warnings = [] \<rparr>)
   \<and> \<not> py_in (Num (of_int 3)) (metadata_get (md_periods (metadata (sample_parser 1000))))
   \<and> validate_selection (sample_parser 1000) (Some ''IU1'') (Some ''GU1'') (Some ''T1'') (Some 0)
       = Inr \<lparr> val_valid = True, val_errors = [], val_warnings = [] \<rparr>
   \<and> PeriodNotFound 0 \<notin> set (val_errors \<lparr> val_valid = True, val_errors = [], val_warnings = [] \<rparr>)"
proof -
  have h: "validate_selection (sample_parser 1000) (Some ''IU1'') (Some ''GU1'') (Some ''T1'') (Some 3)
       = Inr \<lparr> val_valid = False, val_errors = [PeriodNotFound 3], val_warnings = [] \<rparr>"
    by (simp add: sample_validate check_period_truthy sample_periods py_in_def add_error_def)
  have z: "validate_selection (sample_parser 1000) (Some ''IU1'') (Some ''GU1'') (Some ''T1'') (Some 0)
       = Inr \<lparr> val_valid = True, val_errors = [], val_warnings = [] \<rparr>"
    by (simp add: sample_validate check_period_falsy)
  have l: "is_loaded (sample_parser 1000)" by (simp add: sample_parser_fields)
  from period_check_only_when_truthy
         [of "sample_parser 1000" "Some ''IU1''" "Some ''GU1''" "Some ''T1''"]
  have z': "PeriodNotFound 0 \<notin> set (val_errors \<lparr> val_valid = True, val_errors = [], val_warnings = [] \<rparr>)"
    using z l by blast
  from period_check_only_when_truthy
         [of "sample_parser 1000" "Some ''IU1''" "Some ''GU1''" "Some ''T1''"]
  have "PeriodNotFound 3 \<in> set (val_errors \<lparr> val_valid = False, val_errors = [PeriodNotFound 3], val_warnings = [] \<rparr>)
          \<longleftrightarrow> \<not> py_in (Num (of_int 3)) (metadata_get (md_periods (metadata (sample_parser 1000))))"
    using h l by (metis zero_neq_numeral)
  with h l z z' show ?thesis by simp
qed

subsection \<open>The route endpoint\<close>






text \<open>The lookups of the calculator are defined on tables that have the columns they read.\<close>

lemma lookup_rows_present:
  "list_all (\<lambda>c. c \<in> set (columns df)) (map fst conds) \<Longrightarrow>
   lookup_rows df conds = Inr (select df conds)"
proof -
  assume "list_all (\<lambda>c. c \<in> set (columns df)) (map fst conds)"
  then have "find (\<lambda>c. c \<notin> set (columns df)) (map fst conds) = None"
    by (auto simp: find_None_iff list_all_iff)
  then show ?thesis by (simp add: lookup_rows_def first_missing_def)
qed













lemma sample_api_route_0:
  "api_get_route_data no_lib (sample_app c) (Some ''IU1'') (Some ''GU1'') (Some ''T1'') (Some 0)
     = Inl MissingParameters"
  by (simp add: api_get_route_data_def sample_app_def sample_parser_fields truthy_int_def)







subsection \<open>Transport modes\<close>

lemma vehicle_capacity_default:
  "md \<noteq> ''T1'' \<Longrightarrow> md \<noteq> ''T2'' \<Longrightarrow> vehicle_capacity_of md = 30"
  by (simp add: vehicle_capacity_of_def TRANSPORT_MODES_def)

lemma vehicle_capacity_T1: "vehicle_capacity_of ''T1'' = 30"
  by (simp add: vehicle_capacity_of_def TRANSPORT_MODES_def)

lemma mode_detail_unknown:
  "md \<noteq> ''T1'' \<Longrightarrow> md \<noteq> ''T2'' \<Longrightarrow> md \<noteq> ''T3'' \<Longrightarrow>
   mode_detail_of (Str md) = \<lparr> det_code = Str md, det_name = Str md, det_vehicle_capacity = None \<rparr>"
  by (simp add: mode_detail_of_def TRANSPORT_INFO_def)

lemma mode_detail_known:
  "mode_detail_of (Str ''T1'')
     = \<lparr> det_code = Str ''T1'', det_name = Str ''Road'', det_vehicle_capacity = Some 30 \<rparr>"
  "mode_detail_of (Str ''T3'')
     = \<lparr> det_code = Str ''T3'', det_name = Str ''Sea'', det_vehicle_capacity = Some 10000 \<rparr>"
  by (simp_all add: mode_detail_of_def TRANSPORT_INFO_def)

lemma mode_detail_code: "det_code (mode_detail_of m) = m"
  by (simp add: mode_detail_of_def split: cell.splits option.splits prod.splits)

lemma api_modes_Inr:
  "api_get_transport_modes a src dst = Inr ds \<Longrightarrow> \<exists>ms. ds = map mode_detail_of ms"
  by (auto simp: api_get_transport_modes_def split: if_splits sum.splits)

lemma get_route_data_mode:
  "get_route_data lib opt src dest md p = Inr r \<Longrightarrow> mode r = md"
  by (auto simp: get_route_data_def Let_def dest!: bind_err_Inr)

text \<open>The values of the calculator depend on the mode through the vehicle capacity alone.\<close>

lemma same_capacity_same_values:
  assumes "vehicle_capacity_of (mode r) = vehicle_capacity_of md'"
  shows "milp_solution r = (milp_solution (r\<lparr>mode := md'\<rparr>))\<lparr>route := r\<rparr>"
proof -
  let ?r = "r\<lparr>mode := md'\<rparr>"
  have v: "vehicle_capacity_of (mode ?r) = vehicle_capacity_of (mode r)" using assms by simp
  have q: "required_shipment_of ?r = required_shipment_of r"
    by (simp add: required_shipment_of_def min_shipment_needed_def)
  have t: "num_trips_of ?r = num_trips_of r"
    unfolding num_trips_of_def q v ..
  have s: "shipment_qty_of ?r = shipment_qty_of r"
    unfolding shipment_qty_of_def q v t ..
  have i: "is_iu ?r = is_iu r" by (simp add: is_iu_def)
  have mp: "min_production_needed ?r = min_production_needed r"
    by (simp add: min_production_needed_def s)
  have rp: "required_production_of ?r = required_production_of r"
    by (simp add: required_production_of_def i mp)
  have p: "production_of ?r = production_of r"
    by (simp add: production_of_def i rp)
  have cv: "capacity_violation_of ?r = capacity_violation_of r"
    by (simp add: capacity_violation_of_def i rp)
  have se: "source_ending_inv_of ?r = source_ending_inv_of r"
    by (simp add: source_ending_inv_of_def p s)
  have de: "dest_ending_inv_of ?r = dest_ending_inv_of r"
    by (simp add: dest_ending_inv_of_def s)
  have ss: "source_ss_satisfied_of ?r = source_ss_satisfied_of r"
    by (simp add: source_ss_satisfied_of_def se)
  have ds: "dest_ss_satisfied_of ?r = dest_ss_satisfied_of r"
    by (simp add: dest_ss_satisfied_of_def de)
  have h: "holding_rate ?r = holding_rate r" by (simp add: holding_rate_def)
  have pc: "production_cost_comp_of ?r = production_cost_comp_of r"
    by (simp add: production_cost_comp_of_def p)
  have tc: "transport_cost_comp_of ?r = transport_cost_comp_of r"
    by (simp add: transport_cost_comp_of_def s)
  have hc: "holding_cost_comp_of ?r = holding_cost_comp_of r"
    by (simp add: holding_cost_comp_of_def h se de)
  have iss: "issues_of ?r = issues_of r"
    by (simp add: issues_of_def cv rp ss ds se de)
  show ?thesis
    unfolding milp_solution_def q t s rp p cv se de ss ds pc tc hc iss v
    by simp
qed

lemma sample_validate_route:
  "validate_selection (sample_parser c) (Some ''IU1'') (Some ''GU1'') None None =
     Inr \<lparr> val_valid = True, val_errors = [], val_warnings = [] \<rparr>"
  by (simp add: validate_selection_def sample_parser_fields check_source_def check_destination_def
      check_mode_def truthy_def sample_destinations [OF sample_parser_fields(1,2)]
      bind_err_simps py_in_def metadata_get_def sample_metadata_def check_period_falsy)

lemma sample_api_modes:
  "api_get_transport_modes (sample_app c) ''IU1'' ''GU1''
     = Inr [\<lparr> det_code = Str ''T1'', det_name = Str ''Road'', det_vehicle_capacity = Some 30 \<rparr>,
            \<lparr> det_code = Str ''T3'', det_name = Str ''Sea'', det_vehicle_capacity = Some 10000 \<rparr>,
            \<lparr> det_code = Str ''T9'', det_name = Str ''T9'', det_vehicle_capacity = None \<rparr>]"
  by (simp add: api_get_transport_modes_def sample_app_def
      sample_parser_fields sample_validate_route
      sample_modes [OF sample_parser_fields(1,2)] mode_detail_known mode_detail_unknown)

text \<open>
  Claim C9, as stated, fails at the code \<open>T3\<close>: it is not in the calculator's table, so the
  calculator uses a capacity of 30, and the modes endpoint reports it with the name Sea and a
  capacity of 10000, not as unavailable.
\<close>

theorem listed_capacity_counterexample:
  "''T3'' \<noteq> ''T1'' \<and> ''T3'' \<noteq> ''T2''
   \<and> vehicle_capacity_of ''T3'' = 30
   \<and> api_get_transport_modes (sample_app 1000) ''IU1'' ''GU1''
       = Inr [\<lparr> det_code = Str ''T1'', det_name = Str ''Road'', det_vehicle_capacity = Some 30 \<rparr>,
              \<lparr> det_code = Str ''T3'', det_name = Str ''Sea'', det_vehicle_capacity = Some 10000 \<rparr>,
              \<lparr> det_code = Str ''T9'', det_name = Str ''T9'', det_vehicle_capacity = None \<rparr>]"
  by (simp add: vehicle_capacity_default sample_api_modes)

text \<open>
  Claim C9, amended. For every mode code other than \<open>T1\<close> and \<open>T2\<close> the calculator uses a
  vehicle capacity of 30 for the trip count and the shipment, and its result is, apart from
  the route data it echoes, the result it gives for \<open>T1\<close> on the same route data, so nothing
  in it tells that the capacity was a default. The modes endpoint reports the capacity of
  such a code as unavailable unless the code is \<open>T3\<close>, which it reports with capacity 10000.
\<close>

theorem default_vehicle_capacity:
  assumes "md \<noteq> ''T1''" and "md \<noteq> ''T2''"
  shows "(calculate_milp_solution lib opt src dest md p = Inr sol \<longrightarrow>
            vehicle_capacity sol = 30
          \<and> shipment_qty sol = num_trips sol * 30
          \<and> num_trips sol =
              (if required_shipment sol > 0 then \<lceil>float_div (required_shipment sol) 30\<rceil> else 0)
          \<and> sol = (milp_solution ((route sol)\<lparr>mode := ''T1''\<rparr>))\<lparr>route := route sol\<rparr>)
       \<and> (md \<noteq> ''T3'' \<longrightarrow> det_vehicle_capacity (mode_detail_of (Str md)) = None)
       \<and> (api_get_transport_modes a s t = Inr ds \<longrightarrow> x \<in> set ds \<longrightarrow> det_code x = Str md
            \<longrightarrow> md \<noteq> ''T3'' \<longrightarrow> det_vehicle_capacity x = None)
       \<and> det_vehicle_capacity (mode_detail_of (Str ''T3'')) = Some 10000"
proof (intro conjI impI)
  assume c: "calculate_milp_solution lib opt src dest md p = Inr sol"
  from calculate_Inr [OF c] obtain r where
    g: "get_route_data lib opt src dest md p = Inr r" and sol: "sol = milp_solution r"
    by blast
  have m: "mode r = md" by (rule get_route_data_mode [OF g])
  have v: "vehicle_capacity_of (mode r) = 30"
    unfolding m by (rule vehicle_capacity_default [OF assms])
  show "vehicle_capacity sol = 30" by (simp add: sol milp_fields v)
  show "shipment_qty sol = num_trips sol * 30"
    by (simp add: sol milp_fields shipment_qty_trips v)
  show "num_trips sol =
          (if required_shipment sol > 0 then \<lceil>float_div (required_shipment sol) 30\<rceil> else 0)"
    by (simp add: sol milp_fields num_trips_of_def v)
  show "sol = (milp_solution ((route sol)\<lparr>mode := ''T1''\<rparr>))\<lparr>route := route sol\<rparr>"
    unfolding sol milp_fields(1)
    by (rule same_capacity_same_values) (simp add: v vehicle_capacity_T1)
next
  assume "md \<noteq> ''T3''"
  then show "det_vehicle_capacity (mode_detail_of (Str md)) = None"
    using assms by (simp add: mode_detail_unknown)
next
  assume a: "api_get_transport_modes a s t = Inr ds" and x: "x \<in> set ds"
    and c: "det_code x = Str md" and n: "md \<noteq> ''T3''"
  from api_modes_Inr [OF a] x obtain m where "x = mode_detail_of m" by auto
  with c have "x = mode_detail_of (Str md)" by (simp add: mode_detail_code)
  then show "det_vehicle_capacity x = None"
    using assms n by (simp add: mode_detail_unknown)
next
  show "det_vehicle_capacity (mode_detail_of (Str ''T3'')) = Some 10000"
    by (simp add: mode_detail_known)
qed

lemma sample_get_route_T3:
  "get_route_data no_lib (optimizer (sample_app c)) ''IU1'' ''GU1'' ''T3'' 1
     = Inr ((sample_route c 1)\<lparr>mode := ''T3'', freight_cost := PyFloat 4,
                               quantity_multiplier := PyFloat 10000\<rparr>)"
  by (simp add: get_route_data_def sample_app_def sample_store_lookups table_defs lookup_defs
      sample_route_def cong: bind_err_cong)

theorem default_vehicle_capacity_witness:
  "''T3'' \<noteq> ''T1'' \<and> ''T3'' \<noteq> ''T2''
   \<and> calculate_milp_solution no_lib (optimizer (sample_app 1000)) ''IU1'' ''GU1'' ''T3'' 1
       = Inr (milp_solution ((sample_route 1000 1)\<lparr>mode := ''T3'', freight_cost := PyFloat 4,
                                                   quantity_multiplier := PyFloat 10000\<rparr>))
   \<and> vehicle_capacity (milp_solution ((sample_route 1000 1)\<lparr>mode := ''T3'',
         freight_cost := PyFloat 4, quantity_multiplier := PyFloat 10000\<rparr>)) = 30
   \<and> det_vehicle_capacity (mode_detail_of (Str ''T3'')) = Some 10000
   \<and> ''T9'' \<noteq> ''T1'' \<and> ''T9'' \<noteq> ''T2'' \<and> ''T9'' \<noteq> ''T3''
   \<and> api_get_transport_modes (sample_app 1000) ''IU1'' ''GU1''
       = Inr [\<lparr> det_code = Str ''T1'', det_name = Str ''Road'', det_vehicle_capacity = Some 30 \<rparr>,
              \<lparr> det_code = Str ''T3'', det_name = Str ''Sea'', det_vehicle_capacity = Some 10000 \<rparr>,
              mode_detail_of (Str ''T9'')]
   \<and> det_code (mode_detail_of (Str ''T9'')) = Str ''T9''
   \<and> det_vehicle_capacity (mode_detail_of (Str ''T9'')) = None"
proof -
  let ?r = "(sample_route 1000 1)\<lparr>mode := ''T3'', freight_cost := PyFloat 4,
                                  quantity_multiplier := PyFloat 10000\<rparr>"
  have n: "''T3'' \<noteq> ''T1''" "''T3'' \<noteq> ''T2''" by simp_all
  have h: "calculate_milp_solution no_lib (optimizer (sample_app 1000)) ''IU1'' ''GU1'' ''T3'' 1
             = Inr (milp_solution ?r)"
    by (simp add: calculate_milp_solution_def sample_get_route_T3)
  from default_vehicle_capacity [OF n, of no_lib "optimizer (sample_app 1000)" "''IU1''" "''GU1''"
         1 "milp_solution ?r"] h
  have a: "vehicle_capacity (milp_solution ?r) = 30"
    and b: "det_vehicle_capacity (mode_detail_of (Str ''T3'')) = Some 10000"
    by blast+
  have n9: "''T9'' \<noteq> ''T1''" "''T9'' \<noteq> ''T2''" and n93: "''T9'' \<noteq> ''T3''" by simp_all
  have l: "api_get_transport_modes (sample_app 1000) ''IU1'' ''GU1''
       = Inr [\<lparr> det_code = Str ''T1'', det_name = Str ''Road'', det_vehicle_capacity = Some 30 \<rparr>,
              \<lparr> det_code = Str ''T3'', det_name = Str ''Sea'', det_vehicle_capacity = Some 10000 \<rparr>,
              mode_detail_of (Str ''T9'')]"
    by (simp add: sample_api_modes mode_detail_unknown)
  have c: "det_code (mode_detail_of (Str ''T9'')) = Str ''T9''" by (rule mode_detail_code)
  from default_vehicle_capacity [OF n9, of no_lib "optimizer (sample_app 1000)" "''IU1''" "''GU1''"
         1 "milp_solution ?r" "sample_app 1000" "''IU1''" "''GU1''" _ "mode_detail_of (Str ''T9'')"]
    l c n93
  have d: "det_vehicle_capacity (mode_detail_of (Str ''T9'')) = None"
    by simp
  from h a b n l c d n9 n93 show ?thesis by blast
qed

subsection \<open>Complete pairs\<close>

lemma has_source_rows_IU:
  "''IU CODE'' \<in> set (columns df) \<Longrightarrow>
   has_source_rows df src \<longleftrightarrow> select df [(''IU CODE'', src)] \<noteq> []"
  by (simp add: has_source_rows_def)

lemma has_complete_data_schema:
  assumes "data p ''Logistics'' = Some lg" and "data p ''ProductionCost'' = Some pc"
    and "data p ''Capacity'' = Some cp" and "data p ''Demand'' = Some dm"
    and "''FROM IU CODE'' \<in> set (columns lg)" and "''TO IUGU CODE'' \<in> set (columns lg)"
    and "''FREIGHT COST'' \<in> set (columns lg)"
    and "''IU CODE'' \<in> set (columns pc)" and "''IU CODE'' \<in> set (columns cp)"
    and "''IUGU CODE'' \<in> set (columns dm)"
  shows "has_complete_data p src dst =
           Inr ((case select lg [(''FROM IU CODE'', src), (''TO IUGU CODE'', dst)] of
                   [] \<Rightarrow> False
                 | r # rs \<Rightarrow> cell_of (columns lg) r ''FREIGHT COST'' \<noteq> NaN)
                \<and> select pc [(''IU CODE'', src)] \<noteq> []
                \<and> select cp [(''IU CODE'', src)] \<noteq> []
                \<and> select dm [(''IUGU CODE'', dst)] \<noteq> [])"
proof -
  have l: "lookup_rows lg [(''FROM IU CODE'', src), (''TO IUGU CODE'', dst)]
             = Inr (select lg [(''FROM IU CODE'', src), (''TO IUGU CODE'', dst)])"
    by (rule lookup_rows_present) (simp add: assms)
  show ?thesis
    unfolding has_complete_data_def
    by (simp add: assms l has_source_rows_IU split: list.splits)
qed

lemma first_row_in_rows:
  "(case xs of [] \<Rightarrow> False | r # rs \<Rightarrow> P r) \<Longrightarrow> list_ex P xs"
  by (cases xs) simp_all

text \<open>
  Claim C1, as stated, fails: the pair \<open>IU1\<close>, \<open>GU2\<close> of the sample dataset has two route
  rows, the second with a freight cost of 7, and production-cost, capacity and demand rows,
  so it is complete by the rule's words; the first row has no freight cost, and the test
  returns false and the pair is not listed.
\<close>

theorem first_row_freight_counterexample:
  "complete_per_spec (sample_parser 1000) (Str ''IU1'') (Str ''GU2'')
   \<and> has_complete_data (sample_parser 1000) (Str ''IU1'') (Str ''GU2'') = Inr False
   \<and> select t_logistics [(''FROM IU CODE'', Str ''IU1''), (''TO IUGU CODE'', Str ''GU2'')]
       = [[Str ''IU1'', Str ''GU2'', Str ''T1'', Num 1, NaN, Num 1, Num 30],
          [Str ''IU1'', Str ''GU2'', Str ''T1'', Num 2, Num 7, Num 1, Num 30]]
   \<and> get_destinations_for_source (sample_parser 1000) (Str ''IU1'') = Inr [Str ''GU1'']"
  by (simp add: sample_complete [OF sample_parser_fields(1)]
      sample_destinations [OF sample_parser_fields(1,2)])
     (simp add: complete_per_spec_def sample_parser_fields sample_store_lookups select_def
      table_defs)

text \<open>
  Claim C1, amended. On a dataset with the four tables and the columns the test reads, the
  test returns true for a pair exactly when (a) the pair has a route row and the first of its
  route rows, in table order, has a freight cost, (b) the source has a production-cost row,
  (c) the source has a capacity row and (d) the destination has a demand row. A pair whose
  route rows all lack a freight cost is excluded, and every pair the test accepts is complete
  by the rule's words.
\<close>

theorem complete_data_rule:
  assumes "data p ''Logistics'' = Some lg" and "data p ''ProductionCost'' = Some pc"
    and "data p ''Capacity'' = Some cp" and "data p ''Demand'' = Some dm"
    and "''FROM IU CODE'' \<in> set (columns lg)" and "''TO IUGU CODE'' \<in> set (columns lg)"
    and "''FREIGHT COST'' \<in> set (columns lg)"
    and "''IU CODE'' \<in> set (columns pc)" and "''IU CODE'' \<in> set (columns cp)"
    and "''IUGU CODE'' \<in> set (columns dm)"
  shows "has_complete_data p src dst =
           Inr ((case select lg [(''FROM IU CODE'', src), (''TO IUGU CODE'', dst)] of
                   [] \<Rightarrow> False
                 | r # rs \<Rightarrow> cell_of (columns lg) r ''FREIGHT COST'' \<noteq> NaN)
                \<and> select pc [(''IU CODE'', src)] \<noteq> []
                \<and> select cp [(''IU CODE'', src)] \<noteq> []
                \<and> select dm [(''IUGU CODE'', dst)] \<noteq> [])
       \<and> (list_all (\<lambda>r. cell_of (columns lg) r ''FREIGHT COST'' = NaN)
             (select lg [(''FROM IU CODE'', src), (''TO IUGU CODE'', dst)])
            \<longrightarrow> has_complete_data p src dst = Inr False)
       \<and> (has_complete_data p src dst = Inr True \<longrightarrow> complete_per_spec p src dst)"
proof -
  let ?rows = "select lg [(''FROM IU CODE'', src), (''TO IUGU CODE'', dst)]"
  let ?first = "case ?rows of [] \<Rightarrow> False | r # rs \<Rightarrow> cell_of (columns lg) r ''FREIGHT COST'' \<noteq> NaN"
  have eq: "has_complete_data p src dst =
           Inr (?first
                \<and> select pc [(''IU CODE'', src)] \<noteq> []
                \<and> select cp [(''IU CODE'', src)] \<noteq> []
                \<and> select dm [(''IUGU CODE'', dst)] \<noteq> [])"
    by (rule has_complete_data_schema [OF assms])
  have none: "list_all (\<lambda>r. cell_of (columns lg) r ''FREIGHT COST'' = NaN) ?rows \<Longrightarrow> \<not> ?first"
    by (cases ?rows) simp_all
  have some: "?first \<Longrightarrow> list_ex (\<lambda>r. cell_of (columns lg) r ''FREIGHT COST'' \<noteq> NaN) ?rows"
    by (rule first_row_in_rows)
  have spec: "complete_per_spec p src dst \<longleftrightarrow>
                list_ex (\<lambda>r. cell_of (columns lg) r ''FREIGHT COST'' \<noteq> NaN) ?rows
                \<and> select pc [(''IU CODE'', src)] \<noteq> []
                \<and> select cp [(''IU CODE'', src)] \<noteq> []
                \<and> select dm [(''IUGU CODE'', dst)] \<noteq> []"
    by (simp add: complete_per_spec_def assms(1-4))
  show ?thesis
    unfolding eq spec using none some by auto
qed

theorem complete_data_rule_witness:
  "data (sample_parser 1000) ''Logistics'' = Some t_logistics
   \<and> data (sample_parser 1000) ''ProductionCost'' = Some t_prodcost
   \<and> data (sample_parser 1000) ''Capacity'' = Some (t_capacity 1000)
   \<and> data (sample_parser 1000) ''Demand'' = Some t_demand
   \<and> ''FROM IU CODE'' \<in> set (columns t_logistics) \<and> ''TO IUGU CODE'' \<in> set (columns t_logistics)
   \<and> ''FREIGHT COST'' \<in> set (columns t_logistics)
   \<and> ''IU CODE'' \<in> set (columns t_prodcost) \<and> ''IU CODE'' \<in> set (columns (t_capacity 1000))
   \<and> ''IUGU CODE'' \<in> set (columns t_demand)
   \<and> has_complete_data (sample_parser 1000) (Str ''IU1'') (Str ''GU1'') = Inr True
   \<and> complete_per_spec (sample_parser 1000) (Str ''IU1'') (Str ''GU1'')
   \<and> select t_logistics [(''FROM IU CODE'', Str ''IU1''), (''TO IUGU CODE'', Str ''GU3'')]
       = [[Str ''IU1'', Str ''GU3'', Str ''T1'', Num 1, NaN, Num 1, Num 30]]
   \<and> has_complete_data (sample_parser 1000) (Str ''IU1'') (Str ''GU3'') = Inr False"
proof -
  have d: "data (sample_parser 1000) ''Logistics'' = Some t_logistics"
    "data (sample_parser 1000) ''ProductionCost'' = Some t_prodcost"
    "data (sample_parser 1000) ''Capacity'' = Some (t_capacity 1000)"
    "data (sample_parser 1000) ''Demand'' = Some t_demand"
    by (simp_all add: sample_parser_fields sample_store_lookups)
  have c: "''FROM IU CODE'' \<in> set (columns t_logistics)" "''TO IUGU CODE'' \<in> set (columns t_logistics)"
    "''FREIGHT COST'' \<in> set (columns t_logistics)"
    "''IU CODE'' \<in> set (columns t_prodcost)" "''IU CODE'' \<in> set (columns (t_capacity 1000))"
    "''IUGU CODE'' \<in> set (columns t_demand)"
    by (simp_all add: table_defs)
  have t: "has_complete_data (sample_parser 1000) (Str ''IU1'') (Str ''GU1'') = Inr True"
    by (rule sample_complete [OF sample_parser_fields(1)])
  from complete_data_rule [OF d c, of "Str ''IU1''" "Str ''GU1''"] t
  have s: "complete_per_spec (sample_parser 1000) (Str ''IU1'') (Str ''GU1'')"
    by blast
  have r3: "select t_logistics [(''FROM IU CODE'', Str ''IU1''), (''TO IUGU CODE'', Str ''GU3'')]
       = [[Str ''IU1'', Str ''GU3'', Str ''T1'', Num 1, NaN, Num 1, Num 30]]"
    by (simp add: select_def t_logistics_def)
  have "list_all (\<lambda>r. cell_of (columns t_logistics) r ''FREIGHT COST'' = NaN)
          (select t_logistics [(''FROM IU CODE'', Str ''IU1''), (''TO IUGU CODE'', Str ''GU3'')])"
    unfolding r3 by (simp add: t_logistics_def)
  with complete_data_rule [OF d c, of "Str ''IU1''" "Str ''GU3''"]
  have f: "has_complete_data (sample_parser 1000) (Str ''IU1'') (Str ''GU3'') = Inr False"
    by blast
  from d c t s r3 f show ?thesis by simp
qed

section \<open>Loading and validating datasets\<close>

subsection \<open>Loading an Excel file\<close>

lemma distinct_sheet_names: "distinct (map fst SHEET_CONFIG)"
  by (simp add: SHEET_CONFIG_def)

lemma scan_sheet_store:
  "fst (scan_sheet xf nm config acc) =
     (case accepted_sheet xf nm config of Some df \<Rightarrow> (fst acc)(nm \<mapsto> df) | None \<Rightarrow> fst acc)"
  by (cases acc)
     (auto simp: scan_sheet_def accepted_sheet_def Let_def split: option.splits)

lemma load_sheets_store:
  "distinct (map fst cfgs) \<Longrightarrow>
   fst (load_sheets xf cfgs acc) nm =
     (case map_of cfgs nm of
        Some config \<Rightarrow>
          (case accepted_sheet xf nm config of Some df \<Rightarrow> Some df | None \<Rightarrow> fst acc nm)
      | None \<Rightarrow> fst acc nm)"
proof (induction cfgs arbitrary: acc)
  case Nil
  then show ?case by simp
next
  case (Cons e cfgs)
  obtain n c where e: "e = (n, c)" by (cases e)
  from Cons.prems have d: "distinct (map fst cfgs)" and n: "n \<notin> fst ` set cfgs"
    by (simp_all add: e)
  from n have none: "map_of cfgs n = None" by (simp add: map_of_eq_None_iff)
  show ?case
    unfolding e
    using Cons.IH [OF d, of "scan_sheet xf n c acc"] none
    by (auto simp: scan_sheet_store split: option.splits)
qed

lemma excel_scan_store:
  "fst (load_sheets xf SHEET_CONFIG (Map.empty, [], [], [])) = excel_store xf"
  by (rule ext)
     (simp add: load_sheets_store [OF distinct_sheet_names] excel_store_def split: option.splits)

lemma scan_sheet_errors:
  "scan_errors (scan_sheet xf nm config acc) \<noteq> []
     \<longleftrightarrow> scan_errors acc \<noteq> [] \<or> sheet_invalid xf nm config"
  by (cases acc)
     (auto simp: scan_sheet_def scan_errors_def sheet_invalid_def Let_def split: option.splits)

lemma load_sheets_errors:
  "scan_errors (load_sheets xf cfgs acc) \<noteq> []
     \<longleftrightarrow> scan_errors acc \<noteq> [] \<or> list_ex (\<lambda>(nm, config). sheet_invalid xf nm config) cfgs"
proof (induction cfgs arbitrary: acc)
  case Nil
  then show ?case by simp
next
  case (Cons e cfgs)
  obtain n c where e: "e = (n, c)" by (cases e)
  show ?case
    unfolding e using Cons.IH [of "scan_sheet xf n c acc"]
    by (auto simp: scan_sheet_errors)
qed

lemma excel_scan_errors:
  "scan_errors (load_sheets xf SHEET_CONFIG (Map.empty, [], [], [])) \<noteq> [] \<longleftrightarrow> excel_invalid xf"
proof -
  have "scan_errors (Map.empty, [], [], []) = []" by (simp add: scan_errors_def)
  then show ?thesis by (simp add: load_sheets_errors excel_invalid_def)
qed


lemma extract_metadata_data: "data (fst (extract_metadata p)) = data p"
  by (auto simp: extract_metadata_def filter_sources_with_complete_data_def
      split: prod.splits option.splits sum.splits)

lemma extract_metadata_is_loaded: "is_loaded (fst (extract_metadata p)) = is_loaded p"
  by (auto simp: extract_metadata_def filter_sources_with_complete_data_def
      split: prod.splits option.splits sum.splits)

lemma load_from_excel_data:
  "data (fst (load_from_excel p (Some xf))) = excel_store xf"
proof -
  let ?q = "p\<lparr>data := Map.empty, metadata := empty_metadata, load_errors := [],
              data := excel_store xf, load_errors := [], is_loaded := True\<rparr>"
  have "data (fst (extract_metadata ?q)) = excel_store xf"
    by (simp add: extract_metadata_data)
  then show ?thesis
    by (auto simp: load_from_excel_def Let_def excel_scan_store split: prod.splits option.splits)
qed

lemma scan_sheet_cross:
  assumes "list_all starts_with_cross (fst (snd (snd acc)) @ snd (snd (snd acc)))"
  shows "list_all starts_with_cross
           (fst (snd (snd (scan_sheet xf nm config acc))) @ snd (snd (snd (scan_sheet xf nm config acc))))"
  using assms
  by (cases acc) (auto simp: scan_sheet_def Let_def split: option.splits)

lemma load_sheets_cross:
  assumes "list_all starts_with_cross (fst (snd (snd acc)) @ snd (snd (snd acc)))"
  shows "list_all starts_with_cross
           (fst (snd (snd (load_sheets xf cfgs acc))) @ snd (snd (snd (load_sheets xf cfgs acc))))"
  using assms
proof (induction cfgs arbitrary: acc)
  case Nil
  then show ?case by simp
next
  case (Cons e cfgs)
  obtain n c where e: "e = (n, c)" by (cases e)
  show ?case
    unfolding e using Cons.IH [OF scan_sheet_cross [OF Cons.prems, of xf n c]] by simp
qed

lemma excel_scan_cross:
  "list_all starts_with_cross (scan_errors (load_sheets xf SHEET_CONFIG (Map.empty, [], [], [])))"
proof -
  let ?sc = "load_sheets xf SHEET_CONFIG (Map.empty, [], [], [])"
  have "list_all starts_with_cross (fst (snd (snd ?sc)) @ snd (snd (snd ?sc)))"
    by (rule load_sheets_cross) simp
  then show ?thesis
    by (cases ?sc) (simp add: scan_errors_def)
qed

lemma filter_cross_scan_errors:
  assumes "scan_errors (load_sheets xf SHEET_CONFIG (Map.empty, [], [], [])) \<noteq> []"
  shows "filter starts_with_cross
           (scan_errors (load_sheets xf SHEET_CONFIG (Map.empty, [], [], [])) @ es) \<noteq> []"
  using assms excel_scan_cross [of xf]
  by (cases "scan_errors (load_sheets xf SHEET_CONFIG (Map.empty, [], [], []))") simp_all

lemma load_from_excel_invalid:
  assumes "excel_invalid xf"
  shows "data (fst (load_from_excel p (Some xf))) = excel_store xf"
    and "metadata (fst (load_from_excel p (Some xf))) = empty_metadata"
    and "is_loaded (fst (load_from_excel p (Some xf))) = is_loaded p"
    and "load_errors (fst (load_from_excel p (Some xf)))
           = scan_errors (load_sheets xf SHEET_CONFIG (Map.empty, [], [], [])) @ required_structure"
    and "snd (load_from_excel p (Some xf)) =
           Inr \<lparr> res_success = False,
                 res_errors = scan_errors (load_sheets xf SHEET_CONFIG (Map.empty, [], [], []))
                                @ required_structure,
                 res_metadata = empty_metadata,
                 res_sheets_found = filter (\<lambda>nm. excel_store xf nm \<noteq> None) (map fst SHEET_CONFIG),
                 res_sheets_required = map fst required_sheets \<rparr>"
proof -
  have e: "scan_errors (load_sheets xf SHEET_CONFIG (Map.empty, [], [], [])) \<noteq> []"
    using assms by (simp add: excel_scan_errors)
  obtain d m l es where p: "p = \<lparr> data = d, metadata = m, is_loaded = l, load_errors = es \<rparr>"
    by (cases p)
  have r: "load_from_excel p (Some xf) =
          (\<lparr> data = excel_store xf, metadata = empty_metadata, is_loaded = l,
             load_errors = scan_errors (load_sheets xf SHEET_CONFIG (Map.empty, [], [], []))
                             @ required_structure \<rparr>,
           Inr (excel_result
                 \<lparr> data = excel_store xf, metadata = empty_metadata, is_loaded = l,
                   load_errors = scan_errors (load_sheets xf SHEET_CONFIG (Map.empty, [], [], []))
                                   @ required_structure \<rparr>))"
    using e by (simp add: load_from_excel_def Let_def excel_scan_store p)
  show "data (fst (load_from_excel p (Some xf))) = excel_store xf"
    and "metadata (fst (load_from_excel p (Some xf))) = empty_metadata"
    and "is_loaded (fst (load_from_excel p (Some xf))) = is_loaded p"
    and "load_errors (fst (load_from_excel p (Some xf)))
           = scan_errors (load_sheets xf SHEET_CONFIG (Map.empty, [], [], [])) @ required_structure"
    using r unfolding p by simp_all
  show "snd (load_from_excel p (Some xf)) =
           Inr \<lparr> res_success = False,
                 res_errors = scan_errors (load_sheets xf SHEET_CONFIG (Map.empty, [], [], []))
                                @ required_structure,
                 res_metadata = empty_metadata,
                 res_sheets_found = filter (\<lambda>nm. excel_store xf nm \<noteq> None) (map fst SHEET_CONFIG),
                 res_sheets_required = map fst required_sheets \<rparr>"
    using filter_cross_scan_errors [OF e, of required_structure] r
    unfolding p by (simp add: excel_result_def)
qed


subsection \<open>Loading a folder\<close>

lemma load_file_store:
  "fst (load_file fd nm config acc) =
     (case fd (cfg_file config) of
        Some (Some df) \<Rightarrow> (fst acc)(nm \<mapsto> strip_columns df)
      | _ \<Rightarrow> fst acc)"
  by (cases acc) (auto simp: load_file_def split: option.splits)

lemma load_files_store:
  "distinct (map fst cfgs) \<Longrightarrow>
   fst (load_files fd cfgs acc) nm =
     (case map_of cfgs nm of
        Some config \<Rightarrow>
          (case fd (cfg_file config) of
             Some (Some df) \<Rightarrow> Some (strip_columns df)
           | _ \<Rightarrow> fst acc nm)
      | None \<Rightarrow> fst acc nm)"
proof (induction cfgs arbitrary: acc)
  case Nil
  then show ?case by simp
next
  case (Cons e cfgs)
  obtain n c where e: "e = (n, c)" by (cases e)
  from Cons.prems have d: "distinct (map fst cfgs)" and n: "n \<notin> fst ` set cfgs"
    by (simp_all add: e)
  from n have none: "map_of cfgs n = None" by (simp add: map_of_eq_None_iff)
  show ?case
    unfolding e
    using Cons.IH [OF d, of "load_file fd n c acc"] none
    by (auto simp: load_file_store split: option.splits)
qed

lemma folder_scan_store:
  "fst (load_files fd SHEET_CONFIG (Map.empty, [])) = folder_store fd"
  by (rule ext)
     (simp add: load_files_store [OF distinct_sheet_names] folder_store_def split: option.splits)

lemma load_file_errors:
  "snd (load_file fd nm config acc) \<noteq> [] \<longleftrightarrow> snd acc \<noteq> [] \<or> file_invalid fd config"
  by (cases acc) (auto simp: load_file_def file_invalid_def split: option.splits)

lemma load_files_errors:
  "snd (load_files fd cfgs acc) \<noteq> []
     \<longleftrightarrow> snd acc \<noteq> [] \<or> list_ex (\<lambda>(nm, config). file_invalid fd config) cfgs"
proof (induction cfgs arbitrary: acc)
  case Nil
  then show ?case by simp
next
  case (Cons e cfgs)
  obtain n c where e: "e = (n, c)" by (cases e)
  show ?case
    unfolding e using Cons.IH [of "load_file fd n c acc"]
    by (auto simp: load_file_errors)
qed

lemma folder_scan_errors:
  "snd (load_files fd SHEET_CONFIG (Map.empty, [])) \<noteq> [] \<longleftrightarrow> folder_invalid fd"
  by (simp add: load_files_errors folder_invalid_def)

lemma load_from_folder_data:
  "data (fst (load_from_folder p fd)) = folder_store fd"
proof -
  obtain d es where l: "load_files fd SHEET_CONFIG (Map.empty, []) = (d, es)"
    by (cases "load_files fd SHEET_CONFIG (Map.empty, [])")
  from folder_scan_store [of fd] have d: "d = folder_store fd" by (simp add: l)
  let ?q = "p\<lparr>data := d, metadata := empty_metadata, load_errors := [], is_loaded := True\<rparr>"
  have "data (fst (extract_metadata ?q)) = d"
    by (simp add: extract_metadata_data)
  then show ?thesis
    unfolding d [symmetric]
    by (auto simp: load_from_folder_def Let_def l split: prod.splits option.splits)
qed

lemma load_from_folder_invalid:
  assumes "folder_invalid fd"
  shows "data (fst (load_from_folder p fd)) = folder_store fd"
    and "metadata (fst (load_from_folder p fd)) = empty_metadata"
    and "is_loaded (fst (load_from_folder p fd)) = is_loaded p"
    and "load_errors (fst (load_from_folder p fd)) = snd (load_files fd SHEET_CONFIG (Map.empty, []))"
    and "snd (load_from_folder p fd) =
           Inr \<lparr> res_success = False,
                 res_errors = snd (load_files fd SHEET_CONFIG (Map.empty, [])),
                 res_metadata = empty_metadata \<rparr>"
proof -
  obtain d es where l: "load_files fd SHEET_CONFIG (Map.empty, []) = (d, es)"
    by (cases "load_files fd SHEET_CONFIG (Map.empty, [])")
  from folder_scan_store [of fd] have d: "d = folder_store fd" by (simp add: l)
  from assms have e: "es \<noteq> []" using folder_scan_errors [of fd] by (simp add: l)
  obtain d0 m l0 es0 where p: "p = \<lparr> data = d0, metadata = m, is_loaded = l0, load_errors = es0 \<rparr>"
    by (cases p)
  have r: "load_from_folder p fd =
          (\<lparr> data = d, metadata = empty_metadata, is_loaded = l0, load_errors = es \<rparr>,
           Inr \<lparr> res_success = False, res_errors = es, res_metadata = empty_metadata \<rparr>)"
    using e by (simp add: load_from_folder_def Let_def l p)
  show "data (fst (load_from_folder p fd)) = folder_store fd"
    and "metadata (fst (load_from_folder p fd)) = empty_metadata"
    and "is_loaded (fst (load_from_folder p fd)) = is_loaded p"
    and "load_errors (fst (load_from_folder p fd)) = snd (load_files fd SHEET_CONFIG (Map.empty, []))"
    and "snd (load_from_folder p fd) =
           Inr \<lparr> res_success = False,
                 res_errors = snd (load_files fd SHEET_CONFIG (Map.empty, [])),
                 res_metadata = empty_metadata \<rparr>"
    using r unfolding p by (simp_all add: l d)
qed

lemma partial_file_invalid: "excel_invalid partial_file"
  by (simp add: excel_invalid_def SHEET_CONFIG_def sheet_invalid_def partial_file_def
      match_sheet_def lower_names remove_csv)

lemma partial_file_store:
  "excel_store partial_file ''IUGUType'' = Some t_type"
  "excel_store partial_file ''Logistics'' = None"
  by (simp_all add: excel_store_def SHEET_CONFIG_def accepted_sheet_def partial_file_def
      match_sheet_def lower_names remove_csv strip_samples sample_missing_cols)

lemma empty_folder_invalid: "folder_invalid (\<lambda>f. None)"
  by (simp add: folder_invalid_def SHEET_CONFIG_def file_invalid_def)

text \<open>
  Claim C3, as stated, fails: after the sample dataset is loaded, loading an Excel file that
  holds the plant-type sheet alone fails, and the store then holds that one sheet and no
  logistics table, while the parser still counts as loaded.
\<close>

theorem failed_load_counterexample:
  "fst (load_from_excel init_parser (Some (sample_file 1000))) = sample_parser 1000
   \<and> excel_invalid partial_file
   \<and> map_sum id res_success (snd (load_from_excel (sample_parser 1000) (Some partial_file)))
       = Inr False
   \<and> data (sample_parser 1000) ''Logistics'' = Some t_logistics
   \<and> data (fst (load_from_excel (sample_parser 1000) (Some partial_file))) ''Logistics'' = None
   \<and> data (fst (load_from_excel (sample_parser 1000) (Some partial_file))) ''IUGUType''
       = Some t_type
   \<and> is_loaded (fst (load_from_excel (sample_parser 1000) (Some partial_file)))"
  by (simp add: sample_load partial_file_invalid load_from_excel_invalid [OF partial_file_invalid]
      partial_file_store sample_parser_fields sample_store_lookups)

text \<open>
  Claim C3, amended. Every load begins by discarding the tables, the metadata and the errors
  loaded before. A load that fails validation (an Excel file in which a required sheet is
  missing, unreadable or lacks a required column; a folder in which a required file is
  missing or unreadable) reports failure with a non-empty error list and empty metadata,
  leaves the metadata empty, and leaves in the store exactly the tables of the candidate set
  that were accepted one by one: the previous dataset is not kept.
\<close>

theorem failed_load_replaces_dataset:
  "(excel_invalid xf \<longrightarrow>
        data (fst (load_from_excel p (Some xf))) = excel_store xf
      \<and> metadata (fst (load_from_excel p (Some xf))) = empty_metadata
      \<and> (\<exists>res. snd (load_from_excel p (Some xf)) = Inr res \<and> \<not> res_success res
                 \<and> res_errors res \<noteq> [] \<and> res_metadata res = empty_metadata))
   \<and> (folder_invalid fd \<longrightarrow>
        data (fst (load_from_folder p fd)) = folder_store fd
      \<and> metadata (fst (load_from_folder p fd)) = empty_metadata
      \<and> (\<exists>res. snd (load_from_folder p fd) = Inr res \<and> \<not> res_success res
                 \<and> res_errors res \<noteq> [] \<and> res_metadata res = empty_metadata))"
proof (intro conjI impI)
  assume x: "excel_invalid xf"
  show "data (fst (load_from_excel p (Some xf))) = excel_store xf"
    and "metadata (fst (load_from_excel p (Some xf))) = empty_metadata"
    by (simp_all add: load_from_excel_invalid [OF x])
  have "scan_errors (load_sheets xf SHEET_CONFIG (Map.empty, [], [], [])) \<noteq> []"
    using x by (simp add: excel_scan_errors)
  then show "\<exists>res. snd (load_from_excel p (Some xf)) = Inr res \<and> \<not> res_success res
                 \<and> res_errors res \<noteq> [] \<and> res_metadata res = empty_metadata"
    by (simp add: load_from_excel_invalid(5) [OF x])
next
  assume f: "folder_invalid fd"
  show "data (fst (load_from_folder p fd)) = folder_store fd"
    and "metadata (fst (load_from_folder p fd)) = empty_metadata"
    by (simp_all add: load_from_folder_invalid [OF f])
  have "snd (load_files fd SHEET_CONFIG (Map.empty, [])) \<noteq> []"
    using f by (simp add: folder_scan_errors)
  then show "\<exists>res. snd (load_from_folder p fd) = Inr res \<and> \<not> res_success res
                 \<and> res_errors res \<noteq> [] \<and> res_metadata res = empty_metadata"
    by (simp add: load_from_folder_invalid(5) [OF f])
qed

theorem failed_load_replaces_dataset_witness:
  "excel_invalid partial_file
   \<and> data (fst (load_from_excel (sample_parser 1000) (Some partial_file))) = excel_store partial_file
   \<and> metadata (fst (load_from_excel (sample_parser 1000) (Some partial_file))) = empty_metadata
   \<and> excel_store partial_file ''Logistics'' = None
   \<and> folder_invalid (\<lambda>f. None)
   \<and> data (fst (load_from_folder (sample_parser 1000) (\<lambda>f. None))) = folder_store (\<lambda>f. None)
   \<and> metadata (fst (load_from_folder (sample_parser 1000) (\<lambda>f. None))) = empty_metadata"
  using failed_load_replaces_dataset [of partial_file "sample_parser 1000" "\<lambda>f. None"]
    partial_file_invalid empty_folder_invalid
  by (simp add: partial_file_store)

subsection \<open>The validator\<close>

lemma validate_complete_dataset_fields:
  "rep_present (validate_complete_dataset p)
     = filter (\<lambda>nm. data p nm \<noteq> None) (map fst required_sheets)"
  "rep_missing (validate_complete_dataset p)
     = filter (\<lambda>nm. data p nm = None) (map fst required_sheets)"
  "rep_complete (validate_complete_dataset p) \<longleftrightarrow> rep_missing (validate_complete_dataset p) = []"
  by (simp_all add: validate_complete_dataset_def Let_def)

lemma required_sheet_name:
  "(nm, config) \<in> set SHEET_CONFIG \<Longrightarrow> cfg_required config \<Longrightarrow> nm \<in> set (map fst required_sheets)"
  by (force simp: required_sheets_def)

lemma required_sheet_config:
  "nm \<in> set (map fst required_sheets) \<Longrightarrow>
   \<exists>config. (nm, config) \<in> set SHEET_CONFIG \<and> cfg_required config"
  by (auto simp: required_sheets_def)

lemma sheet_config_lookup:
  "(nm, config) \<in> set SHEET_CONFIG \<Longrightarrow> map_of SHEET_CONFIG nm = Some config"
  by (rule map_of_is_SomeI [OF distinct_sheet_names])

lemma excel_store_entry:
  "(nm, config) \<in> set SHEET_CONFIG \<Longrightarrow> excel_store xf nm = accepted_sheet xf nm config"
  by (simp add: excel_store_def sheet_config_lookup)

lemma accepted_sheet_Some:
  assumes "accepted_sheet xf nm config = Some t" and "cfg_required config"
  shows "missing_cols config t = [] \<and> (\<exists>df0. t = strip_columns df0)"
  using assms
  by (auto simp: accepted_sheet_def split: option.splits if_splits)

lemma accepted_sheet_valid:
  assumes "\<not> sheet_invalid xf nm config" and "cfg_required config"
  shows "accepted_sheet xf nm config \<noteq> None"
  using assms
  by (auto simp: accepted_sheet_def sheet_invalid_def split: option.splits if_splits)

lemma accepted_sheet_bad_columns:
  assumes "match_sheet (map fst xf) nm config = Some m" and "m \<noteq> []"
    and "map_of xf m = Some (Some df0)" and "missing_cols config (strip_columns df0) \<noteq> []"
    and "cfg_required config"
  shows "accepted_sheet xf nm config = None" and "sheet_invalid xf nm config"
  using assms by (simp_all add: accepted_sheet_def sheet_invalid_def)

lemma missing_cols_empty:
  "missing_cols config t = [] \<longleftrightarrow> (\<forall>c \<in> set (cfg_columns config). upper c \<in> set (map upper (columns t)))"
  by (auto simp: missing_cols_def filter_empty_conv)

lemma scan_sheet_invalid_columns:
  "set (fst (snd (snd acc))) \<subseteq> set (fst (snd (snd (scan_sheet xf nm config acc))))"
  by (cases acc) (auto simp: scan_sheet_def Let_def split: option.splits)

lemma load_sheets_invalid_columns:
  "set (fst (snd (snd acc))) \<subseteq> set (fst (snd (snd (load_sheets xf cfgs acc))))"
proof (induction cfgs arbitrary: acc)
  case Nil
  then show ?case by simp
next
  case (Cons e cfgs)
  obtain n c where e: "e = (n, c)" by (cases e)
  show ?case
    unfolding e
    using Cons.IH [of "scan_sheet xf n c acc"] scan_sheet_invalid_columns [of acc xf n c]
    by auto
qed

lemma scan_sheet_bad_columns:
  assumes "match_sheet (map fst xf) nm config = Some m" and "m \<noteq> []"
    and "map_of xf m = Some (Some df0)" and "missing_cols config (strip_columns df0) \<noteq> []"
    and "cfg_required config"
  shows "SheetMissingColumns m (missing_cols config (strip_columns df0))
           \<in> set (fst (snd (snd (scan_sheet xf nm config acc))))"
  using assms by (cases acc) (simp add: scan_sheet_def Let_def)

lemma load_sheets_bad_columns:
  assumes "(nm, config) \<in> set cfgs"
    and "match_sheet (map fst xf) nm config = Some m" and "m \<noteq> []"
    and "map_of xf m = Some (Some df0)" and "missing_cols config (strip_columns df0) \<noteq> []"
    and "cfg_required config"
  shows "SheetMissingColumns m (missing_cols config (strip_columns df0))
           \<in> set (fst (snd (snd (load_sheets xf cfgs acc))))"
  using assms(1)
proof (induction cfgs arbitrary: acc)
  case Nil
  then show ?case by simp
next
  case (Cons e cfgs)
  obtain n c where e: "e = (n, c)" by (cases e)
  show ?case
  proof (cases "(nm, config) = (n, c)")
    case True
    then have "SheetMissingColumns m (missing_cols config (strip_columns df0))
                 \<in> set (fst (snd (snd (scan_sheet xf n c acc))))"
      using scan_sheet_bad_columns [OF assms(2-6), of acc] by simp
    then show ?thesis
      unfolding e using load_sheets_invalid_columns [of "scan_sheet xf n c acc" xf cfgs] by auto
  next
    case False
    with Cons.prems have "(nm, config) \<in> set cfgs" by (auto simp: e)
    from Cons.IH [OF this] show ?thesis unfolding e by simp
  qed
qed

lemma invalid_columns_in_errors:
  "set (fst (snd (snd sc))) \<subseteq> set (scan_errors sc)"
  by (cases sc) (auto simp: scan_errors_def)

lemma load_from_excel_success:
  assumes "snd (load_from_excel p (Some xf)) = Inr res" and "res_success res"
  shows "\<not> excel_invalid xf"
proof
  assume x: "excel_invalid xf"
  from load_from_excel_invalid(5) [OF x, of p] assms show False by simp
qed

lemma valid_excel_complete:
  assumes "\<not> excel_invalid xf"
  shows "rep_complete (validate_complete_dataset (fst (load_from_excel p (Some xf))))"
proof -
  have "excel_store xf nm \<noteq> None" if "nm \<in> set (map fst required_sheets)" for nm
  proof -
    from required_sheet_config [OF that] obtain config where
      c: "(nm, config) \<in> set SHEET_CONFIG" "cfg_required config" by blast
    from assms c(1) have "\<not> sheet_invalid xf nm config"
      by (auto simp: excel_invalid_def list_ex_iff)
    from accepted_sheet_valid [OF this c(2)] show ?thesis
      by (simp add: excel_store_entry [OF c(1)])
  qed
  then show ?thesis
    by (simp add: validate_complete_dataset_fields load_from_excel_data filter_empty_conv)
qed

lemma logistics_config_entry:
  "(''Logistics'', logistics_config) \<in> set SHEET_CONFIG" "cfg_required logistics_config"
  by (simp_all add: SHEET_CONFIG_def logistics_config_def)

lemma strip_no_freight: "strip_columns t_logistics_no_freight = t_logistics_no_freight"
  by (simp add: strip_columns_def strip_def is_space_def t_logistics_no_freight_def)

lemma no_freight_missing_cols:
  "missing_cols logistics_config t_logistics_no_freight = [''FREIGHT COST'']"
  by (simp add: missing_cols_def logistics_config_def upper_cols t_logistics_no_freight_def)

lemma no_freight_file_match:
  "match_sheet (map fst no_freight_file) ''Logistics'' logistics_config = Some ''Logistics''"
  "map_of no_freight_file ''Logistics'' = Some (Some t_logistics_no_freight)"
  by (simp_all add: match_sheet_def no_freight_file_def)

lemma no_freight_folder_store:
  "folder_store no_freight_folder ''IUGUType'' = Some t_type"
  "folder_store no_freight_folder ''Logistics'' = Some t_logistics_no_freight"
  "folder_store no_freight_folder ''Demand'' = Some t_demand"
  "folder_store no_freight_folder ''Capacity'' = Some (t_capacity 1000)"
  "folder_store no_freight_folder ''ProductionCost'' = Some t_prodcost"
  "folder_store no_freight_folder ''OpeningStock'' = Some t_opening"
  "folder_store no_freight_folder ''ClosingStock'' = Some t_closing"
  by (simp_all add: folder_store_def SHEET_CONFIG_def no_freight_folder_def strip_samples
      strip_no_freight)

lemma no_freight_folder_valid: "\<not> folder_invalid no_freight_folder"
  by (simp add: folder_invalid_def SHEET_CONFIG_def file_invalid_def no_freight_folder_def)

lemma no_freight_complete:
  assumes "data p = folder_store no_freight_folder"
  shows "has_complete_data p (Str ''IU1'') (Str ''GU1'') = Inr False"
  by (simp add: has_complete_data_def assms no_freight_folder_store lookup_rows_def
      first_missing_def select_def t_logistics_no_freight_def)

lemma no_freight_destinations:
  assumes "data p = folder_store no_freight_folder" and "is_loaded p"
  shows "get_destinations_for_source p (Str ''IU1'') = Inr []"
  by (simp add: get_destinations_for_source_def assms no_freight_folder_store lookup_rows_def
      first_missing_def select_def unique_def no_freight_complete [OF assms(1)]
      t_logistics_no_freight_def)

lemma no_freight_extract:
  assumes "data p = folder_store no_freight_folder" and "metadata p = empty_metadata"
    and "is_loaded p"
  shows "snd (extract_metadata p) = None"
proof -
  have a: "extract_plants (folder_store no_freight_folder) empty_metadata =
     (empty_metadata\<lparr>md_plants := Some [Str ''IU1'', Str ''GU1'', Str ''GU2''],
        md_iu_plants := Some [Str ''IU1''], md_gu_plants := Some [Str ''GU1'', Str ''GU2'']\<rparr>, None)"
    by (simp add: extract_plants_def no_freight_folder_store t_type_def col_values_def unique_def
        select_def Let_def)
  have b: "extract_sources (folder_store no_freight_folder) md =
     (md\<lparr>md_all_destinations := Some [Str ''GU1''],
         md_transport_modes := Some [Str ''T1''],
         md_source_ius := Some [Str ''IU1'']\<rparr>, None)" for md
    by (simp add: extract_sources_def no_freight_folder_store t_logistics_no_freight_def
        col_values_def unique_def Let_def)
  have c: "extract_periods (folder_store no_freight_folder) md
             = (md\<lparr>md_periods := Some [Num 1]\<rparr>, None)" for md
    by (simp add: extract_periods_def periods_of_def no_freight_folder_store
        t_logistics_no_freight_def col_values_def unique_def)
  show ?thesis
    by (simp add: extract_metadata_def assms a b c filter_sources_with_complete_data_def
        no_freight_destinations)
qed

lemma load_from_folder_valid:
  assumes "\<not> folder_invalid fd"
    and "snd (extract_metadata \<lparr> data = folder_store fd, metadata = empty_metadata,
                                 is_loaded = True, load_errors = [] \<rparr>) = None"
  shows "map_sum id res_success (snd (load_from_folder p fd)) = Inr True"
proof -
  obtain d es where l: "load_files fd SHEET_CONFIG (Map.empty, []) = (d, es)"
    by (cases "load_files fd SHEET_CONFIG (Map.empty, [])")
  from folder_scan_store [of fd] have d: "d = folder_store fd" by (simp add: l)
  from assms(1) have e: "es = []" using folder_scan_errors [of fd] by (simp add: l)
  obtain d0 m l0 es0 where p: "p = \<lparr> data = d0, metadata = m, is_loaded = l0, load_errors = es0 \<rparr>"
    by (cases p)
  show ?thesis
    using assms(2)
    by (auto simp: load_from_folder_def Let_def l p d e split: prod.splits option.splits)
qed

text \<open>
  Claim C4, as stated, fails: a folder with every required file, whose logistics file has no
  freight-cost column, loads with success, and the validator then counts the logistics table
  as present and the dataset as complete.
\<close>

theorem present_without_columns_counterexample:
  "map_sum id res_success (snd (load_from_folder init_parser no_freight_folder)) = Inr True
   \<and> data (fst (load_from_folder init_parser no_freight_folder)) ''Logistics''
       = Some t_logistics_no_freight
   \<and> (''Logistics'', logistics_config) \<in> set SHEET_CONFIG
   \<and> missing_cols logistics_config t_logistics_no_freight = [''FREIGHT COST'']
   \<and> ''Logistics''
       \<in> set (rep_present (validate_complete_dataset (fst (load_from_folder init_parser no_freight_folder))))
   \<and> rep_missing (validate_complete_dataset (fst (load_from_folder init_parser no_freight_folder))) = []
   \<and> rep_complete (validate_complete_dataset (fst (load_from_folder init_parser no_freight_folder)))"
proof -
  have s: "map_sum id res_success (snd (load_from_folder init_parser no_freight_folder)) = Inr True"
    by (rule load_from_folder_valid [OF no_freight_folder_valid]) (simp add: no_freight_extract)
  have r: "map fst required_sheets = [''IUGUType'', ''Logistics'', ''Demand'', ''Capacity'',
                                   ''ProductionCost'', ''OpeningStock'', ''ClosingStock'']"
    by (simp add: required_sheets_def SHEET_CONFIG_def)
  show ?thesis
    by (simp add: s load_from_folder_data no_freight_folder_store logistics_config_entry
        no_freight_missing_cols validate_complete_dataset_fields r)
qed

text \<open>
  Claim C4, amended. The validator counts a required table as present exactly when the store
  holds a table under its name, whatever its columns, and the dataset as complete exactly
  when none is missing. The columns are checked when an Excel file is loaded, the names
  compared in upper case after stripping the labels of surrounding whitespace: every required
  table such a load stores has every required column; a required sheet that lacks one is not
  stored, the load fails with an error naming the sheet and the missing columns, and the
  validator then reports the table as missing; an Excel load that succeeds leaves a complete
  dataset.
\<close>

theorem presence_and_columns:
  "rep_present (validate_complete_dataset p)
     = filter (\<lambda>nm. data p nm \<noteq> None) (map fst required_sheets)
   \<and> rep_missing (validate_complete_dataset p)
       = filter (\<lambda>nm. data p nm = None) (map fst required_sheets)
   \<and> (rep_complete (validate_complete_dataset p) \<longleftrightarrow> rep_missing (validate_complete_dataset p) = [])
   \<and> ((nm, config) \<in> set SHEET_CONFIG \<longrightarrow> cfg_required config \<longrightarrow>
         (\<forall>t. data (fst (load_from_excel q (Some xf))) nm = Some t \<longrightarrow>
                (\<forall>c \<in> set (cfg_columns config). upper c \<in> set (map upper (columns t)))
              \<and> (\<exists>df0. t = strip_columns df0))
       \<and> (\<forall>m df0. match_sheet (map fst xf) nm config = Some m \<longrightarrow> m \<noteq> []
              \<longrightarrow> map_of xf m = Some (Some df0)
              \<longrightarrow> missing_cols config (strip_columns df0) \<noteq> []
              \<longrightarrow> nm \<in> set (rep_missing (validate_complete_dataset (fst (load_from_excel q (Some xf)))))
                \<and> (\<exists>res. snd (load_from_excel q (Some xf)) = Inr res \<and> \<not> res_success res
                        \<and> SheetMissingColumns m (missing_cols config (strip_columns df0))
                            \<in> set (res_errors res))))
   \<and> (\<forall>res. snd (load_from_excel q (Some xf)) = Inr res \<longrightarrow> res_success res
         \<longrightarrow> rep_complete (validate_complete_dataset (fst (load_from_excel q (Some xf)))))"
proof (intro conjI impI allI)
  show "rep_present (validate_complete_dataset p)
          = filter (\<lambda>nm. data p nm \<noteq> None) (map fst required_sheets)"
    and "rep_missing (validate_complete_dataset p)
          = filter (\<lambda>nm. data p nm = None) (map fst required_sheets)"
    and "rep_complete (validate_complete_dataset p) \<longleftrightarrow> rep_missing (validate_complete_dataset p) = []"
    by (simp_all add: validate_complete_dataset_fields)
next
  fix t
  assume c: "(nm, config) \<in> set SHEET_CONFIG" "cfg_required config"
    and t: "data (fst (load_from_excel q (Some xf))) nm = Some t"
  from t have "accepted_sheet xf nm config = Some t"
    by (simp add: load_from_excel_data excel_store_entry [OF c(1)])
  from accepted_sheet_Some [OF this c(2)]
  show "\<forall>c \<in> set (cfg_columns config). upper c \<in> set (map upper (columns t))"
    and "\<exists>df0. t = strip_columns df0"
    by (simp_all add: missing_cols_empty)
next
  fix m df0
  assume c: "(nm, config) \<in> set SHEET_CONFIG" "cfg_required config"
    and b: "match_sheet (map fst xf) nm config = Some m" "m \<noteq> []"
      "map_of xf m = Some (Some df0)" "missing_cols config (strip_columns df0) \<noteq> []"
  from accepted_sheet_bad_columns [OF b c(2)]
  have none: "accepted_sheet xf nm config = None" and inv: "sheet_invalid xf nm config"
    by simp_all
  from inv c(1) have x: "excel_invalid xf"
    by (auto simp: excel_invalid_def list_ex_iff)
  show "nm \<in> set (rep_missing (validate_complete_dataset (fst (load_from_excel q (Some xf)))))"
    using none required_sheet_name [OF c]
    by (simp add: validate_complete_dataset_fields load_from_excel_data excel_store_entry [OF c(1)])
  have "SheetMissingColumns m (missing_cols config (strip_columns df0))
          \<in> set (scan_errors (load_sheets xf SHEET_CONFIG (Map.empty, [], [], [])))"
    using load_sheets_bad_columns [OF c(1) b c(2)] invalid_columns_in_errors by blast
  then show "\<exists>res. snd (load_from_excel q (Some xf)) = Inr res \<and> \<not> res_success res
                        \<and> SheetMissingColumns m (missing_cols config (strip_columns df0))
                            \<in> set (res_errors res)"
    by (simp add: load_from_excel_invalid(5) [OF x])
next
  fix res
  assume "snd (load_from_excel q (Some xf)) = Inr res" and "res_success res"
  from load_from_excel_success [OF this]
  show "rep_complete (validate_complete_dataset (fst (load_from_excel q (Some xf))))"
    by (rule valid_excel_complete)
qed

theorem presence_and_columns_witness:
  "(''Logistics'', logistics_config) \<in> set SHEET_CONFIG \<and> cfg_required logistics_config
   \<and> match_sheet (map fst no_freight_file) ''Logistics'' logistics_config = Some ''Logistics''
   \<and> map_of no_freight_file ''Logistics'' = Some (Some t_logistics_no_freight)
   \<and> missing_cols logistics_config (strip_columns t_logistics_no_freight) = [''FREIGHT COST'']
   \<and> ''Logistics''
       \<in> set (rep_missing (validate_complete_dataset (fst (load_from_excel init_parser (Some no_freight_file)))))
   \<and> map_sum id res_success (snd (load_from_excel init_parser (Some no_freight_file))) = Inr False
   \<and> data (fst (load_from_excel init_parser (Some (sample_file 1000)))) ''Logistics''
       = Some t_logistics
   \<and> list_all (\<lambda>c. upper c \<in> set (map upper (columns t_logistics)))
         (cfg_columns logistics_config)
   \<and> map_sum id res_success (snd (load_from_excel init_parser (Some (sample_file 1000)))) = Inr True
   \<and> rep_complete (validate_complete_dataset (fst (load_from_excel init_parser (Some (sample_file 1000)))))"
proof -
  have dl: "data (fst (load_from_excel init_parser (Some (sample_file 1000)))) ''Logistics''
              = Some t_logistics"
    by (simp add: sample_load sample_parser_fields sample_store_lookups)
  obtain res where sv: "snd (load_from_excel init_parser (Some (sample_file 1000))) = Inr res"
    and ok: "res_success res"
    by (simp add: sample_load)
  from presence_and_columns [of init_parser "''Logistics''" logistics_config init_parser
         "sample_file 1000"] logistics_config_entry dl sv ok
  have cols: "\<forall>c \<in> set (cfg_columns logistics_config). upper c \<in> set (map upper (columns t_logistics))"
    and full: "rep_complete (validate_complete_dataset (fst (load_from_excel init_parser (Some (sample_file 1000)))))"
    by blast+
  from cols have cols': "list_all (\<lambda>c. upper c \<in> set (map upper (columns t_logistics)))
         (cfg_columns logistics_config)"
    by (simp add: list_all_iff)
  have sv': "map_sum id res_success (snd (load_from_excel init_parser (Some (sample_file 1000)))) = Inr True"
    using sv ok by simp
  have n: "''Logistics'' \<noteq> []" by simp
  have mc: "missing_cols logistics_config (strip_columns t_logistics_no_freight) \<noteq> []"
    by (simp add: strip_no_freight no_freight_missing_cols)
  from presence_and_columns [of init_parser "''Logistics''" logistics_config init_parser no_freight_file]
    logistics_config_entry no_freight_file_match n mc
  have "''Logistics''
       \<in> set (rep_missing (validate_complete_dataset (fst (load_from_excel init_parser (Some no_freight_file)))))
     \<and> (\<exists>res. snd (load_from_excel init_parser (Some no_freight_file)) = Inr res \<and> \<not> res_success res)"
    by blast
  then have "(''Logistics'', logistics_config) \<in> set SHEET_CONFIG \<and> cfg_required logistics_config
   \<and> match_sheet (map fst no_freight_file) ''Logistics'' logistics_config = Some ''Logistics''
   \<and> map_of no_freight_file ''Logistics'' = Some (Some t_logistics_no_freight)
   \<and> missing_cols logistics_config (strip_columns t_logistics_no_freight) = [''FREIGHT COST'']
   \<and> ''Logistics''
       \<in> set (rep_missing (validate_complete_dataset (fst (load_from_excel init_parser (Some no_freight_file)))))
   \<and> map_sum id res_success (snd (load_from_excel init_parser (Some no_freight_file))) = Inr False"
    using logistics_config_entry no_freight_file_match
    by (auto simp: strip_no_freight no_freight_missing_cols)
  with dl cols' sv' full show ?thesis by blast
qed

end
